(* ===== verification/Prelude.thy ===== *)
theory Prelude
  imports Main "HOL-Library.Word" "HOL-Library.Monad_Syntax"
begin

text \<open>
  The shared vocabulary of the development: machine words, byte and text sequences, the outcome of
  a Go call, slicing and indexing with Go's run-time checks, little-endian integers
  (\<^verbatim>\<open>encoding/binary\<close>), and the number formatting verbs (\<^verbatim>\<open>%d\<close>,
  \<^verbatim>\<open>%x\<close>, \<^verbatim>\<open>%02X\<close>, \<^verbatim>\<open>%04X\<close>) the code prints with.

  Conventions. A Go call that can panic or return an error has type \<open>'a go\<close>: \<open>None\<close> is
  a run-time panic, \<open>Some (Inl e)\<close> an error return with text \<open>e\<close>, \<open>Some (Inr v)\<close> the
  value. A Go \<^verbatim>\<open>string\<close> is a \<open>string\<close> (a Go string is a byte sequence and so is
  a HOL string, whose characters are bytes).
\<close>

unbundle bit_operations_syntax

section \<open>Collections of simplification rules\<close>

named_theorems go_simps \<open>unfolding of the outcome combinators and of Go slices\<close>
named_theorems codec_simps \<open>little-endian encoders and decoders\<close>

section \<open>Types\<close>

type_synonym byte = "8 word"
type_synonym bytes = "byte list"
type_synonym u16 = "16 word"
type_synonym u32 = "32 word"
type_synonym u64 = "64 word"
type_synonym i8 = "8 word"
type_synonym i16 = "16 word"
type_synonym i32 = "32 word"
type_synonym 'a go = "(string + 'a) option"

section \<open>Outcomes of a Go call\<close>

definition ok :: "'a \<Rightarrow> 'a go" where
  [go_simps]: "ok v = Some (Inr v)"

definition fail :: "string \<Rightarrow> 'a go" where
  [go_simps]: "fail e = Some (Inl e)"

text \<open>\<^verbatim>\<open>v, err := m; if err != nil { return wrap(err) }; k(v)\<close>, panics propagating.\<close>

definition try_go :: "'a go \<Rightarrow> (string \<Rightarrow> string) \<Rightarrow> ('a \<Rightarrow> 'b go) \<Rightarrow> 'b go" where
  "try_go m wrap k =
     (case m of None \<Rightarrow> None
      | Some (Inl e) \<Rightarrow> fail (wrap e)
      | Some (Inr v) \<Rightarrow> k v)"

lemma try_go_simps [simp]:
  "try_go None w k = None"
  "try_go (fail e) w k = fail (w e)"
  "try_go (ok v) w k = k v"
  by (simp_all add: try_go_def ok_def fail_def)

lemma ok_fail_distinct [simp]: "ok v \<noteq> fail e" "fail e \<noteq> ok v" "ok v \<noteq> None" "fail e \<noteq> None"
  "None \<noteq> ok v" "None \<noteq> fail e"
  by (simp_all add: go_simps)

lemma ok_inject [simp]: "ok v = ok w \<longleftrightarrow> v = w"
  by (simp add: go_simps)

lemma fail_inject [simp]: "(fail e :: 'a go) = fail f \<longleftrightarrow> e = f"
  by (simp add: go_simps)

lemma go_cases:
  obtains (panic) "m = None" | (error) e where "m = fail e" | (result) v where "m = ok v"
proof (cases m)
  case (Some s)
  then show ?thesis using that by (cases s) (auto simp: go_simps)
qed (use that in blast)

section \<open>Indexing and slicing\<close>

text \<open>
  \<^verbatim>\<open>xs[i]\<close> and \<^verbatim>\<open>xs[lo:hi]\<close>: \<open>None\<close> is the run-time panic. Go lets a slice
  expression reach beyond the length up to the capacity; the model calls that a panic too, and
  the theorems show that it never happens.
\<close>

definition idx :: "'a list \<Rightarrow> nat \<Rightarrow> 'a option" where
  [go_simps]: "idx xs i = (if i < length xs then Some (xs ! i) else None)"

definition slice :: "nat \<Rightarrow> nat \<Rightarrow> 'a list \<Rightarrow> 'a list option" where
  [go_simps]: "slice lo hi xs =
     (if lo \<le> hi \<and> hi \<le> length xs then Some (take (hi - lo) (drop lo xs)) else None)"

lemma idx_Some [simp]: "i < length xs \<Longrightarrow> idx xs i = Some (xs ! i)"
  by (simp add: idx_def)

lemma slice_Some [simp]:
  "lo \<le> hi \<Longrightarrow> hi \<le> length xs \<Longrightarrow> slice lo hi xs = Some (take (hi - lo) (drop lo xs))"
  by (simp add: slice_def)

section \<open>Little-endian integers (encoding/binary)\<close>

fun le16 :: "bytes \<Rightarrow> u16 option" where
  "le16 (b0 # b1 # _) = Some (ucast b0 OR push_bit 8 (ucast b1))"
| "le16 _ = None"

fun le32 :: "bytes \<Rightarrow> u32 option" where
  "le32 (b0 # b1 # b2 # b3 # _) =
     Some (ucast b0 OR push_bit 8 (ucast b1) OR push_bit 16 (ucast b2) OR push_bit 24 (ucast b3))"
| "le32 _ = None"

definition put16 :: "u16 \<Rightarrow> bytes" where
  [codec_simps]: "put16 v = [ucast v, ucast (drop_bit 8 v)]"

definition put32 :: "u32 \<Rightarrow> bytes" where
  [codec_simps]: "put32 v =
     [ucast v, ucast (drop_bit 8 v), ucast (drop_bit 16 v), ucast (drop_bit 24 v)]"

text \<open>\<^verbatim>\<open>binary.LittleEndian.Uint16(p[lo:hi])\<close> and its 32-bit sibling.\<close>

definition Uint16 :: "bytes \<Rightarrow> nat \<Rightarrow> nat \<Rightarrow> u16 option" where
  "Uint16 p lo hi = Option.bind (slice lo hi p) le16"

definition Uint32 :: "bytes \<Rightarrow> nat \<Rightarrow> nat \<Rightarrow> u32 option" where
  "Uint32 p lo hi = Option.bind (slice lo hi p) le32"

lemma length_put16 [simp]: "length (put16 v) = 2"
  by (simp add: put16_def)

lemma length_put32 [simp]: "length (put32 v) = 4"
  by (simp add: put32_def)

lemma xor_cancel_right [simp]: "(v :: 'a::len word) XOR a = w XOR a \<longleftrightarrow> v = w"
proof
  assume "v XOR a = w XOR a"
  then have "(v XOR a) XOR a = (w XOR a) XOR a" by simp
  then show "v = w" by (simp add: xor.assoc)
qed simp

lemma xor_cancel_left [simp]: "a XOR (v :: 'a::len word) = a XOR w \<longleftrightarrow> v = w"
  using xor_cancel_right [of v a w] by (simp add: xor.commute)

lemma byte_bit_range [dest]: "bit (a :: byte) n \<Longrightarrow> n < 8"
  by (drule bit_imp_le_length) simp

lemma byte_bit_high [simp]: "8 \<le> n \<Longrightarrow> \<not> bit (b :: byte) n"
  by auto

lemma ucast_byte_inject [simp]: "(ucast (a :: byte) :: u16) = ucast b \<longleftrightarrow> a = b"
proof
  assume eq: "(ucast a :: u16) = ucast b"
  have "bit a n = bit b n" if "n < 8" for n
    using arg_cong [OF eq, of "\<lambda>v. bit v n"] that by (simp add: bit_unsigned_iff)
  then show "a = b" by (auto intro: bit_word_eqI)
qed simp

lemma ucast_low_byte: "(ucast ((v :: 'a::len word) AND 0xFF) :: byte) = ucast v"
proof -
  have "v AND 0xFF = take_bit 8 v"
    by (simp add: take_bit_eq_mask mask_eq_exp_minus_1)
  then show ?thesis
    by (simp add: unsigned_take_bit_eq) (rule bit_word_eqI, auto simp: bit_simps)
qed

lemma word16_join: "ucast (ucast v :: byte) OR push_bit 8 (ucast (ucast (drop_bit 8 v) :: byte)) = (v :: u16)"
  by (rule bit_word_eqI) (auto simp: bit_simps)

lemma word32_join:
  "ucast (ucast v :: byte) OR push_bit 8 (ucast (ucast (drop_bit 8 v) :: byte))
     OR push_bit 16 (ucast (ucast (drop_bit 16 v) :: byte))
     OR push_bit 24 (ucast (ucast (drop_bit 24 v) :: byte)) = (v :: u32)"
proof (rule bit_word_eqI)
  fix n :: nat
  assume "n < LENGTH(32)"
  then consider "n < 8" | "8 \<le> n" "n < 16" | "16 \<le> n" "n < 24" | "24 \<le> n" "n < 32"
    by (simp; linarith)
  then show "bit (ucast (ucast v :: byte) OR push_bit 8 (ucast (ucast (drop_bit 8 v) :: byte))
     OR push_bit 16 (ucast (ucast (drop_bit 16 v) :: byte))
     OR push_bit 24 (ucast (ucast (drop_bit 24 v) :: byte)) :: u32) n = bit v n"
    by cases (auto simp: bit_simps)
qed

definition join16 :: "byte \<Rightarrow> byte \<Rightarrow> u16" where
  "join16 a b = ucast a OR push_bit 8 (ucast b)"

definition join32 :: "byte \<Rightarrow> byte \<Rightarrow> byte \<Rightarrow> byte \<Rightarrow> u32" where
  "join32 a b c d = ucast a OR push_bit 8 (ucast b) OR push_bit 16 (ucast c) OR push_bit 24 (ucast d)"

lemma take_drop_2: "lo + 2 \<le> length p \<Longrightarrow> take 2 (drop lo p) = [p ! lo, p ! (lo + 1)]"
  by (rule nth_equalityI) (auto simp: less_Suc_eq numeral_eq_Suc)

lemma take_drop_4:
  "lo + 4 \<le> length p \<Longrightarrow> take 4 (drop lo p) = [p ! lo, p ! (lo + 1), p ! (lo + 2), p ! (lo + 3)]"
  by (rule nth_equalityI) (auto simp: less_Suc_eq numeral_eq_Suc)

text \<open>In range, the checked reads are positional.\<close>

lemma Uint16_at [simp]:
  "hi = lo + 2 \<Longrightarrow> hi \<le> length p \<Longrightarrow> Uint16 p lo hi = Some (join16 (p ! lo) (p ! (lo + 1)))"
  by (simp add: Uint16_def take_drop_2 join16_def)

lemma Uint32_at [simp]:
  "hi = lo + 4 \<Longrightarrow> hi \<le> length p \<Longrightarrow>
     Uint32 p lo hi = Some (join32 (p ! lo) (p ! (lo + 1)) (p ! (lo + 2)) (p ! (lo + 3)))"
  by (simp add: Uint32_def take_drop_4 join32_def)

lemma join16_split [simp]: "join16 (ucast v) (ucast (drop_bit 8 v)) = v"
  by (simp add: join16_def word16_join)

lemma join32_split [simp]:
  "join32 (ucast v) (ucast (drop_bit 8 v)) (ucast (drop_bit 16 v)) (ucast (drop_bit 24 v)) = v"
  by (simp add: join32_def word32_join)

lemma put16_join16 [simp]: "put16 (join16 a b) = [a, b]"
  by (auto simp: put16_def join16_def bit_simps intro!: bit_word_eqI)

lemma put32_join32 [simp]: "put32 (join32 a b c d) = [a, b, c, d]"
  by (auto simp: put32_def join32_def bit_simps intro!: bit_word_eqI)

end
