(* ===== verification/Go_Text.thy ===== *)
theory Go_Text
  imports Prelude "HOL-Library.Sublist"
begin

text \<open>
  Text operations of Go's standard library that the code calls: the integer verbs of
  \<^verbatim>\<open>fmt\<close>, and \<^verbatim>\<open>strings.HasPrefix\<close>, \<^verbatim>\<open>HasSuffix\<close>, \<^verbatim>\<open>Contains\<close>,
  \<^verbatim>\<open>TrimPrefix\<close>, \<^verbatim>\<open>Trim\<close>, \<^verbatim>\<open>Split\<close>, \<^verbatim>\<open>ToLower\<close> and
  \<^verbatim>\<open>EqualFold\<close>. The Unicode tables of the standard library, the quoting verb
  \<^verbatim>\<open>%q\<close> and the text of a \<^verbatim>\<open>time.Time\<close> are a parameter (\<open>golib\<close>); the
  tables are consulted only for text with a byte outside ASCII, exactly as the library's ASCII fast
  paths do.
\<close>

section \<open>Numbers\<close>

definition digit :: "int \<Rightarrow> char" where
  "digit d = char_of (if d < 10 then 48 + d else 87 + d)"

definition DIGIT :: "int \<Rightarrow> char" where
  "DIGIT d = char_of (if d < 10 then 48 + d else 55 + d)"

fun dec_digits :: "int \<Rightarrow> string" where
  "dec_digits n = (if n < 10 then [digit n] else dec_digits (n div 10) @ [digit (n mod 10)])"

declare dec_digits.simps [simp del]

text \<open>\<^verbatim>\<open>%d\<close>, of an integer and of a length.\<close>

definition fmt_d :: "int \<Rightarrow> string" where
  "fmt_d i = (if i < 0 then ''-'' @ dec_digits (- i) else dec_digits i)"

definition fmt_nat :: "nat \<Rightarrow> string" where
  "fmt_nat n = fmt_d (int n)"

fun hex_upper :: "int \<Rightarrow> string" where
  "hex_upper n = (if n < 16 then [DIGIT n] else hex_upper (n div 16) @ [DIGIT (n mod 16)])"

declare hex_upper.simps [simp del]

text \<open>\<^verbatim>\<open>%0wX\<close>\<close>

definition fmt_X :: "nat \<Rightarrow> int \<Rightarrow> string" where
  "fmt_X w n = (let s = hex_upper n in replicate (w - length s) CHR ''0'' @ s)"

section \<open>Package strings\<close>

record golib =
  uni_lower :: "string \<Rightarrow> string"
  uni_fold :: "string \<Rightarrow> string \<Rightarrow> bool"
  fmt_q :: "string \<Rightarrow> string"
  uni_trim :: "string \<Rightarrow> string"
  fmt_time :: "int \<Rightarrow> string"

definition is_ascii :: "string \<Rightarrow> bool" where
  "is_ascii s = list_all (\<lambda>c. of_char c < (128 :: nat)) s"

definition lower_char :: "char \<Rightarrow> char" where
  "lower_char c = (let n = (of_char c :: nat) in if 65 \<le> n \<and> n \<le> 90 then char_of (n + 32) else c)"

definition ToLower :: "golib \<Rightarrow> string \<Rightarrow> string" where
  "ToLower L s = (if is_ascii s then map lower_char s else uni_lower L s)"

definition EqualFold :: "golib \<Rightarrow> string \<Rightarrow> string \<Rightarrow> bool" where
  "EqualFold L s t =
     (if is_ascii s \<and> is_ascii t then map lower_char s = map lower_char t else uni_fold L s t)"

definition is_space :: "char \<Rightarrow> bool" where
  "is_space c = (let n = (of_char c :: nat) in n = 32 \<or> (9 \<le> n \<and> n \<le> 13))"

definition TrimSpace :: "golib \<Rightarrow> string \<Rightarrow> string" where
  "TrimSpace L s =
     (if is_ascii s then rev (dropWhile is_space (rev (dropWhile is_space s))) else uni_trim L s)"

definition HasPrefix :: "string \<Rightarrow> string \<Rightarrow> bool" where
  "HasPrefix s p = prefix p s"

definition HasSuffix :: "string \<Rightarrow> string \<Rightarrow> bool" where
  "HasSuffix s p = suffix p s"

definition TrimPrefix :: "string \<Rightarrow> string \<Rightarrow> string" where
  "TrimPrefix s p = (if prefix p s then drop (length p) s else s)"

fun Contains :: "string \<Rightarrow> string \<Rightarrow> bool" where
  "Contains [] p = (p = [])"
| "Contains (c # s) p = (prefix p (c # s) \<or> Contains s p)"

fun split_on :: "'a \<Rightarrow> 'a list \<Rightarrow> 'a list list" where
  "split_on c [] = [[]]"
| "split_on c (x # xs) =
     (if x = c then [] # split_on c xs
      else case split_on c xs of [] \<Rightarrow> [[x]] | y # ys \<Rightarrow> (x # y) # ys)"

text \<open>\<^verbatim>\<open>strings.TrimLeft(s, "/")\<close>, \<^verbatim>\<open>TrimRight\<close> and \<^verbatim>\<open>Trim\<close> with the cutset
  \<^verbatim>\<open>"/"\<close>.\<close>

definition trim_left :: "'a \<Rightarrow> 'a list \<Rightarrow> 'a list" where
  "trim_left c s = dropWhile (\<lambda>x. x = c) s"

definition trim_right :: "'a \<Rightarrow> 'a list \<Rightarrow> 'a list" where
  "trim_right c s = rev (dropWhile (\<lambda>x. x = c) (rev s))"

definition trim :: "'a \<Rightarrow> 'a list \<Rightarrow> 'a list" where
  "trim c s = trim_right c (trim_left c s)"

section \<open>Lemmas\<close>

lemma Contains_iff_sublist: "Contains s p \<longleftrightarrow> sublist p s"
  by (induction s) (auto simp: sublist_Cons_right)

lemma split_on_nonempty [simp]: "split_on c s \<noteq> []"
  by (cases s) (auto split: list.splits)

lemma split_on_free: "c \<notin> set s \<Longrightarrow> split_on c s = [s]"
  by (induction s) auto

lemma split_on_append: "c \<notin> set s \<Longrightarrow> split_on c (s @ c # t) = s # split_on c t"
  by (induction s) auto

lemma split_on_parts_free: "p \<in> set (split_on c s) \<Longrightarrow> c \<notin> set p"
  by (induction s arbitrary: p) (auto split: if_splits list.splits)

lemma split_on_join: "concat (map (\<lambda>p. p @ [c]) (split_on c s)) = s @ [c]"
  by (induction s) (auto split: list.splits dest: sym)

lemma split_on_inject: "split_on c s = split_on c t \<longleftrightarrow> s = t"
  by (metis append1_eq_conv split_on_join)

lemma trim_left_id: "s = [] \<or> hd s \<noteq> c \<Longrightarrow> trim_left c s = s"
  by (cases s) (auto simp: trim_left_def)

lemma trim_right_id: "s = [] \<or> last s \<noteq> c \<Longrightarrow> trim_right c s = s"
  by (cases s rule: rev_cases) (auto simp: trim_right_def)

lemma trim_id: "s \<noteq> [] \<Longrightarrow> hd s \<noteq> c \<Longrightarrow> last s \<noteq> c \<Longrightarrow> trim c s = s"
  by (simp add: trim_def trim_left_id trim_right_id)

lemma dec_digits_nonempty [simp]: "dec_digits n \<noteq> []"
  by (subst dec_digits.simps) simp

lemma digit_inject:
  assumes "0 \<le> a" "a < 10" "0 \<le> b" "b < 10"
  shows "digit a = digit b \<longleftrightarrow> a = b"
proof -
  have "digit d = char_of (nat (48 + d))" if "0 \<le> d" "d < 10" for d
    using that by (simp add: digit_def char_of_def bit_nat_iff)
  with assms show ?thesis by (auto simp: char_of_eq_iff take_bit_nat_eq_self nat_eq_iff)
qed

lemma dec_digits_inject:
  assumes "0 \<le> m" "0 \<le> n"
  shows "dec_digits m = dec_digits n \<longleftrightarrow> m = n"
proof
  show "dec_digits m = dec_digits n \<Longrightarrow> m = n"
    using assms
  proof (induction m arbitrary: n rule: dec_digits.induct)
    case (1 m)
    consider "m < 10" "n < 10" | "m < 10" "\<not> n < 10" | "\<not> m < 10" "n < 10" | "\<not> m < 10" "\<not> n < 10"
      by blast
    then show ?case
    proof cases
      case 4
      with "1.prems" have "dec_digits (m div 10) = dec_digits (n div 10)" "digit (m mod 10) = digit (n mod 10)"
        by (simp_all add: dec_digits.simps [of m] dec_digits.simps [of n])
      with "1.IH" 4 have "m div 10 = n div 10" "m mod 10 = n mod 10"
        by (auto simp: digit_inject)
      then show ?thesis by (metis div_mult_mod_eq)
    qed (use "1.prems" in \<open>auto simp: dec_digits.simps [of m] dec_digits.simps [of n] digit_inject
          append_eq_Cons_conv Cons_eq_append_conv\<close>)
  qed
qed simp

lemma digit_char: "0 \<le> d \<Longrightarrow> d < 10 \<Longrightarrow> of_char (digit d) = nat (48 + d)"
proof -
  assume "0 \<le> d" "d < 10"
  then have "digit d = char_of (nat (48 + d))" by (simp add: digit_def char_of_def bit_nat_iff)
  with \<open>d < 10\<close> show "of_char (digit d) = nat (48 + d)" by (simp add: take_bit_nat_eq_self)
qed

lemma dec_digits_range: "0 \<le> n \<Longrightarrow> c \<in> set (dec_digits n) \<Longrightarrow> 48 \<le> (of_char c :: nat) \<and> of_char c < (58 :: nat)"
proof (induction n rule: dec_digits.induct)
  case (1 n)
  then show ?case by (cases "n < 10") (auto simp: dec_digits.simps [of n] digit_char nat_less_iff)
qed

end
