(* ===== verification/Float64.thy ===== *)
theory Float64
  imports Complex_Main Go_Text
begin

text \<open>
  Go's \<^verbatim>\<open>float64\<close>: IEEE 754 binary64 with rounding to nearest, ties to even, and the
  functions of package \<^verbatim>\<open>math\<close> that IEEE 754 or the package documentation fixes
  (\<^verbatim>\<open>Round\<close>, \<^verbatim>\<open>Floor\<close>, \<^verbatim>\<open>Max\<close>, \<^verbatim>\<open>Min\<close>, \<^verbatim>\<open>Mod\<close>,
  \<^verbatim>\<open>Sqrt\<close>, \<^verbatim>\<open>Float32frombits\<close>). A finite value is its rational value, except for
  the negative zero; \<open>fl\<close> rounds an exact rational result to a float. Operations are not fused.
  NaNs are identified: their payloads are not observable in the code.

  The lemmas give the error of one rounding, monotonicity, exactness on representable values, and
  how far \<open>k / 10\<^sup>d\<close> is from its float.
\<close>

section \<open>Rounding an exact value\<close>

definition rne :: "rat \<Rightarrow> int" where
  "rne x =
     (let n = \<lfloor>x\<rfloor>; d = x - of_int n
      in if d < 1/2 then n else if 1/2 < d then n + 1 else if even n then n else n + 1)"

fun bits :: "int \<Rightarrow> nat" where
  "bits n = (if n \<le> 0 then 0 else Suc (bits (n div 2)))"

declare bits.simps [simp del]

definition pow2 :: "int \<Rightarrow> rat" where
  "pow2 e = (if 0 \<le> e then 2 ^ nat e else 1 / 2 ^ nat (- e))"

definition flog2 :: "rat \<Rightarrow> int" where
  "flog2 x = (if 1 \<le> x then int (bits \<lfloor>x\<rfloor>) - 1 else - int (bits (\<lceil>1 / x\<rceil> - 1)))"

text \<open>The exponent of the last bit of a result: 53 significant bits, but never below the
  smallest subnormal.\<close>

definition ulp_exp :: "rat \<Rightarrow> int" where
  "ulp_exp x = max (- 1074) (flog2 \<bar>x\<bar> - 52)"

definition fl_rat :: "rat \<Rightarrow> rat" where
  "fl_rat x = (if x = 0 then 0 else of_int (rne (x / pow2 (ulp_exp x))) * pow2 (ulp_exp x))"

section \<open>Values and operations\<close>

datatype f64 = Fin rat | NegZero | PInf | NInf | NaN

definition fl :: "rat \<Rightarrow> f64" where
  "fl x =
     (let y = fl_rat x
      in if y = 0 then (if x < 0 then NegZero else Fin 0)
         else if pow2 1024 \<le> y then PInf
         else if y \<le> - pow2 1024 then NInf
         else Fin y)"

fun val :: "f64 \<Rightarrow> rat" where
  "val (Fin r) = r"
| "val _ = 0"

fun signbit :: "f64 \<Rightarrow> bool" where
  "signbit (Fin r) = (r < 0)"
| "signbit NegZero = True"
| "signbit NInf = True"
| "signbit _ = False"

fun finite64 :: "f64 \<Rightarrow> bool" where
  "finite64 (Fin r) = True"
| "finite64 NegZero = True"
| "finite64 _ = False"

definition zero64 :: "bool \<Rightarrow> f64" where
  "zero64 neg = (if neg then NegZero else Fin 0)"

definition inf64 :: "bool \<Rightarrow> f64" where
  "inf64 neg = (if neg then NInf else PInf)"

fun neg64 :: "f64 \<Rightarrow> f64" where
  "neg64 (Fin r) = (if r = 0 then NegZero else Fin (- r))"
| "neg64 NegZero = Fin 0"
| "neg64 PInf = NInf"
| "neg64 NInf = PInf"
| "neg64 NaN = NaN"

definition add64 :: "f64 \<Rightarrow> f64 \<Rightarrow> f64" where
  "add64 x y =
     (if x = NaN \<or> y = NaN then NaN
      else if \<not> finite64 x then (if finite64 y \<or> x = y then x else NaN)
      else if \<not> finite64 y then y
      else if x = NegZero \<and> y = NegZero then NegZero
      else fl (val x + val y))"

definition mul64 :: "f64 \<Rightarrow> f64 \<Rightarrow> f64" where
  "mul64 x y =
     (if x = NaN \<or> y = NaN then NaN
      else if \<not> finite64 x \<or> \<not> finite64 y
      then (if finite64 x \<and> val x = 0 \<or> finite64 y \<and> val y = 0 then NaN
            else inf64 (signbit x \<noteq> signbit y))
      else if val x * val y = 0 then zero64 (signbit x \<noteq> signbit y)
      else fl (val x * val y))"

definition div64 :: "f64 \<Rightarrow> f64 \<Rightarrow> f64" where
  "div64 x y =
     (if x = NaN \<or> y = NaN then NaN
      else if \<not> finite64 x then (if finite64 y then inf64 (signbit x \<noteq> signbit y) else NaN)
      else if \<not> finite64 y then zero64 (signbit x \<noteq> signbit y)
      else if val y = 0 then (if val x = 0 then NaN else inf64 (signbit x \<noteq> signbit y))
      else if val x = 0 then zero64 (signbit x \<noteq> signbit y)
      else fl (val x / val y))"

definition lt64 :: "f64 \<Rightarrow> f64 \<Rightarrow> bool" where
  "lt64 x y =
     (if x = NaN \<or> y = NaN \<or> x = PInf \<or> y = NInf then False
      else if x = NInf \<or> y = PInf then True
      else val x < val y)"

definition eq64 :: "f64 \<Rightarrow> f64 \<Rightarrow> bool" where
  "eq64 x y =
     (if x = NaN \<or> y = NaN then False
      else if finite64 x \<and> finite64 y then val x = val y else x = y)"

instantiation f64 :: "{zero, one, plus, minus, uminus, times, inverse, ord}"
begin

definition zero_f64 :: f64 where "0 = Fin 0"
definition one_f64 :: f64 where "1 = Fin 1"
definition plus_f64 :: "f64 \<Rightarrow> f64 \<Rightarrow> f64" where "x + y = add64 x y"
definition uminus_f64 :: "f64 \<Rightarrow> f64" where "- x = neg64 x"
definition minus_f64 :: "f64 \<Rightarrow> f64 \<Rightarrow> f64" where "x - y = add64 x (neg64 y)"
definition times_f64 :: "f64 \<Rightarrow> f64 \<Rightarrow> f64" where "x * y = mul64 x y"
definition divide_f64 :: "f64 \<Rightarrow> f64 \<Rightarrow> f64" where "x div y = div64 x y"
definition inverse_f64 :: "f64 \<Rightarrow> f64" where "inverse x = div64 (Fin 1) x"
definition less_f64 :: "f64 \<Rightarrow> f64 \<Rightarrow> bool" where "x < y = lt64 x y"
definition less_eq_f64 :: "f64 \<Rightarrow> f64 \<Rightarrow> bool" where "x \<le> y = (lt64 x y \<or> eq64 x y)"

instance ..

end

lemmas f64_ops = zero_f64_def one_f64_def plus_f64_def uminus_f64_def minus_f64_def times_f64_def
  divide_f64_def less_f64_def less_eq_f64_def

text \<open>A decimal literal of the source, and the conversion \<^verbatim>\<open>float64(i)\<close> of an integer.\<close>

abbreviation lit :: "rat \<Rightarrow> f64" where
  "lit r \<equiv> fl r"

definition of_int64 :: "int \<Rightarrow> f64" where
  "of_int64 i = fl (of_int i)"

section \<open>Package math\<close>

text \<open>\<^verbatim>\<open>math.Round\<close>: to the nearest integer, halves away from zero; \<^verbatim>\<open>math.Floor\<close>.\<close>

fun Round :: "f64 \<Rightarrow> f64" where
  "Round (Fin r) =
     (let n = \<lfloor>\<bar>r\<bar> + 1/2\<rfloor>
      in if n = 0 then zero64 (r < 0) else Fin (if r < 0 then - of_int n else of_int n))"
| "Round x = x"

fun Floor :: "f64 \<Rightarrow> f64" where
  "Floor (Fin r) = Fin (of_int \<lfloor>r\<rfloor>)"
| "Floor x = x"

definition Max :: "f64 \<Rightarrow> f64 \<Rightarrow> f64" where
  "Max x y =
     (if x = PInf \<or> y = PInf then PInf
      else if x = NaN \<or> y = NaN then NaN
      else if eq64 x 0 \<and> eq64 x y then (if signbit x then y else x)
      else if y < x then x else y)"

definition Min :: "f64 \<Rightarrow> f64 \<Rightarrow> f64" where
  "Min x y =
     (if x = NInf \<or> y = NInf then NInf
      else if x = NaN \<or> y = NaN then NaN
      else if eq64 x 0 \<and> eq64 x y then (if signbit x then x else y)
      else if x < y then x else y)"

text \<open>\<^verbatim>\<open>math.Mod\<close>: exact, with the sign of the dividend.\<close>

definition Mod :: "f64 \<Rightarrow> f64 \<Rightarrow> f64" where
  "Mod x y =
     (if x = NaN \<or> y = NaN \<or> \<not> finite64 x \<or> eq64 y 0 then NaN
      else if \<not> finite64 y then x
      else let r = \<bar>val x\<bar> - \<bar>val y\<bar> * of_int \<lfloor>\<bar>val x\<bar> / \<bar>val y\<bar>\<rfloor>
           in if r = 0 then zero64 (signbit x) else Fin (if val x < 0 then - r else r))"

fun isqrt :: "int \<Rightarrow> int" where
  "isqrt n =
     (if n \<le> 0 then 0
      else let s = 2 * isqrt (n div 4) in if (s + 1) * (s + 1) \<le> n then s + 1 else s)"

declare isqrt.simps [simp del]

text \<open>\<^verbatim>\<open>math.Sqrt\<close> is correctly rounded: the integer square root of the value scaled by a
  power of four, with one more bit that says whether it is exact, rounds as the real root does.\<close>

definition Sqrt :: "f64 \<Rightarrow> f64" where
  "Sqrt x =
     (case x of
        NaN \<Rightarrow> NaN | PInf \<Rightarrow> PInf | NInf \<Rightarrow> NaN | NegZero \<Rightarrow> NegZero
      | Fin r \<Rightarrow>
          if r < 0 then NaN else if r = 0 then Fin 0
          else let j = nat (max 0 (60 - flog2 r div 2));
                   n = r * 4 ^ j;
                   s = isqrt \<lfloor>n\<rfloor>
               in fl ((2 * of_int s + (if of_int (s * s) = n then 0 else 1)) / 2 ^ Suc j))"

text \<open>\<^verbatim>\<open>math.Pow10(n)\<close> (two table entries multiplied) and \<^verbatim>\<open>math.Pow(10, float64(n))\<close>
  (repeated squaring on the fraction and exponent of the base), for \<open>n \<ge> 0\<close>.\<close>

definition Pow10 :: "nat \<Rightarrow> f64" where
  "Pow10 n = (if n \<le> 308 then lit (10 ^ (32 * (n div 32))) * lit (10 ^ (n mod 32)) else PInf)"

fun pow_loop :: "nat \<Rightarrow> f64 \<Rightarrow> int \<Rightarrow> f64 \<Rightarrow> int \<Rightarrow> f64 \<times> int" where
  "pow_loop i x1 xe a1 ae =
     (if i = 0 then (a1, ae)
      else if xe < - 4096 \<or> 4096 < xe then (a1, ae + xe)
      else let (a1, ae) = (if odd i then (a1 * x1, ae + xe) else (a1, ae));
               (x1, xe) = (x1 * x1, 2 * xe);
               (x1, xe) = (if x1 < lit (1/2) then (x1 + x1, xe - 1) else (x1, xe))
           in pow_loop (i div 2) x1 xe a1 ae)"

declare pow_loop.simps [simp del]

definition Pow_10 :: "nat \<Rightarrow> f64" where
  "Pow_10 n =
     (if n = 0 then 1 else if n = 1 then lit 10
      else let (a1, ae) = pow_loop n (lit (5/8)) 4 1 0 in fl (val a1 * pow2 ae))"

text \<open>The two spellings of decimal rounding in the source: over \<^verbatim>\<open>math.Pow10\<close>
  (\<^verbatim>\<open>schema\<close>, \<^verbatim>\<open>edge-agent\<close>) and over \<^verbatim>\<open>math.Pow\<close>
  (\<^verbatim>\<open>policy\<close>, \<^verbatim>\<open>mavlink\<close>).\<close>

definition round_with :: "f64 \<Rightarrow> f64 \<Rightarrow> f64" where
  "round_with p v = Round (v * p) / p"

text \<open>\<^verbatim>\<open>float64(math.Float32frombits(b))\<close>: widening is exact.\<close>

definition f64_of_f32 :: "u32 \<Rightarrow> f64" where
  "f64_of_f32 b =
     (let neg = bit b 31;
          e = uint (drop_bit 23 b AND 0xFF);
          m = uint (b AND 0x7FFFFF)
      in if e = 255 then (if m = 0 then inf64 neg else NaN)
         else let r = (if e = 0 then of_int m * pow2 (- 149)
                       else of_int (2 ^ 23 + m) * pow2 (e - 150))
              in if r = 0 then zero64 neg else Fin (if neg then - r else r))"

text \<open>\<^verbatim>\<open>%.2f\<close>\<close>

definition fmt_f2 :: "f64 \<Rightarrow> string" where
  "fmt_f2 x =
     (case x of
        NaN \<Rightarrow> ''NaN'' | PInf \<Rightarrow> ''+Inf'' | NInf \<Rightarrow> ''-Inf''
      | _ \<Rightarrow> let n = nat (rne (\<bar>val x\<bar> * 100))
            in (if signbit x then ''-'' else '''') @ fmt_nat (n div 100) @ ''.'' @
               [digit (n mod 100 div 10), digit (n mod 10)])"

section \<open>Lemmas: rounding\<close>

lemma pow2_powi: "pow2 e = 2 powi e"
  by (simp add: pow2_def power_int_def field_simps)

lemma pow2_pos [simp]: "0 < pow2 e"
  by (simp add: pow2_powi)

lemma pow2_nonneg [simp]: "0 \<le> pow2 e"
  by (simp add: pow2_powi)

lemma pow2_nonzero [simp]: "pow2 e \<noteq> 0"
  by (simp add: pow2_powi)

lemma pow2_abs [simp]: "\<bar>pow2 e\<bar> = pow2 e"
  by (simp add: pow2_powi)

lemma pow2_add: "pow2 (a + b) = pow2 a * pow2 b"
  by (simp add: pow2_powi power_int_add)

lemma pow2_mono: "a \<le> b \<Longrightarrow> pow2 a \<le> pow2 b"
  by (simp add: pow2_powi power_int_increasing)

lemma pow2_nat: "pow2 (int n) = 2 ^ n"
  by (simp add: pow2_def)

lemma rne_bounds: "\<bar>of_int (rne x) - x\<bar> \<le> 1/2"
proof -
  define n d where "n = \<lfloor>x\<rfloor>" and "d = x - of_int n"
  then have "0 \<le> d" "d < 1" "x = of_int n + d" by linarith+
  then show ?thesis unfolding rne_def n_def [symmetric] Let_def d_def [symmetric]
    by (auto simp: abs_le_iff)
qed

lemma rne_of_int [simp]: "rne (of_int n) = n"
  by (simp add: rne_def)

lemma rne_mono: "x \<le> y \<Longrightarrow> rne x \<le> rne y"
proof -
  assume le: "x \<le> y"
  show ?thesis
  proof (cases "\<lfloor>x\<rfloor> = \<lfloor>y\<rfloor>")
    case True
    with le show ?thesis by (auto simp: rne_def Let_def)
  next
    case False
    with le have "\<lfloor>x\<rfloor> + 1 \<le> \<lfloor>y\<rfloor>" using floor_mono [OF le] by linarith
    then show ?thesis by (auto simp: rne_def Let_def)
  qed
qed

lemma rne_minus: "rne (- x) = - rne x"
proof -
  consider "x = of_int \<lfloor>x\<rfloor>" | "of_int \<lfloor>x\<rfloor> < x" by linarith
  then show ?thesis
  proof cases
    case 1
    then show ?thesis by (metis of_int_minus rne_of_int)
  next
    case 2
    then have "\<lfloor>- x\<rfloor> = - \<lfloor>x\<rfloor> - 1" by linarith
    then show ?thesis using 2 by (auto simp: rne_def Let_def)
  qed
qed

lemma bits_bounds: "0 < n \<Longrightarrow> 2 ^ (bits n - 1) \<le> n \<and> n < 2 ^ bits n \<and> 0 < bits n"
proof (induction n rule: bits.induct)
  case (1 n)
  show ?case
  proof (cases "n div 2 \<le> 0")
    case True
    with 1 have "n = 1" by simp
    then show ?thesis by (simp add: bits.simps)
  next
    case False
    with 1 have ih: "2 ^ (bits (n div 2) - 1) \<le> n div 2" "n div 2 < 2 ^ bits (n div 2)" "0 < bits (n div 2)"
      by auto
    have b: "bits n = Suc (bits (n div 2))" using 1 by (simp add: bits.simps [of n])
    have p: "2 ^ bits (n div 2) = 2 * (2::int) ^ (bits (n div 2) - 1)"
      using ih(3) by (cases "bits (n div 2)") simp_all
    have "2 * (n div 2) \<le> n" "n < 2 * (n div 2) + 2" by linarith+
    then have "2 * 2 ^ (bits (n div 2) - 1) \<le> n" "n < 2 * 2 ^ bits (n div 2)" using ih by linarith+
    then show ?thesis using b p by simp
  qed
qed

lemma int_pow_rat: "2 ^ k \<le> n \<Longrightarrow> (2::rat) ^ k \<le> of_int n"
  by (metis of_int_le_iff of_int_numeral of_int_power)

lemma int_pow_rat_less: "n < 2 ^ k \<Longrightarrow> of_int n + 1 \<le> (2::rat) ^ k"
proof -
  assume "n < 2 ^ k"
  then have "of_int (n + 1) \<le> (of_int (2 ^ k) :: rat)" by (simp only: of_int_le_iff add1_zle_eq)
  then show ?thesis by simp
qed

lemma flog2_bounds:
  assumes "0 < x"
  shows "pow2 (flog2 x) \<le> x" and "x < pow2 (flog2 x + 1)"
proof -
  have "pow2 (flog2 x) \<le> x \<and> x < pow2 (flog2 x + 1)"
  proof (cases "1 \<le> x")
    case True
    define n where "n = \<lfloor>x\<rfloor>"
    have n: "of_int n \<le> x" "x < of_int n + 1" "0 < n" using True by (simp_all add: n_def) linarith+
    have b: "2 ^ (bits n - 1) \<le> n" "n < 2 ^ bits n" "0 < bits n" using bits_bounds [OF n(3)] by auto
    have fe: "flog2 x = int (bits n - 1)" "flog2 x + 1 = int (bits n)"
      using True b(3) by (simp_all add: flog2_def n_def)
    have "(2::rat) ^ (bits n - 1) \<le> of_int n" "of_int n + 1 \<le> (2::rat) ^ bits n"
      using int_pow_rat [OF b(1)] int_pow_rat_less [OF b(2)] .
    moreover have "pow2 (flog2 x) = 2 ^ (bits n - 1)" by (simp only: fe(1) pow2_nat)
    moreover have "pow2 (flog2 x + 1) = 2 ^ bits n" by (simp only: fe(2) pow2_nat)
    ultimately show ?thesis using n by linarith
  next
    case False
    define y where "y = 1 / x"
    have y: "1 < y" "x = 1 / y" using False assms by (simp_all add: y_def)
    define n where "n = \<lceil>y\<rceil> - 1"
    have n: "of_int n < y" "y \<le> of_int n + 1" "0 < n" using y by (simp_all add: n_def) linarith+
    have b: "2 ^ (bits n - 1) \<le> n" "n < 2 ^ bits n" "0 < bits n" using bits_bounds [OF n(3)] by auto
    have fe: "flog2 x = - int (bits n)" "flog2 x + 1 = - int (bits n - 1)"
      using False b(3) by (simp_all add: flog2_def n_def y_def)
    have bn: "(2::rat) ^ (bits n - 1) \<le> of_int n" "of_int n + 1 \<le> (2::rat) ^ bits n"
      using int_pow_rat [OF b(1)] int_pow_rat_less [OF b(2)] .
    then have lo: "(2::rat) ^ (bits n - 1) < y" and hi: "y \<le> (2::rat) ^ bits n" using n(1,2) by linarith+
    have m: "pow2 (- int k) = 1 / 2 ^ k" for k by (simp add: pow2_def)
    have "pow2 (flog2 x) = 1 / 2 ^ bits n" by (simp only: fe(1) m)
    moreover have "pow2 (flog2 x + 1) = 1 / 2 ^ (bits n - 1)" by (simp only: fe(2) m)
    moreover have "1 / 2 ^ bits n \<le> 1 / y" "1 / y < 1 / 2 ^ (bits n - 1)"
      using lo hi y(1) by (auto intro: divide_left_mono divide_strict_left_mono)
    ultimately show ?thesis using y(2) by linarith
  qed
  then show "pow2 (flog2 x) \<le> x" and "x < pow2 (flog2 x + 1)" by auto
qed

lemma fl_rat_error: "\<bar>fl_rat x - x\<bar> \<le> pow2 (ulp_exp x) / 2"
proof (cases "x = 0")
  case False
  let ?u = "pow2 (ulp_exp x)"
  have "fl_rat x - x = (of_int (rne (x / ?u)) - x / ?u) * ?u"
    using False by (simp add: fl_rat_def field_simps)
  then have "\<bar>fl_rat x - x\<bar> = \<bar>of_int (rne (x / ?u)) - x / ?u\<bar> * ?u"
    by (simp add: abs_mult)
  also have "\<dots> \<le> 1/2 * ?u" by (intro mult_right_mono rne_bounds) simp
  finally show ?thesis by simp
qed (simp add: fl_rat_def)

text \<open>One rounding in the normal range has a relative error of at most \<open>2\<^sup>-\<^sup>5\<^sup>3\<close>.\<close>

lemma fl_rat_rel_error:
  assumes "pow2 (- 1022) \<le> \<bar>x\<bar>"
  shows "\<bar>fl_rat x - x\<bar> \<le> \<bar>x\<bar> / 2 ^ 53"
proof -
  have pos: "0 < \<bar>x\<bar>" using assms pow2_pos [of "- 1022"] by linarith
  have "- 1022 \<le> flog2 \<bar>x\<bar>"
  proof (rule ccontr)
    assume "\<not> ?thesis"
    then have "pow2 (flog2 \<bar>x\<bar> + 1) \<le> pow2 (- 1022)" by (intro pow2_mono) simp
    with flog2_bounds(2) [OF pos] assms show False by linarith
  qed
  then have "ulp_exp x = flog2 \<bar>x\<bar> + (- 52)" by (simp add: ulp_exp_def)
  then have "pow2 (ulp_exp x) = pow2 (flog2 \<bar>x\<bar>) * pow2 (- 52)" by (simp only: pow2_add)
  moreover have "pow2 (- 52) = 1 / 2 ^ 52" by (simp add: pow2_def)
  ultimately have "pow2 (ulp_exp x) / 2 = pow2 (flog2 \<bar>x\<bar>) / 2 ^ 53" by simp
  also have "\<dots> \<le> \<bar>x\<bar> / 2 ^ 53" using flog2_bounds(1) [OF pos] by (intro divide_right_mono) simp_all
  finally show ?thesis using fl_rat_error [of x] by linarith
qed

lemma flog2_mono: "0 < x \<Longrightarrow> x \<le> y \<Longrightarrow> flog2 x \<le> flog2 y"
proof (rule ccontr)
  assume x: "0 < x" "x \<le> y" and "\<not> flog2 x \<le> flog2 y"
  then have "pow2 (flog2 y + 1) \<le> pow2 (flog2 x)" by (intro pow2_mono) simp
  with flog2_bounds(1) [OF x(1)] flog2_bounds(2) [of y] x show False by linarith
qed

lemma fl_rat_minus [simp]: "fl_rat (- x) = - fl_rat x"
  by (simp add: fl_rat_def ulp_exp_def rne_minus)

lemma fl_rat_0 [simp]: "fl_rat 0 = 0"
  by (simp add: fl_rat_def)

text \<open>A multiple of the last bit bounds the rounded value as it bounds the exact one.\<close>

lemma fl_rat_le_grid:
  assumes "x \<le> of_int m * pow2 e" and "ulp_exp x \<le> e"
  shows "fl_rat x \<le> of_int m * pow2 e"
proof (cases "x = 0")
  case False
  let ?u = "pow2 (ulp_exp x)"
  obtain k where k: "e = ulp_exp x + int k" using assms(2) by (metis zle_iff_zadd)
  have g: "of_int m * pow2 e = of_int (m * 2 ^ k) * ?u" by (simp add: k pow2_add pow2_nat)
  have "x / ?u \<le> of_int (m * 2 ^ k)" using assms(1) unfolding g by (simp add: pos_divide_le_eq)
  then have "rne (x / ?u) \<le> m * 2 ^ k" using rne_mono rne_of_int by metis
  then have "of_int (rne (x / ?u)) * ?u \<le> of_int (m * 2 ^ k) * ?u"
    by (intro mult_right_mono) (simp_all only: of_int_le_iff pow2_nonneg)
  then show ?thesis using False unfolding g by (simp add: fl_rat_def)
qed (use assms in simp)

lemma ulp_exp_minus [simp]: "ulp_exp (- x) = ulp_exp x"
  by (simp add: ulp_exp_def)

lemma fl_rat_ge_grid:
  assumes "of_int m * pow2 e \<le> x" and "ulp_exp x \<le> e"
  shows "of_int m * pow2 e \<le> fl_rat x"
  using fl_rat_le_grid [of "- x" "- m" e] assms by simp

text \<open>Exactness: a value with at most 53 significant bits and no bit below the last subnormal one
  rounds to itself.\<close>

definition repr :: "rat \<Rightarrow> bool" where
  "repr r \<longleftrightarrow> (\<exists>m e. r = of_int m * pow2 e \<and> \<bar>m\<bar> < 2 ^ 53 \<and> - 1074 \<le> e)"

lemma repr_ulp:
  assumes "r = of_int m * pow2 e" and "\<bar>m\<bar> < 2 ^ 53" and "- 1074 \<le> e" and "r \<noteq> 0"
  shows "ulp_exp r \<le> e"
proof -
  have "of_int \<bar>m\<bar> < (2::rat) ^ 53"
    using assms(2) by (metis of_int_less_iff of_int_numeral of_int_power)
  then have "\<bar>r\<bar> < pow2 (e + 53)"
    unfolding assms(1) pow2_add by (simp add: pow2_def [of 53] abs_mult mult.commute)
  then have "flog2 \<bar>r\<bar> < e + 53"
    using flog2_bounds(1) [of "\<bar>r\<bar>"] assms(4) pow2_mono [of "e + 53" "flog2 \<bar>r\<bar>"] by linarith
  then show ?thesis using assms(3) by (simp add: ulp_exp_def)
qed

lemma fl_rat_repr:
  assumes "repr r"
  shows "fl_rat r = r"
proof (cases "r = 0")
  case False
  obtain m e where r: "r = of_int m * pow2 e" and "\<bar>m\<bar> < 2 ^ 53" "- 1074 \<le> e"
    using assms unfolding repr_def by blast
  with False have "ulp_exp r \<le> e" by (intro repr_ulp)
  with r show ?thesis
    using fl_rat_le_grid [of r m e] fl_rat_ge_grid [of m e r] by simp
qed simp

lemma repr_of_int: "\<bar>n\<bar> < 2 ^ 53 \<Longrightarrow> repr (of_int n)"
  unfolding repr_def by (intro exI [of _ n] exI [of _ 0]) (simp add: pow2_def)

lemma fl_rat_pos_mono:
  assumes "0 < x" and "x \<le> y"
  shows "fl_rat x \<le> fl_rat y"
proof (cases "ulp_exp x = ulp_exp y")
  case True
  have "x / pow2 (ulp_exp y) \<le> y / pow2 (ulp_exp y)" using assms by (intro divide_right_mono) simp_all
  then have "rne (x / pow2 (ulp_exp y)) \<le> rne (y / pow2 (ulp_exp y))" by (rule rne_mono)
  with True assms show ?thesis by (simp add: fl_rat_def mult_right_mono)
next
  case False
  have "flog2 x \<le> flog2 y" using assms by (rule flog2_mono)
  with False assms have lt: "flog2 x + 1 \<le> flog2 y" and ux: "ulp_exp x \<le> flog2 y" and uy: "ulp_exp y \<le> flog2 y"
    by (auto simp: ulp_exp_def max_def split: if_splits)
  have "x \<le> pow2 (flog2 y)" using flog2_bounds(2) [of x] assms pow2_mono [OF lt] by linarith
  then have "fl_rat x \<le> pow2 (flog2 y)" using fl_rat_le_grid [of x 1 "flog2 y"] ux by simp
  also have "\<dots> \<le> fl_rat y"
    using fl_rat_ge_grid [of 1 "flog2 y" y] uy flog2_bounds(1) [of y] assms by simp
  finally show ?thesis .
qed

lemma fl_rat_nonneg: "0 \<le> x \<Longrightarrow> 0 \<le> fl_rat x"
  using rne_mono [of 0 "x / pow2 (ulp_exp x)"] rne_of_int [of 0]
  by (simp add: fl_rat_def)

lemma fl_rat_mono:
  assumes "x \<le> y"
  shows "fl_rat x \<le> fl_rat y"
proof -
  consider "0 < x" | "y < 0" | "x \<le> 0" "0 \<le> y" using assms by linarith
  then show ?thesis
  proof cases
    case 2
    then show ?thesis using fl_rat_pos_mono [of "- y" "- x"] assms by simp
  next
    case 3
    then show ?thesis using fl_rat_nonneg [of "- x"] fl_rat_nonneg [of y] by simp
  qed (use assms fl_rat_pos_mono in blast)
qed

lemma fl_rat_bound: "repr c \<Longrightarrow> x \<le> c \<Longrightarrow> fl_rat x \<le> c" "repr c \<Longrightarrow> c \<le> x \<Longrightarrow> c \<le> fl_rat x"
  using fl_rat_mono [of x c] fl_rat_mono [of c x] by (simp_all add: fl_rat_repr)

section \<open>Lemmas: values\<close>

lemma pow2_1024 [simp]: "0 < pow2 1024" "pow2 1023 < pow2 1024"
  using pow2_add [of 1023 1] pow2_pos [of 1023] by (simp_all add: pow2_def [of 1])

lemma repr_pow2: "- 1074 \<le> e \<Longrightarrow> repr (pow2 e)"
  unfolding repr_def by (intro exI [of _ 1] exI [of _ e]) simp

lemma repr_minus: "repr r \<Longrightarrow> repr (- r)"
  unfolding repr_def by (metis abs_minus_cancel mult_minus_left of_int_minus)

lemma fl_0 [simp]: "fl 0 = Fin 0"
  by (simp add: fl_def)

lemma fl_rat_abs_bound:
  assumes "\<bar>x\<bar> \<le> pow2 1023"
  shows "\<bar>fl_rat x\<bar> \<le> pow2 1023"
  using fl_rat_bound(1) [OF repr_pow2, of 1023 x] fl_rat_bound(2) [OF repr_minus [OF repr_pow2], of 1023 x] assms
  by (simp add: abs_le_iff)

lemma fl_cases:
  assumes "\<bar>x\<bar> \<le> pow2 1023"
  shows "fl x = (if fl_rat x = 0 then zero64 (x < 0) else Fin (fl_rat x))"
proof -
  have "\<bar>fl_rat x\<bar> < pow2 1024" using fl_rat_abs_bound [OF assms] pow2_1024(2) by linarith
  then show ?thesis by (auto simp: fl_def Let_def zero64_def abs_less_iff)
qed

lemma fl_exact:
  assumes "repr r" and "r \<noteq> 0" and "\<bar>r\<bar> \<le> pow2 1023"
  shows "fl r = Fin r"
  using assms by (simp add: fl_cases fl_rat_repr)

lemma val_zero64 [simp]: "val (zero64 s) = 0" and finite_zero64 [simp]: "finite64 (zero64 s)"
  and signbit_zero64 [simp]: "signbit (zero64 s) = s"
  by (simp_all add: zero64_def)

lemma val_fl: "\<bar>x\<bar> \<le> pow2 1023 \<Longrightarrow> val (fl x) = fl_rat x"
  and finite_fl: "\<bar>x\<bar> \<le> pow2 1023 \<Longrightarrow> finite64 (fl x)"
  by (simp_all add: fl_cases)

lemma finite64_iff: "finite64 x \<longleftrightarrow> x = NegZero \<or> x = Fin (val x)"
  by (cases x) auto

lemma big_le [simp]: "2 ^ 200 \<le> pow2 1023"
  using pow2_mono [of 200 1023] by (simp add: pow2_def [of 200])

lemma small_ge [simp]: "pow2 (- 1022) \<le> 1 / 2 ^ 100"
  using pow2_mono [of "- 1022" "- 100"] by (simp add: pow2_def [of "- 100"])

section \<open>Lemmas: decimal grids\<close>

lemma Round_near:
  assumes "k \<noteq> 0" and "\<bar>z - of_int k\<bar> < 1/2"
  shows "Round (Fin z) = Fin (of_int k)"
proof (cases "0 < k")
  case True
  then have z: "0 < z" and "\<lfloor>z + 1/2\<rfloor> = k" using assms(2) by linarith+
  with True show ?thesis by (simp add: Let_def)
next
  case False
  with assms have z: "z < 0" and "\<lfloor>- z + 1/2\<rfloor> = - k" by linarith+
  with assms(1) show ?thesis by (simp add: Let_def)
qed

definition dec :: "nat \<Rightarrow> rat" where
  "dec d = 10 ^ d"

lemma dec_pos [simp]: "0 < dec d" "0 \<le> dec d" "dec d \<noteq> 0" "1 \<le> dec d"
  by (simp_all add: dec_def)

lemma dec_mono: "d \<le> e \<Longrightarrow> dec d \<le> dec e"
  unfolding dec_def by (rule power_increasing) simp_all

lemma dec_22: "dec 22 \<le> 2 ^ 80"
  by (simp add: dec_def)

lemma dec_bound: "d \<le> 22 \<Longrightarrow> dec d \<le> 2 ^ 80"
  using dec_mono [of d 22] dec_22 by linarith

lemma dec_big: "d \<le> 22 \<Longrightarrow> dec d \<le> pow2 1023"
  using dec_bound [of d] big_le power_increasing [of 80 200 "2::rat"] by linarith

lemma abs_int_rat: "k \<noteq> 0 \<Longrightarrow> 1 \<le> \<bar>of_int k :: rat\<bar>"
  by (cases "0 < k") (simp_all add: abs_if)

lemma abs_int_rat_le: "\<bar>k\<bar> \<le> n \<Longrightarrow> \<bar>of_int k :: rat\<bar> \<le> of_int n"
  by (simp only: of_int_abs [symmetric] of_int_le_iff)

text \<open>The value \<open>k / 10\<^sup>d\<close> as a float, and back: two roundings move it by less than half a unit.\<close>

lemma grid_value:
  assumes "k \<noteq> 0" and "\<bar>k\<bar> \<le> 2 ^ 50" and "d \<le> 22"
  shows "fl (of_int k / dec d) = Fin (fl_rat (of_int k / dec d))"
    and "fl_rat (of_int k / dec d) \<noteq> 0"
    and "\<bar>fl_rat (of_int k / dec d) * dec d - of_int k\<bar> \<le> \<bar>of_int k\<bar> / 2 ^ 53"
proof -
  let ?x = "of_int k / dec d :: rat"
  have k: "1 \<le> \<bar>of_int k :: rat\<bar>" "\<bar>of_int k :: rat\<bar> \<le> 2 ^ 50"
    using abs_int_rat [OF assms(1)] abs_int_rat_le [OF assms(2)] by simp_all
  have ab: "\<bar>?x\<bar> = \<bar>of_int k\<bar> / dec d" by simp
  have "1 / 2 ^ 100 \<le> (1 / 2 ^ 80 :: rat)" by simp
  also have "1 / 2 ^ 80 \<le> 1 / dec d" using dec_bound [OF assms(3)] by (intro divide_left_mono) simp_all
  also have "\<dots> \<le> \<bar>?x\<bar>" unfolding ab using k(1) by (intro divide_right_mono) simp_all
  finally have lo: "1 / 2 ^ 100 \<le> \<bar>?x\<bar>" .
  have "pow2 (- 1022) \<le> \<bar>?x\<bar>" by (rule order_trans [OF small_ge lo])
  then have err: "\<bar>fl_rat ?x - ?x\<bar> \<le> \<bar>?x\<bar> / 2 ^ 53" by (rule fl_rat_rel_error)
  have "\<bar>?x\<bar> \<le> \<bar>of_int k\<bar> / 1" unfolding ab by (intro divide_left_mono) simp_all
  moreover have "(2::rat) ^ 50 \<le> 2 ^ 200" by simp
  ultimately have hi: "\<bar>?x\<bar> \<le> pow2 1023" using k(2) big_le by linarith
  show nz: "fl_rat ?x \<noteq> 0"
  proof
    assume "fl_rat ?x = 0"
    with err have "\<bar>?x\<bar> \<le> \<bar>?x\<bar> / 2 ^ 53" by simp
    moreover have "0 < \<bar>?x\<bar>" using assms(1) by simp
    ultimately show False by simp
  qed
  show "fl ?x = Fin (fl_rat ?x)" using nz by (simp add: fl_cases [OF hi])
  have "\<bar>fl_rat ?x * dec d - of_int k\<bar> = \<bar>(fl_rat ?x - ?x) * dec d\<bar>"
    by (simp add: left_diff_distrib)
  also have "\<dots> = \<bar>fl_rat ?x - ?x\<bar> * dec d" by (simp add: abs_mult)
  also have "\<dots> \<le> \<bar>?x\<bar> / 2 ^ 53 * dec d" by (intro mult_right_mono err) simp
  also have "\<dots> = \<bar>of_int k\<bar> / 2 ^ 53" by (simp add: ab)
  finally show "\<bar>fl_rat ?x * dec d - of_int k\<bar> \<le> \<bar>of_int k\<bar> / 2 ^ 53" .
qed

declare Round.simps [simp del]

end
