(* ===== verification/Sha256.thy ===== *)
theory Sha256
  imports Go_Text
begin

text \<open>
  \<^verbatim>\<open>crypto/sha256\<close> and \<^verbatim>\<open>encoding/hex\<close> of the standard library, as
  \<^verbatim>\<open>schema.ComputePayloadDigest\<close> uses them: SHA-256 (FIPS 180-4) over 32-bit words with
  wrapping addition, and lower-case hexadecimal text. The lemmas give the shape of a digest, which
  is all the integrity check relies on: 64 characters, all of them ASCII.
\<close>

section \<open>Model\<close>

text \<open>
  The round constants and the initial state are the first 32 fractional bits of the cube roots of
  the first 64 primes and of the square roots of the first 8 primes: \<open>root_up k b n 0\<close> is the
  integer \<open>k\<close>-th root of \<open>n < 2\<^sup>k\<^sup>b\<close>, bit by bit.
\<close>

fun root_up :: "nat \<Rightarrow> nat \<Rightarrow> int \<Rightarrow> int \<Rightarrow> int" where
  "root_up k 0 n r = r"
| "root_up k (Suc b) n r = root_up k b n (if (r + 2 ^ b) ^ k \<le> n then r + 2 ^ b else r)"

definition root_bits :: "nat \<Rightarrow> int \<Rightarrow> u32" where
  "root_bits k p = word_of_int (root_up k 37 (p * 2 ^ (32 * k)) 0)"

definition small_primes :: "int list" where
  "small_primes = filter (\<lambda>n. list_all (\<lambda>d. n mod d \<noteq> 0) [2..n - 1]) [2..311]"

definition sha_K :: "u32 list" where
  "sha_K = map (root_bits 3) small_primes"

definition sha_H0 :: "u32 list" where
  "sha_H0 = map (root_bits 2) (take 8 small_primes)"

definition rotr :: "nat \<Rightarrow> u32 \<Rightarrow> u32" where
  "rotr n x = drop_bit n x OR push_bit (32 - n) x"

definition sig0 :: "u32 \<Rightarrow> u32" where "sig0 x = rotr 7 x XOR rotr 18 x XOR drop_bit 3 x"
definition sig1 :: "u32 \<Rightarrow> u32" where "sig1 x = rotr 17 x XOR rotr 19 x XOR drop_bit 10 x"
definition Sig0 :: "u32 \<Rightarrow> u32" where "Sig0 x = rotr 2 x XOR rotr 13 x XOR rotr 22 x"
definition Sig1 :: "u32 \<Rightarrow> u32" where "Sig1 x = rotr 6 x XOR rotr 11 x XOR rotr 25 x"

definition be32 :: "byte \<Rightarrow> byte \<Rightarrow> byte \<Rightarrow> byte \<Rightarrow> u32" where
  "be32 a b c d = push_bit 24 (ucast a) OR push_bit 16 (ucast b) OR push_bit 8 (ucast c) OR ucast d"

definition be_bytes :: "u32 \<Rightarrow> bytes" where
  "be_bytes w = [ucast (drop_bit 24 w), ucast (drop_bit 16 w), ucast (drop_bit 8 w), ucast w]"

fun words_of :: "bytes \<Rightarrow> u32 list" where
  "words_of (a # b # c # d # r) = be32 a b c d # words_of r"
| "words_of _ = []"

text \<open>The message schedule, newest word first.\<close>

fun extend :: "nat \<Rightarrow> u32 list \<Rightarrow> u32 list" where
  "extend 0 ws = ws"
| "extend (Suc n) ws =
     extend n ((sig1 (ws ! 1) + ws ! 6 + sig0 (ws ! 14) + ws ! 15) # ws)"

type_synonym sha_state = "u32 \<times> u32 \<times> u32 \<times> u32 \<times> u32 \<times> u32 \<times> u32 \<times> u32"

fun sha_round :: "sha_state \<Rightarrow> u32 \<times> u32 \<Rightarrow> sha_state" where
  "sha_round (a, b, c, d, e, f, g, h) (k, w) =
     (let t1 = h + Sig1 e + ((e AND f) XOR (NOT e AND g)) + k + w;
          t2 = Sig0 a + ((a AND b) XOR (a AND c) XOR (b AND c))
      in (t1 + t2, a, b, c, d + t1, e, f, g))"

fun add_state :: "sha_state \<Rightarrow> sha_state \<Rightarrow> sha_state" where
  "add_state (a, b, c, d, e, f, g, h) (a', b', c', d', e', f', g', h') =
     (a + a', b + b', c + c', d + d', e + e', f + f', g + g', h + h')"

definition sha_block :: "sha_state \<Rightarrow> bytes \<Rightarrow> sha_state" where
  "sha_block s blk =
     (let ws = rev (extend 48 (rev (words_of blk)))
      in add_state s (foldl sha_round s (zip sha_K ws)))"

fun sha_blocks :: "nat \<Rightarrow> sha_state \<Rightarrow> bytes \<Rightarrow> sha_state" where
  "sha_blocks 0 s m = s"
| "sha_blocks (Suc n) s m = sha_blocks n (sha_block s (take 64 m)) (drop 64 m)"

definition sha_pad :: "bytes \<Rightarrow> bytes" where
  "sha_pad m =
     (let n = length m; z = (119 - n mod 64) mod 64; l = word_of_int (int (8 * n)) :: u64
      in m @ [0x80] @ replicate z 0 @
         map (\<lambda>i. ucast (drop_bit (8 * i) l)) [7, 6, 5, 4, 3, 2, 1, 0])"

definition sha256 :: "bytes \<Rightarrow> bytes" where
  "sha256 m =
     (let p = sha_pad m;
          (a, b, c, d, e, f, g, h) =
            sha_blocks (length p div 64)
              (sha_H0 ! 0, sha_H0 ! 1, sha_H0 ! 2, sha_H0 ! 3, sha_H0 ! 4, sha_H0 ! 5, sha_H0 ! 6, sha_H0 ! 7) p
      in concat (map be_bytes [a, b, c, d, e, f, g, h]))"

text \<open>\<^verbatim>\<open>[]byte(s)\<close> and \<^verbatim>\<open>string(b)\<close>; \<^verbatim>\<open>hex.EncodeToString\<close>.\<close>

definition bytes_of :: "string \<Rightarrow> bytes" where
  "bytes_of s = map (\<lambda>c. word_of_int (of_char c)) s"

definition string_of :: "bytes \<Rightarrow> string" where
  "string_of b = map (\<lambda>w. char_of (uint w)) b"

definition EncodeToString :: "bytes \<Rightarrow> string" where
  "EncodeToString b = concat (map (\<lambda>w. [digit (uint w div 16), digit (uint w mod 16)]) b)"

section \<open>Shape of a digest\<close>

lemma length_sha256 [simp]: "length (sha256 m) = 32"
  by (simp add: sha256_def be_bytes_def Let_def split: prod.split)

lemma length_EncodeToString [simp]: "length (EncodeToString b) = 2 * length b"
  by (induction b) (simp_all add: EncodeToString_def)

lemma is_ascii_append [simp]: "is_ascii (s @ t) \<longleftrightarrow> is_ascii s \<and> is_ascii t"
  by (simp add: is_ascii_def)

lemma digit_ascii: "0 \<le> d \<Longrightarrow> d < 16 \<Longrightarrow> of_char (digit d) < (128 :: nat)"
proof -
  assume d: "0 \<le> d" "d < 16"
  define e where "e = (if d < 10 then 48 + d else 87 + d)"
  have e: "0 \<le> e" "e < 128" using d by (auto simp: e_def)
  have "digit d = char_of (nat e)" using e(1) by (simp add: digit_def e_def char_of_def bit_nat_iff)
  then show ?thesis using e by simp
qed

lemma EncodeToString_ascii [simp]: "is_ascii (EncodeToString b)"
proof (induction b)
  case (Cons w b)
  have "0 \<le> uint w div 16" "uint w div 16 < 16" "0 \<le> uint w mod 16" "uint w mod 16 < 16"
    using uint_lt2p [of w] unsigned_greater_eq [of w] by (auto simp: pos_imp_zdiv_nonneg_iff)
  then have "is_ascii [digit (uint w div 16), digit (uint w mod 16)]"
    by (simp add: is_ascii_def digit_ascii)
  with Cons show ?case by (simp add: EncodeToString_def is_ascii_def)
qed (simp add: EncodeToString_def is_ascii_def)

end
