(* ===== verification/Json.thy ===== *)
theory Json
  imports Float64 Sha256 "HOL-Library.List_Lexorder" "HOL-Library.Char_ord"
begin

text \<open>
  The encoder of \<^verbatim>\<open>encoding/json\<close> on the values the program marshals: strings (with
  Go's escapes, HTML-safe, invalid UTF-8 replaced), integers, booleans, floats in their shortest
  decimal form, slices, maps (keys sorted) and structs (fields in order, \<^verbatim>\<open>omitempty\<close>
  dropped by the caller). Encoding fails exactly on a float that is not finite.
\<close>

section \<open>Strings\<close>

text \<open>Length of the UTF-8 encoded rune a byte sequence starts with; 0 for an invalid one.\<close>

definition in_range :: "nat \<Rightarrow> nat \<Rightarrow> nat \<Rightarrow> bool" where
  "in_range lo hi n \<longleftrightarrow> lo \<le> n \<and> n \<le> hi"

definition cont :: "nat list \<Rightarrow> bool" where
  "cont ns = list_all (in_range 128 191) ns"

fun rune_len :: "nat list \<Rightarrow> nat" where
  "rune_len [] = 0"
| "rune_len (a # r) =
     (if a < 128 then 1
      else if in_range 194 223 a then (if length r \<ge> 1 \<and> cont (take 1 r) then 2 else 0)
      else if in_range 224 239 a
      then (if length r \<ge> 2 \<and> cont (take 2 r) \<and>
                (a = 224 \<longrightarrow> 160 \<le> r ! 0) \<and> (a = 237 \<longrightarrow> r ! 0 \<le> 159) then 3 else 0)
      else if in_range 240 244 a
      then (if length r \<ge> 3 \<and> cont (take 3 r) \<and>
                (a = 240 \<longrightarrow> 144 \<le> r ! 0) \<and> (a = 244 \<longrightarrow> r ! 0 \<le> 143) then 4 else 0)
      else 0)"

definition esc_ascii :: "char \<Rightarrow> string" where
  "esc_ascii c =
     (let n = (of_char c :: int)
      in if n = 34 \<or> n = 92 then [CHR 0x5C, c]
         else if n = 8 then [CHR 0x5C, CHR ''b'']
         else if n = 12 then [CHR 0x5C, CHR ''f'']
         else if n = 10 then [CHR 0x5C, CHR ''n'']
         else if n = 13 then [CHR 0x5C, CHR ''r'']
         else if n = 9 then [CHR 0x5C, CHR ''t'']
         else if n < 32 \<or> n = 60 \<or> n = 62 \<or> n = 38
         then CHR 0x5C # ''u00'' @ [digit (n div 16), digit (n mod 16)]
         else [c])"

text \<open>The escaped text of the next rune and how many bytes it takes.\<close>

definition esc_rune :: "char \<Rightarrow> string \<Rightarrow> string \<times> nat" where
  "esc_rune c cs =
     (let ns = map of_char (c # cs); n = rune_len ns
      in if hd ns < 128 then (esc_ascii c, 1)
         else if n = 0 then (CHR 0x5C # ''ufffd'', 1)
         else if take 3 ns = [226, 128, 168] then (CHR 0x5C # ''u2028'', n)
         else if take 3 ns = [226, 128, 169] then (CHR 0x5C # ''u2029'', n)
         else (take n (c # cs), n))"

function esc :: "string \<Rightarrow> string" where
  "esc [] = []"
| "esc (c # cs) = fst (esc_rune c cs) @ esc (drop (snd (esc_rune c cs) - 1) cs)"
  by pat_completeness auto
termination
  by (relation "measure length") auto

definition enc_str :: "string \<Rightarrow> string" where
  "enc_str s = [CHR 0x22] @ esc s @ [CHR 0x22]"

section \<open>Numbers\<close>

definition flog10 :: "rat \<Rightarrow> int" where
  "flog10 x = (if 1 \<le> x then int (length (dec_digits \<lfloor>x\<rfloor>)) - 1
               else - int (length (dec_digits (\<lceil>1 / x\<rceil> - 1))))"

definition pow10 :: "int \<Rightarrow> rat" where
  "pow10 e = (if 0 \<le> e then 10 ^ nat e else 1 / 10 ^ nat (- e))"

fun strip_zeros :: "int \<Rightarrow> int \<Rightarrow> int \<times> int" where
  "strip_zeros m e = (if 0 < m \<and> m mod 10 = 0 then strip_zeros (m div 10) (e + 1) else (m, e))"

declare strip_zeros.simps [simp del]

text \<open>
  \<^verbatim>\<open>strconv.FormatFloat(x, _, -1, 64)\<close>: the shortest decimal \<open>m * 10\<^sup>e\<close> that reads back as
  \<open>x > 0\<close>, the nearer one when the two neighbours with that many digits both do.
\<close>

definition reads_back :: "rat \<Rightarrow> int \<Rightarrow> int \<Rightarrow> bool" where
  "reads_back x m e = (fl (of_int m * pow10 e) = Fin x)"

definition candidate :: "rat \<Rightarrow> nat \<Rightarrow> (int \<times> int) option" where
  "candidate x n =
     (let e = flog10 x - int n + 1; y = x / pow10 e; m = rne y;
          m' = (if of_int m \<le> y then m + 1 else m - 1)
      in if reads_back x m e then Some (strip_zeros m e)
         else if reads_back x m' e then Some (strip_zeros m' e) else None)"

fun search :: "rat \<Rightarrow> nat list \<Rightarrow> int \<times> int" where
  "search x [] = (let e = flog10 x - 16 in (rne (x / pow10 e), e))"
| "search x (n # ns) = (case candidate x n of Some p \<Rightarrow> p | None \<Rightarrow> search x ns)"

definition shortest :: "rat \<Rightarrow> int \<times> int" where
  "shortest x = search x [1..<18]"

definition fmt_plain :: "int \<Rightarrow> int \<Rightarrow> string" where
  "fmt_plain m e =
     (let ds = dec_digits m; dp = int (length ds) + e
      in if 0 \<le> e then ds @ replicate (nat e) CHR ''0''
         else if 0 < dp then take (nat dp) ds @ ''.'' @ drop (nat dp) ds
         else ''0.'' @ replicate (nat (- dp)) CHR ''0'' @ ds)"

definition fmt_exp :: "int \<Rightarrow> int \<Rightarrow> string" where
  "fmt_exp m e =
     (let ds = dec_digits m; x = int (length ds) + e - 1
      in hd ds # (if tl ds = [] then '''' else ''.'' @ tl ds) @
         (if x < 0 then ''e-'' @ dec_digits (- x) else ''e+'' @ dec_digits x))"

definition enc_float :: "f64 \<Rightarrow> string go" where
  "enc_float x =
     (case x of
        NaN \<Rightarrow> fail ''json: unsupported value: NaN''
      | PInf \<Rightarrow> fail ''json: unsupported value: +Inf''
      | NInf \<Rightarrow> fail ''json: unsupported value: -Inf''
      | NegZero \<Rightarrow> ok ''-0''
      | Fin r \<Rightarrow>
          if r = 0 then ok ''0''
          else let (m, e) = shortest \<bar>r\<bar>;
                   abs_out = Fin \<bar>r\<bar> < lit (1 / 10 ^ 6) \<or> lit (10 ^ 21) \<le> Fin \<bar>r\<bar>
               in ok ((if r < 0 then ''-'' else '''') @ (if abs_out then fmt_exp m e else fmt_plain m e)))"

definition enc_bool :: "bool \<Rightarrow> string" where
  "enc_bool b = (if b then ''true'' else ''false'')"

section \<open>Composite values\<close>

text \<open>What an \<^verbatim>\<open>any\<close> of a decoded or built JSON object holds.\<close>

datatype json =
    JNull
  | JBool bool
  | JNum f64
  | JInt int
  | JStr string
  | JRaw string
  | JArr "json list"
  | JObj "(string \<times> json) list"
  | JMap "(string \<times> json) list"

fun comma :: "string list \<Rightarrow> string" where
  "comma [] = ''''"
| "comma [s] = s"
| "comma (s # ss) = s @ '','' @ comma ss"

text \<open>A Go map of type \<^verbatim>\<open>map[string]any\<close>: its entries in key order.\<close>

definition by_key :: "(string \<times> 'a) list \<Rightarrow> (string \<times> 'a) list" where
  "by_key m = sort_key fst m"

text \<open>
  \<open>JObj\<close> is a struct: its fields are written in order. \<open>JMap\<close> is a map: its entries are
  written in the order of their keys. Encoding stops at the first part that fails.
\<close>

fun seq_go :: "(string \<times> string go) list \<Rightarrow> string list go" where
  "seq_go [] = ok []"
| "seq_go ((k, r) # ms) =
     try_go r id (\<lambda>s. try_go (seq_go ms) id (\<lambda>ss. ok ((enc_str k @ '':'' @ s) # ss)))"

fun enc :: "json \<Rightarrow> string go" and enc_list :: "json list \<Rightarrow> string list go"
  and enc_members :: "(string \<times> json) list \<Rightarrow> (string \<times> string go) list" where
  "enc JNull = ok ''null''"
| "enc (JBool b) = ok (enc_bool b)"
| "enc (JNum x) = enc_float x"
| "enc (JInt i) = ok (fmt_d i)"
| "enc (JStr s) = ok (enc_str s)"
| "enc (JRaw s) = ok s"
| "enc (JArr xs) = try_go (enc_list xs) id (\<lambda>ss. ok (''['' @ comma ss @ '']''))"
| "enc (JObj ms) = try_go (seq_go (enc_members ms)) id (\<lambda>ss. ok (''{'' @ comma ss @ ''}''))"
| "enc (JMap ms) = try_go (seq_go (by_key (enc_members ms))) id (\<lambda>ss. ok (''{'' @ comma ss @ ''}''))"
| "enc_list [] = ok []"
| "enc_list (x # xs) = try_go (enc x) id (\<lambda>s. try_go (enc_list xs) id (\<lambda>ss. ok (s # ss)))"
| "enc_members [] = []"
| "enc_members ((k, x) # ms) = (k, enc x) # enc_members ms"

definition Marshal :: "json \<Rightarrow> string go" where
  "Marshal j = enc j"

section \<open>Encoding fails exactly on floats that are not finite\<close>

fun finite_json :: "json \<Rightarrow> bool" where
  "finite_json (JNum x) = finite64 x"
| "finite_json (JArr xs) = list_all finite_json xs"
| "finite_json (JObj ms) = list_all (\<lambda>m. finite_json (snd m)) ms"
| "finite_json (JMap ms) = list_all (\<lambda>m. finite_json (snd m)) ms"
| "finite_json _ = True"

lemma enc_float_finite: "if finite64 x then \<exists>s. enc_float x = ok s else \<exists>e. enc_float x = fail e"
  by (cases x) (simp_all add: enc_float_def split: prod.split)

lemma try_go_ok_iff: "(\<exists>v. try_go m w k = ok v) \<longleftrightarrow> (\<exists>u. m = ok u \<and> (\<exists>v. k u = ok v))"
  by (cases m rule: go_cases) auto

lemma try_go_total: "m \<noteq> None \<Longrightarrow> (\<And>v. m = ok v \<Longrightarrow> k v \<noteq> None) \<Longrightarrow> try_go m w k \<noteq> None"
  by (cases m rule: go_cases) auto

lemma seq_go_ok_iff: "(\<exists>ss. seq_go ms = ok ss) \<longleftrightarrow> (\<forall>m \<in> set ms. \<exists>s. snd m = ok s)"
  by (induction ms rule: seq_go.induct) (auto simp: try_go_ok_iff)

lemma seq_go_total: "(\<forall>m \<in> set ms. snd m \<noteq> None) \<Longrightarrow> seq_go ms \<noteq> None"
  by (induction ms rule: seq_go.induct) (simp_all add: try_go_total del: not_None_eq)

lemma set_by_key [simp]: "set (by_key m) = set m"
  by (simp add: by_key_def)

lemma enc_ok_iff:
  "(\<exists>s. enc j = ok s) \<longleftrightarrow> finite_json j"
  "(\<exists>ss. enc_list xs = ok ss) \<longleftrightarrow> list_all finite_json xs"
  "(\<forall>m \<in> set (enc_members ms). \<exists>s. snd m = ok s) \<longleftrightarrow> list_all (\<lambda>m. finite_json (snd m)) ms"
proof (induction j and xs and ms rule: enc_enc_list_enc_members.induct)
  case (3 x)
  then show ?case using enc_float_finite [of x] by (auto split: if_splits)
qed (auto simp: try_go_ok_iff seq_go_ok_iff)

lemma enc_total: "enc j \<noteq> None" "enc_list xs \<noteq> None" "\<forall>m \<in> set (enc_members ms). snd m \<noteq> None"
proof (induction j and xs and ms rule: enc_enc_list_enc_members.induct)
  case (3 x)
  then show ?case using enc_float_finite [of x] by (metis enc.simps(3) ok_fail_distinct(3,4))
qed (simp_all add: try_go_total seq_go_total del: not_None_eq)

lemma Marshal_ok_iff: "(\<exists>s. Marshal j = ok s) \<longleftrightarrow> finite_json j"
  by (simp add: Marshal_def enc_ok_iff)

lemma Marshal_total: "Marshal j \<noteq> None"
  by (simp add: Marshal_def enc_total)

lemma Marshal_cases:
  obtains (ok) s where "Marshal j = ok s" "finite_json j" | (error) e where "Marshal j = fail e" "\<not> finite_json j"
proof (cases "Marshal j" rule: go_cases)
  case (error e)
  then show ?thesis using Marshal_ok_iff [of j] that by auto
next
  case (result v)
  then show ?thesis using Marshal_ok_iff [of j] that by auto
qed (simp add: Marshal_total)

end
