(* ===== verification/Decimal.thy ===== *)
theory Decimal
  imports Float64
begin

text \<open>
  Decimal rounding of floats, the way the source spells it: multiply by a power of ten, round to an
  integer, divide again. The lemmas show that both powers (\<^verbatim>\<open>math.Pow10\<close> and
  \<^verbatim>\<open>math.Pow\<close>) are exact up to \<open>10\<^sup>2\<^sup>2\<close>, that rounding lands on the decimal grid and
  keeps integral bounds, and that a value of the grid is a fixed point of rounding to that grid and
  to every finer one. The digest check of the telemetry rests on these facts.
\<close>

section \<open>Decimal grids\<close>

lemma Fin_mult: "a * b \<noteq> 0 \<Longrightarrow> Fin a * Fin b = fl (a * b)"
  by (simp add: times_f64_def mul64_def)

lemma Fin_div: "a \<noteq> 0 \<Longrightarrow> b \<noteq> 0 \<Longrightarrow> Fin a / Fin b = fl (a / b)"
  by (simp add: divide_f64_def div64_def)

lemma zero64_mult [simp]: "0 < b \<Longrightarrow> zero64 s * Fin b = zero64 s"
  by (auto simp: times_f64_def mul64_def zero64_def)

lemma zero64_div [simp]: "0 < b \<Longrightarrow> zero64 s / Fin b = zero64 s"
  by (auto simp: divide_f64_def div64_def zero64_def)

lemma Round_zero64 [simp]: "Round (zero64 s) = zero64 s"
proof -
  have "\<lfloor>1 / 2 :: rat\<rfloor> = 0" by (simp add: floor_eq_iff)
  then show ?thesis by (simp add: zero64_def Round.simps)
qed

lemma round_with_zero64 [simp]: "0 < b \<Longrightarrow> round_with (Fin b) (zero64 s) = zero64 s"
  by (simp add: round_with_def)

text \<open>The floats of a decimal grid: the roundings of \<open>k / 10\<^sup>d\<close>, with magnitude at most \<open>C\<close>.\<close>

definition on_grid :: "nat \<Rightarrow> int \<Rightarrow> f64 \<Rightarrow> bool" where
  "on_grid d C v \<longleftrightarrow>
     (\<exists>s. v = zero64 s) \<or> (\<exists>k. k \<noteq> 0 \<and> \<bar>k\<bar> \<le> C * 10 ^ d \<and> v = fl (of_int k / dec d))"

lemma on_grid_cases:
  assumes "on_grid d C v"
  obtains (zero) s where "v = zero64 s"
  | (grid) k where "k \<noteq> 0" "\<bar>k\<bar> \<le> C * 10 ^ d" "v = fl (of_int k / dec d)"
  using assms unfolding on_grid_def by blast

lemma grid_fixed:
  assumes "k \<noteq> 0" and "\<bar>k\<bar> \<le> 2 ^ 50" and "d \<le> 22"
  shows "round_with (Fin (dec d)) (fl (of_int k / dec d)) = fl (of_int k / dec d)"
proof -
  let ?y = "fl_rat (of_int k / dec d)"
  note g = grid_value [OF assms]
  have k: "\<bar>of_int k :: rat\<bar> \<le> 2 ^ 50" "1 \<le> \<bar>of_int k :: rat\<bar>"
    using abs_int_rat_le [OF assms(2)] abs_int_rat [OF assms(1)] by simp_all
  have e1: "\<bar>of_int k\<bar> / 2 ^ 53 \<le> (1 / 8 :: rat)" using k(1) by simp
  then have ab: "\<bar>?y * dec d\<bar> \<le> 2 ^ 50 + 1" "7 / 8 \<le> \<bar>?y * dec d\<bar>"
    using g(3) k by linarith+
  have "pow2 (- 1022) \<le> 1 / 2 ^ 100" by (rule small_ge)
  also have "\<dots> \<le> (7 / 8 :: rat)" by simp
  finally have "\<bar>fl_rat (?y * dec d) - ?y * dec d\<bar> \<le> \<bar>?y * dec d\<bar> / 2 ^ 53"
    using ab(2) by (intro fl_rat_rel_error) linarith
  also have "\<dots> \<le> (2 ^ 50 + 1) / 2 ^ 53" using ab(1) by (rule divide_right_mono) simp
  also have "\<dots> \<le> 1 / 4" by simp
  finally have e2: "\<bar>fl_rat (?y * dec d) - ?y * dec d\<bar> \<le> 1 / 4" .
  have near: "\<bar>fl_rat (?y * dec d) - of_int k\<bar> < 1/2" using e1 e2 g(3) by linarith
  then have nz: "fl_rat (?y * dec d) \<noteq> 0" using k(2) by auto
  have "(2::rat) ^ 50 + 1 \<le> 2 ^ 200" by simp
  then have "\<bar>?y * dec d\<bar> \<le> pow2 1023" using ab(1) big_le by linarith
  then have "fl (?y * dec d) = Fin (fl_rat (?y * dec d))" using nz by (simp add: fl_cases)
  then have "Round (Fin ?y * Fin (dec d)) = Fin (of_int k)"
    using Round_near [OF assms(1) near] g(2) by (simp add: Fin_mult)
  then show ?thesis unfolding round_with_def g(1) using assms(1) g(1) by (simp add: Fin_div)
qed

lemma on_grid_fixed:
  assumes "on_grid d C v" and "C * 10 ^ d \<le> 2 ^ 50" and "d \<le> 22"
  shows "round_with (Fin (dec d)) v = v"
  using assms(1)
proof (cases rule: on_grid_cases)
  case (grid k)
  with assms(2,3) show ?thesis using grid_fixed [of k d] by simp
qed simp

lemma on_grid_finer:
  assumes "on_grid a C v" and "a \<le> b"
  shows "on_grid b C v"
  using assms(1)
proof (cases rule: on_grid_cases)
  case (grid k)
  define j where "j = b - a"
  have b: "b = a + j" using assms(2) by (simp add: j_def)
  have "of_int k / dec a = of_int (k * 10 ^ j) / dec b" by (simp add: b dec_def power_add)
  moreover have "\<bar>k * 10 ^ j\<bar> \<le> C * 10 ^ b"
    using mult_right_mono [OF grid(2), of "10 ^ j"] by (simp add: b power_add abs_mult mult.assoc)
  ultimately show ?thesis using grid unfolding on_grid_def by (metis mult_eq_0_iff power_not_zero zero_neq_numeral)
qed (auto simp: on_grid_def)

text \<open>Rounding to a grid lands on it and does not leave an integral range.\<close>

lemma Round_Fin_cases:
  obtains (zero) "Round (Fin r) = zero64 (r < 0)" "\<bar>r\<bar> < 1/2"
  | (int) k where "k \<noteq> 0" "Round (Fin r) = Fin (of_int k)" "\<bar>k\<bar> = \<lfloor>\<bar>r\<bar> + 1/2\<rfloor>" "0 < k \<longleftrightarrow> 0 < r"
proof (cases "\<lfloor>\<bar>r\<bar> + 1/2\<rfloor> = 0")
  case True
  then have "\<bar>r\<bar> < 1/2" by linarith
  with True show ?thesis by (intro zero) (simp_all add: Let_def Round.simps)
next
  case False
  define n where "n = \<lfloor>\<bar>r\<bar> + 1/2\<rfloor>"
  have "0 < n" using False unfolding n_def by linarith
  then have "r \<noteq> 0" by (auto simp: n_def)
  with False \<open>0 < n\<close> show ?thesis
    by (intro int [of "if r < 0 then - n else n"]) (auto simp: Let_def Round.simps n_def [symmetric])
qed

lemma repr_int_bound:
  assumes "\<bar>x\<bar> \<le> of_int B" and "B < 2 ^ 53"
  shows "\<bar>fl_rat x\<bar> \<le> of_int B"
proof -
  have "0 \<le> B" using assms(1) by (metis abs_ge_zero of_int_0_le_iff order_trans)
  with assms(2) have "repr (of_int B)" by (intro repr_of_int) simp
  with assms(1) show ?thesis
    using fl_rat_bound(1) [of "of_int B" x] fl_rat_bound(2) [OF repr_minus, of "of_int B" x]
    by (simp add: abs_le_iff)
qed

lemma int_bound_pow2: "B < 2 ^ 53 \<Longrightarrow> of_int B \<le> pow2 1023"
proof -
  assume "B < 2 ^ 53"
  then have "of_int B \<le> (of_int (2 ^ 53) :: rat)" by (simp only: of_int_le_iff)
  also have "\<dots> \<le> 2 ^ 200" by simp
  finally show ?thesis using big_le by linarith
qed

lemma round_with_grid:
  assumes "finite64 v" and "\<bar>val v\<bar> \<le> of_int C" and "C * 10 ^ d < 2 ^ 53"
  shows "on_grid d C (round_with (Fin (dec d)) v)"
proof (cases "val v = 0")
  case True
  with assms(1) have "v = zero64 (signbit v)" by (cases v) (simp_all add: zero64_def)
  then show ?thesis by (metis dec_pos(1) on_grid_def round_with_zero64)
next
  case False
  then have v: "v = Fin (val v)" using assms(1) by (cases v) simp_all
  define x where "x = val v * dec d"
  have x0: "x \<noteq> 0" using False by (simp add: x_def)
  have "\<bar>x\<bar> = \<bar>val v\<bar> * dec d" by (simp add: x_def abs_mult)
  also have "\<dots> \<le> of_int C * dec d" by (intro mult_right_mono assms(2)) simp
  also have "\<dots> = of_int (C * 10 ^ d)" by (simp add: dec_def)
  finally have xb: "\<bar>x\<bar> \<le> of_int (C * 10 ^ d)" .
  have fb: "\<bar>fl_rat x\<bar> \<le> of_int (C * 10 ^ d)" by (rule repr_int_bound [OF xb assms(3)])
  have big: "\<bar>x\<bar> \<le> pow2 1023" using xb int_bound_pow2 [OF assms(3)] by linarith
  have m: "v * Fin (dec d) = fl x" using x0 by (subst v) (simp add: Fin_mult x_def)
  show ?thesis
  proof (cases "fl_rat x = 0")
    case True
    then show ?thesis by (simp add: round_with_def m fl_cases [OF big] on_grid_def) blast
  next
    case False
    then have r: "round_with (Fin (dec d)) v = Round (Fin (fl_rat x)) / Fin (dec d)"
      by (simp add: round_with_def m fl_cases [OF big])
    show ?thesis
    proof (cases rule: Round_Fin_cases [of "fl_rat x"])
      case zero
      then show ?thesis unfolding r by (simp add: on_grid_def) blast
    next
      case (int k)
      have "\<bar>k\<bar> \<le> C * 10 ^ d" using fb unfolding int(3) by (simp add: floor_le_iff)
      with int show ?thesis unfolding r on_grid_def by (auto simp: Fin_div)
    qed
  qed
qed

lemma on_grid_range:
  assumes "on_grid d C v" and "C * 10 ^ d \<le> 2 ^ 50" and "d \<le> 22" and "0 \<le> C"
  shows "finite64 v" and "\<bar>val v\<bar> \<le> of_int C"
proof -
  have "finite64 v \<and> \<bar>val v\<bar> \<le> of_int C"
    using assms(1)
  proof (cases rule: on_grid_cases)
    case (grid k)
    then have kb: "\<bar>k\<bar> \<le> 2 ^ 50" using assms(2) by linarith
    have v: "v = Fin (fl_rat (of_int k / dec d))" using grid grid_value(1) [OF grid(1) kb assms(3)] by simp
    have "\<bar>of_int k\<bar> \<le> of_int C * dec d" using abs_int_rat_le [OF grid(2)] by (simp add: dec_def)
    then have "\<bar>of_int k / dec d\<bar> \<le> of_int C" by (simp add: pos_divide_le_eq)
    moreover have "C \<le> C * 10 ^ d" using assms(4) by (simp add: mult_le_cancel_left1)
    ultimately have "\<bar>fl_rat (of_int k / dec d)\<bar> \<le> of_int C"
      using assms(2) by (intro repr_int_bound) simp_all
    with v show ?thesis by simp
  qed (simp add: assms(4))
  then show "finite64 v" and "\<bar>val v\<bar> \<le> of_int C" by auto
qed

text \<open>Rounding never crosses zero.\<close>

lemma fl_rat_nonpos: "x \<le> 0 \<Longrightarrow> fl_rat x \<le> 0"
  using fl_rat_nonneg [of "- x"] by simp

lemma val_Round: "of_int m \<le> r \<Longrightarrow> of_int m \<le> val (Round (Fin r))"
  "r \<le> of_int m \<Longrightarrow> val (Round (Fin r)) \<le> of_int m"
proof -
  define n where "n = \<lfloor>\<bar>r\<bar> + 1/2\<rfloor>"
  have v: "val (Round (Fin r)) = (if r < 0 then - of_int n else of_int n)"
    by (simp add: Round.simps Let_def n_def [symmetric])
  have a: "n \<le> m" if "\<bar>r\<bar> \<le> of_int m" for m using that unfolding n_def by linarith
  have b: "m \<le> n" if "of_int m \<le> \<bar>r\<bar>" for m using that unfolding n_def by linarith
  have "0 \<le> n" unfolding n_def by linarith
  show "of_int m \<le> val (Round (Fin r))" if "of_int m \<le> r"
  proof (cases "r < 0")
    case True
    then have "n \<le> - m" using that by (intro a) simp
    then have "m \<le> - n" by simp
    then show ?thesis using True by (simp add: v flip: of_int_minus)
  next
    case False
    then show ?thesis using that b [of m] by (simp add: v)
  qed
  show "val (Round (Fin r)) \<le> of_int m" if "r \<le> of_int m"
  proof (cases "r < 0")
    case True
    then have "- m \<le> n" using that by (intro b) simp
    then have "- n \<le> m" by simp
    then show ?thesis using True by (simp add: v flip: of_int_minus)
  next
    case False
    then show ?thesis using that a [of m] by (simp add: v)
  qed
qed

text \<open>Decimal rounding keeps an integral bound on either side.\<close>

text \<open>The value of a rounding, when the scaled value is of moderate size.\<close>

lemma round_with_val:
  assumes "finite64 v" and "\<bar>val v * dec d\<bar> \<le> of_int K" and "K \<le> 2 ^ 50" and "d \<le> 22"
  shows "val (round_with (Fin (dec d)) v) = fl_rat (val (Round (Fin (fl_rat (val v * dec d)))) / dec d)"
proof (cases "val v = 0")
  case True
  then have "v = zero64 (signbit v)" using assms(1) by (cases v) (simp_all add: zero64_def)
  then have "round_with (Fin (dec d)) v = zero64 (signbit v)" by (metis dec_pos(1) round_with_zero64)
  with True Round_zero64 [of False] show ?thesis by (simp add: zero64_def)
next
  case False
  define x where "x = val v * dec d"
  define z where "z = fl_rat x"
  have big: "\<bar>x\<bar> \<le> pow2 1023" unfolding x_def using assms(3) by (intro order_trans [OF assms(2)] int_bound_pow2) simp
  have v: "v = Fin (val v)" using False assms(1) by (cases v) simp_all
  have m: "v * Fin (dec d) = fl x" using False by (subst v) (simp add: Fin_mult x_def)
  have rw: "round_with (Fin (dec d)) v = Round (if z = 0 then zero64 (x < 0) else Fin z) / Fin (dec d)"
    by (simp add: round_with_def m fl_cases [OF big] z_def)
  have "val (round_with (Fin (dec d)) v) = fl_rat (val (Round (Fin z)) / dec d)"
  proof (cases rule: Round_Fin_cases [of z])
    case zero
    then show ?thesis by (simp add: rw)
  next
    case (int k)
    then have z0: "z \<noteq> 0" by (metis Round_zero64 f64.inject(1) of_int_eq_0_iff zero64_def)
    have "\<bar>z\<bar> \<le> of_int K" unfolding z_def x_def using assms(2,3) by (intro repr_int_bound) simp_all
    then have "\<bar>k\<bar> \<le> K" unfolding int(3) by (simp add: floor_le_iff)
    then have "\<bar>k\<bar> \<le> 2 ^ 50" using assms(3) by linarith
    with int z0 show ?thesis using grid_value(1) [OF int(1) _ assms(4)] by (simp add: rw Fin_div)
  qed
  then show ?thesis by (simp add: z_def x_def)
qed

lemma round_with_bounds:
  assumes "finite64 v" and "\<bar>val v\<bar> \<le> of_int C" and "C * 10 ^ d \<le> 2 ^ 50" and "\<bar>c\<bar> \<le> C" and "d \<le> 22"
  shows "of_int c \<le> val v \<Longrightarrow> of_int c \<le> val (round_with (Fin (dec d)) v)"
    and "val v \<le> of_int c \<Longrightarrow> val (round_with (Fin (dec d)) v) \<le> of_int c"
proof -
  define x where "x = val v * dec d"
  define z where "z = fl_rat x"
  have "\<bar>x\<bar> = \<bar>val v\<bar> * dec d" by (simp add: x_def abs_mult)
  also have "\<dots> \<le> of_int C * dec d" by (intro mult_right_mono assms(2)) simp
  finally have "\<bar>val v * dec d\<bar> \<le> of_int (C * 10 ^ d)" by (simp add: dec_def x_def)
  from round_with_val [OF assms(1) this assms(3,5)]
  have r: "val (round_with (Fin (dec d)) v) = fl_rat (val (Round (Fin z)) / dec d)" by (simp add: z_def x_def)
  have "\<bar>c * 10 ^ d\<bar> \<le> C * 10 ^ d" using assms(4) by (simp add: abs_mult mult_right_mono)
  then have "\<bar>c * 10 ^ d\<bar> \<le> 2 ^ 50" using assms(3) by (rule order_trans)
  then have cc: "\<bar>c * 10 ^ d\<bar> < 2 ^ 53" by (rule le_less_trans) simp
  have e: "of_int c = of_int (c * 10 ^ d) / dec d" by (simp add: dec_def)
  have "0 \<le> C" using assms(4) by linarith
  then have "C \<le> C * 10 ^ d" by (simp add: mult_le_cancel_left1)
  then have "\<bar>c\<bar> \<le> 2 ^ 50" using assms(3,4) by linarith
  then have "\<bar>c\<bar> < 2 ^ 53" by (rule le_less_trans) simp
  then have rc: "repr (of_int c)" by (rule repr_of_int)
  show "of_int c \<le> val (round_with (Fin (dec d)) v)" if "of_int c \<le> val v"
  proof -
    have "of_int (c * 10 ^ d) \<le> x" using that by (simp add: x_def dec_def)
    then have "of_int (c * 10 ^ d) \<le> z" unfolding z_def by (intro fl_rat_bound(2) repr_of_int cc)
    then have "of_int (c * 10 ^ d) / dec d \<le> val (Round (Fin z)) / dec d"
      by (intro divide_right_mono val_Round) simp_all
    then show ?thesis unfolding r using rc by (intro fl_rat_bound(2)) (simp_all only: e)
  qed
  show "val (round_with (Fin (dec d)) v) \<le> of_int c" if "val v \<le> of_int c"
  proof -
    have "x \<le> of_int (c * 10 ^ d)" using that by (simp add: x_def dec_def)
    then have "z \<le> of_int (c * 10 ^ d)" unfolding z_def by (intro fl_rat_bound(1) repr_of_int cc)
    then have "val (Round (Fin z)) / dec d \<le> of_int (c * 10 ^ d) / dec d"
      by (intro divide_right_mono val_Round) simp_all
    then show ?thesis unfolding r using rc by (intro fl_rat_bound(1)) (simp_all only: e)
  qed
qed

section \<open>Lemmas: powers of ten\<close>

lemma five_pow: "k \<le> 22 \<Longrightarrow> (5::int) ^ k < 2 ^ 53"
  using power_increasing [of k 22 "5::int"] by simp

lemma repr_dec: "k \<le> 22 \<Longrightarrow> - 1000 \<le> e \<Longrightarrow> repr (dec k * pow2 e)"
  unfolding repr_def using five_pow [of k]
  by (intro exI [of _ "5 ^ k"] exI [of _ "int k + e"])
    (simp add: dec_def pow2_add pow2_nat power_mult_distrib [symmetric])

lemma fl_dec: "k \<le> 22 \<Longrightarrow> fl (dec k) = Fin (dec k)"
  using repr_dec [of k 0] dec_big [of k] by (intro fl_exact) (simp_all add: pow2_def)

lemma Pow10_dec: "n \<le> 22 \<Longrightarrow> Pow10 n = Fin (dec n)"
proof -
  assume n: "n \<le> 22"
  then have "n div 32 = 0" "n mod 32 = n" "n \<le> 308" by auto
  moreover have "fl (1::rat) = Fin 1" using fl_dec [of 0] by (simp add: dec_def)
  ultimately have "Pow10 n = Fin 1 * fl (dec n)" by (simp add: Pow10_def dec_def)
  also have "\<dots> = Fin (dec n)" using n by (simp add: fl_dec Fin_mult)
  finally show ?thesis .
qed

lemma dyadic_product:
  assumes "j + k \<le> 22" and "\<bar>a\<bar> \<le> 400" and "\<bar>b\<bar> \<le> 400"
  shows "Fin (dec j * pow2 a) * Fin (dec k * pow2 b) = Fin (dec (j + k) * pow2 (a + b))"
proof -
  have e: "dec j * pow2 a * (dec k * pow2 b) = dec (j + k) * pow2 (a + b)"
    by (simp add: dec_def power_add pow2_add)
  have "dec (j + k) \<le> 2 ^ 80" by (rule dec_bound [OF assms(1)])
  then have "dec (j + k) * pow2 (a + b) \<le> pow2 80 * pow2 900"
    using pow2_mono [of "a + b" 900] assms by (intro mult_mono) (simp_all add: pow2_def [of 80])
  also have "\<dots> = pow2 980" by (simp add: pow2_add [symmetric])
  also have "\<dots> \<le> pow2 1023" by (rule pow2_mono) simp
  finally have "\<bar>dec (j + k) * pow2 (a + b)\<bar> \<le> pow2 1023" by (simp add: abs_mult)
  then have "fl (dec (j + k) * pow2 (a + b)) = Fin (dec (j + k) * pow2 (a + b))"
    using assms by (intro fl_exact repr_dec) simp_all
  then show ?thesis by (simp add: Fin_mult e)
qed


lemma half_exact: "fl (1/2) = Fin (1/2)"
proof -
  have "fl (pow2 (- 1)) = Fin (pow2 (- 1))"
    using pow2_mono [of "- 1" 1023] by (intro fl_exact repr_pow2) simp_all
  then show ?thesis by (simp add: pow2_def)
qed

lemma dyadic_double:
  assumes "k \<le> 22" and "\<bar>a\<bar> \<le> 400"
  shows "Fin (dec k * pow2 a) + Fin (dec k * pow2 a) = Fin (dec k * pow2 (a + 1))"
proof -
  have e: "dec k * pow2 a + dec k * pow2 a = dec k * pow2 (a + 1)"
    by (simp add: pow2_add pow2_def [of 1])
  have "fl (dec k * pow2 (a + 1)) = Fin (dec k * pow2 (a + 1))"
    using dyadic_product [of k 0 "a + 1" 0] dyadic_product [of 0 k 0 "a + 1"] assms
  proof (intro fl_exact repr_dec)
    have "dec k * pow2 (a + 1) \<le> pow2 80 * pow2 900"
      using dec_bound [OF assms(1)] pow2_mono [of "a + 1" 900] assms(2)
      by (intro mult_mono) (simp_all add: pow2_def [of 80])
    also have "\<dots> = pow2 980" by (simp add: pow2_add [symmetric])
    also have "\<dots> \<le> pow2 1023" by (rule pow2_mono) simp
    finally show "\<bar>dec k * pow2 (a + 1)\<bar> \<le> pow2 1023" by (simp add: abs_mult)
  qed simp_all
  then show ?thesis by (simp add: plus_f64_def add64_def e)
qed

text \<open>While exponent bits are left, the base register holds a power of ten exactly.\<close>

text \<open>One pass of the loop: the factor is squared, and doubled again when that falls below a half.\<close>

lemma pow_square:
  fixes k :: nat
  assumes x1: "x1 = Fin (dec k * pow2 (- xe))" and k: "2 * k \<le> 22" and xe: "\<bar>xe\<bar> < 5 * int k"
  defines "y \<equiv> x1 * x1"
  shows "(if y < fl (1/2) then y + y else y) = Fin (dec (2 * k) * pow2 (- (if y < fl (1/2) then 2 * xe - 1 else 2 * xe)))"
proof -
  have "y = Fin (dec (k + k) * pow2 (- xe + - xe))"
    unfolding y_def x1 using k xe by (intro dyadic_product) linarith+
  moreover have "k + k = 2 * k" "- xe + - xe = - (2 * xe)" by simp_all
  ultimately have y: "y = Fin (dec (2 * k) * pow2 (- (2 * xe)))" by (simp only:)
  have "y + y = Fin (dec (2 * k) * pow2 (- (2 * xe) + 1))"
    unfolding y using k xe by (intro dyadic_double) linarith+
  moreover have "- (2 * xe - 1) = - (2 * xe) + 1" by simp
  ultimately show ?thesis using y by (simp only: if_distrib [of "\<lambda>e. Fin (dec (2 * k) * pow2 (- e))"])
qed

lemma pow_halves: "(i :: nat) * k + t = i div 2 * (2 * k) + (if odd i then t + k else t)"
proof (cases "odd i")
  case True
  then obtain j where "i = 2 * j + 1" by (rule oddE)
  with True show ?thesis by (simp add: algebra_simps)
next
  case False
  then obtain j where "i = 2 * j" by (metis evenE)
  with False show ?thesis by simp
qed

lemma pow_loop_dec:
  assumes "i * k + t \<le> 22"
    and "i \<noteq> 0 \<Longrightarrow> x1 = Fin (dec k * pow2 (- xe)) \<and> 1 \<le> k \<and> \<bar>xe\<bar> < 5 * int k"
    and "a1 = Fin (dec t * pow2 (- ae))" and "\<bar>ae\<bar> \<le> 5 * int t"
  shows "\<exists>ae'. pow_loop i x1 xe a1 ae = (Fin (dec (i * k + t) * pow2 (- ae')), ae')"
  using assms
proof (induction i x1 xe a1 ae arbitrary: k t rule: pow_loop.induct)
  case (1 i x1 xe a1 ae)
  show ?case
  proof (cases "i = 0")
    case True
    with "1.prems" show ?thesis by (subst pow_loop.simps) simp
  next
    case False
    have x1: "x1 = Fin (dec k * pow2 (- xe))" and k: "1 \<le> k" and xe: "\<bar>xe\<bar> < 5 * int k"
      using "1.prems"(2) False by blast+
    have kb: "k + t \<le> 22" using "1.prems"(1) False by (cases i) auto
    define a1' ae' where "a1' = (if odd i then a1 * x1 else a1)" and "ae' = (if odd i then ae + xe else ae)"
    define t' where "t' = (if odd i then t + k else t)"
    define y where "y = x1 * x1"
    define x1' xe' where "x1' = (if y < fl (1/2) then y + y else y)" and "xe' = (if y < fl (1/2) then 2 * xe - 1 else 2 * xe)"
    have i: "i * k + t = i div 2 * (2 * k) + t'" unfolding t'_def by (rule pow_halves)
    have ne: "\<not> (xe < - 4096 \<or> 4096 < xe)" using xe kb by auto
    have step: "pow_loop i x1 xe a1 ae = pow_loop (i div 2) x1' xe' a1' ae'"
      using False ne by (subst pow_loop.simps) (simp add: Let_def a1'_def ae'_def x1'_def xe'_def y_def)
    have a: "a1' = Fin (dec t' * pow2 (- ae'))"
    proof (cases "odd i")
      case True
      have "a1 * x1 = Fin (dec (t + k) * pow2 (- ae + - xe))"
        unfolding x1 "1.prems"(3) using xe kb "1.prems"(4) by (intro dyadic_product) linarith+
      with True show ?thesis by (simp add: a1'_def t'_def ae'_def)
    qed (simp add: a1'_def t'_def ae'_def "1.prems"(3))
    have x: "x1' = Fin (dec (2 * k) * pow2 (- xe')) \<and> 1 \<le> 2 * k \<and> \<bar>xe'\<bar> < 5 * int (2 * k)" if "i div 2 \<noteq> 0"
    proof -
      have "2 * k \<le> i div 2 * (2 * k)" using that by simp
      then have "2 * k \<le> 22" using "1.prems"(1) i by linarith
      from pow_square [OF x1 this xe] show ?thesis using k xe by (auto simp: x1'_def xe'_def y_def)
    qed
    have "\<exists>ae''. pow_loop (i div 2) x1' xe' a1' ae' = (Fin (dec (i div 2 * (2 * k) + t') * pow2 (- ae'')), ae'')"
    proof (rule "1.IH" [OF False ne])
      show "(a1', ae') = (if odd i then (a1 * x1, ae + xe) else (a1, ae))" by (simp add: a1'_def ae'_def)
      show "(y, 2 * xe) = (x1 * x1, 2 * xe)" by (simp add: y_def)
      show "(x1', xe') = (if y < fl (1/2) then (y + y, 2 * xe - 1) else (y, 2 * xe))" by (simp add: x1'_def xe'_def)
      show "i div 2 * (2 * k) + t' \<le> 22" using "1.prems"(1) i by simp
      show "\<bar>ae'\<bar> \<le> 5 * int t'" using "1.prems"(4) xe by (auto simp: ae'_def t'_def)
    qed (use a x in simp_all)
    then show ?thesis by (simp add: step i)
  qed
qed

lemma Pow_10_dec: "n \<le> 22 \<Longrightarrow> Pow_10 n = Fin (dec n)"
proof -
  assume n: "n \<le> 22"
  have one: "fl 1 = Fin 1" using fl_dec [of 0] by (simp add: dec_def)
  consider "n = 0" | "n = 1" | "Suc 0 < n" by linarith
  then show ?thesis
  proof cases
    case 2
    then show ?thesis using fl_dec [of 1] by (simp add: Pow_10_def dec_def)
  next
    case 3
    have "fl (5/8) = Fin (5/8)"
      using repr_dec [of 1 "- 4"] big_le power_increasing [of 0 200 "2::rat"]
      by (intro fl_exact) (simp_all add: dec_def pow2_def)
    then have x: "fl (5/8) = Fin (dec 1 * pow2 (- 4))" by (simp add: dec_def pow2_def)
    obtain ae where "pow_loop n (fl (5/8)) 4 1 0 = (Fin (dec n * pow2 (- ae)), ae)"
      using pow_loop_dec [of n 1 0 "fl (5/8)" 4 1 0] n x
      by (auto simp: one_f64_def dec_def pow2_def)
    with 3 have "Pow_10 n = fl (dec n * pow2 (- ae) * pow2 ae)" by (simp add: Pow_10_def)
    also have "dec n * pow2 (- ae) * pow2 ae = dec n"
      by (simp add: mult.assoc pow2_add [symmetric]) (simp add: pow2_def)
    finally show ?thesis by (simp only: fl_dec [OF n])
  qed (simp add: Pow_10_def one_f64_def dec_def)
qed

end
