(* ===== verification/Schema.thy ===== *)
theory Schema
  imports Json Decimal
begin

text \<open>
  \<^verbatim>\<open>pkg/schema/telemetry.go\<close>: the security envelope, the rounding of telemetry before it is
  hashed, the payload digest, the two constructors and the fail-closed validation. Pointers to
  payloads are options, \<^verbatim>\<open>map[string]any\<close> is an association list (\<open>None\<close> is nil), and
  the clock readings of \<^verbatim>\<open>time.Now()\<close> are arguments. \<^verbatim>\<open>Validate\<close> rounds the
  telemetry of the envelope it is called on, so its model returns the updated envelope.
\<close>

section \<open>Model\<close>

definition Tier1Public :: string where "Tier1Public = ''TIER-1: PUBLIC''"
definition Tier2Restricted :: string where "Tier2Restricted = ''TIER-2: RESTRICTED''"
definition Tier3Critical :: string where "Tier3Critical = ''TIER-3: CRITICAL''"

lemmas tier_defs = Tier1Public_def Tier2Restricted_def Tier3Critical_def

definition ValidTiers :: "string \<Rightarrow> bool" where
  "ValidTiers c \<longleftrightarrow> c = Tier1Public \<or> c = Tier2Restricted \<or> c = Tier3Critical"

record SecurityHeader =
  Classification :: string
  OriginEnclave :: string
  TimestampNs :: int
  MessageID :: string
  Digest :: string
  Caveats :: "string list"

record Coordinates =
  Latitude :: f64
  Longitude :: f64
  AltitudeM :: f64

record Velocity =
  VX :: f64
  VY :: f64
  VZ :: f64
  SpeedMps :: f64

record TelemetryPayload =
  VehicleID :: string
  VehicleType :: string
  Team :: string
  State :: string
  BatteryPct :: f64
  Coords :: Coordinates
  Vel :: Velocity
  HeadingDeg :: f64
  MissionPayload :: "(string \<times> json) list option"
  Sequence :: u64

record CommandPayload =
  CommandID :: string
  TargetVehicle :: string
  CommandType :: string
  Parameters :: "(string \<times> json) list option"
  IssuedAtNs :: int
  Issuer :: string

record SecurityEnvelope =
  Header :: SecurityHeader
  Telemetry :: "TelemetryPayload option"
  Command :: "CommandPayload option"

definition roundFloat :: "f64 \<Rightarrow> nat \<Rightarrow> f64" where
  "roundFloat v decimals = (let pow = Pow10 decimals in Round (v * pow) / pow)"

definition Normalize_coords :: "Coordinates \<Rightarrow> Coordinates" where
  "Normalize_coords c =
     \<lparr>Latitude = roundFloat (Latitude c) 6, Longitude = roundFloat (Longitude c) 6,
      AltitudeM = roundFloat (AltitudeM c) 2\<rparr>"

definition Normalize_vel :: "Velocity \<Rightarrow> Velocity" where
  "Normalize_vel v =
     \<lparr>VX = roundFloat (VX v) 2, VY = roundFloat (VY v) 2, VZ = roundFloat (VZ v) 2,
      SpeedMps = roundFloat (SpeedMps v) 2\<rparr>"

definition Normalize :: "TelemetryPayload \<Rightarrow> TelemetryPayload" where
  "Normalize t =
     t\<lparr>Coords := Normalize_coords (Coords t), Vel := Normalize_vel (Vel t),
       HeadingDeg := roundFloat (HeadingDeg t) 1, BatteryPct := roundFloat (BatteryPct t) 1\<rparr>"

text \<open>The JSON form of the structs: field names, order and \<^verbatim>\<open>omitempty\<close> of the struct tags.\<close>

definition json_map :: "string \<Rightarrow> (string \<times> json) list option \<Rightarrow> (string \<times> json) list" where
  "json_map name m = (case m of None \<Rightarrow> [] | Some [] \<Rightarrow> [] | Some es \<Rightarrow> [(name, JMap es)])"

definition json_coords :: "Coordinates \<Rightarrow> json" where
  "json_coords c = JObj [(''lat'', JNum (Latitude c)), (''lon'', JNum (Longitude c)),
                         (''alt_m'', JNum (AltitudeM c))]"

definition json_vel :: "Velocity \<Rightarrow> json" where
  "json_vel v = JObj [(''vx'', JNum (VX v)), (''vy'', JNum (VY v)), (''vz'', JNum (VZ v)),
                      (''speed_mps'', JNum (SpeedMps v))]"

definition json_telemetry :: "TelemetryPayload \<Rightarrow> json" where
  "json_telemetry t =
     JObj ([(''vehicle_id'', JStr (VehicleID t)), (''vehicle_type'', JStr (VehicleType t)),
            (''team'', JStr (Team t)), (''state'', JStr (State t)),
            (''battery_pct'', JNum (BatteryPct t)), (''coordinates'', json_coords (Coords t)),
            (''velocity'', json_vel (Vel t)), (''heading_deg'', JNum (HeadingDeg t))]
           @ json_map ''mission_payload'' (MissionPayload t)
           @ [(''sequence'', JInt (uint (Sequence t)))])"

definition json_command :: "CommandPayload \<Rightarrow> json" where
  "json_command c =
     JObj ([(''command_id'', JStr (CommandID c)), (''target_vehicle'', JStr (TargetVehicle c)),
            (''command_type'', JStr (CommandType c))]
           @ json_map ''parameters'' (Parameters c)
           @ [(''issued_at_ns'', JInt (IssuedAtNs c)), (''issuer'', JStr (Issuer c))])"

definition json_header :: "SecurityHeader \<Rightarrow> json" where
  "json_header h =
     JObj ([(''classification'', JStr (Classification h)), (''origin_enclave'', JStr (OriginEnclave h)),
            (''timestamp_ns'', JInt (TimestampNs h)), (''message_id'', JStr (MessageID h)),
            (''digest'', JStr (Digest h))]
           @ (if Caveats h = [] then [] else [(''caveats'', JArr (map JStr (Caveats h)))]))"

definition json_envelope :: "SecurityEnvelope \<Rightarrow> json" where
  "json_envelope e =
     JObj ([(''header'', json_header (Header e))]
           @ (case Telemetry e of None \<Rightarrow> [] | Some t \<Rightarrow> [(''telemetry'', json_telemetry t)])
           @ (case Command e of None \<Rightarrow> [] | Some c \<Rightarrow> [(''command'', json_command c)]))"

text \<open>\<^verbatim>\<open>ComputePayloadDigest\<close>; \<open>None\<close> stands for a nil payload.\<close>

definition ComputePayloadDigest :: "json option \<Rightarrow> string go" where
  "ComputePayloadDigest payload =
     (case payload of
        None \<Rightarrow> fail ''cannot compute digest for nil payload''
      | Some j \<Rightarrow>
          try_go (Marshal j) (\<lambda>e. ''marshalling payload for digest: '' @ e)
            (\<lambda>bs. ok (EncodeToString (sha256 (bytes_of bs)))))"

definition NewTelemetryEnvelope ::
  "golib \<Rightarrow> int \<Rightarrow> int \<Rightarrow> string \<Rightarrow> string \<Rightarrow> TelemetryPayload \<Rightarrow> string list \<Rightarrow> SecurityEnvelope go" where
  "NewTelemetryEnvelope L now1 now2 classification origin telemetry caveats =
     (if \<not> ValidTiers classification
      then fail (''invalid synthetic classification tier: '' @ fmt_q L classification)
      else let telemetry = Normalize telemetry
           in try_go (ComputePayloadDigest (Some (json_telemetry telemetry)))
                (\<lambda>e. ''computing telemetry digest: '' @ e)
                (\<lambda>digest.
                   ok \<lparr>Header =
                         \<lparr>Classification = classification, OriginEnclave = origin,
                          TimestampNs = now2,
                          MessageID = ''msg-'' @ fmt_d now1 @ ''-'' @ VehicleID telemetry,
                          Digest = digest, Caveats = caveats\<rparr>,
                       Telemetry = Some telemetry, Command = None\<rparr>))"

definition NewCommandEnvelope ::
  "golib \<Rightarrow> int \<Rightarrow> int \<Rightarrow> string \<Rightarrow> string \<Rightarrow> CommandPayload \<Rightarrow> string list \<Rightarrow> SecurityEnvelope go" where
  "NewCommandEnvelope L now1 now2 classification origin cmd caveats =
     (if \<not> ValidTiers classification
      then fail (''invalid synthetic classification tier: '' @ fmt_q L classification)
      else try_go (ComputePayloadDigest (Some (json_command cmd)))
             (\<lambda>e. ''computing command digest: '' @ e)
             (\<lambda>digest.
                let cmd = (if IssuedAtNs cmd = 0 then cmd\<lparr>IssuedAtNs := now1\<rparr> else cmd)
                in ok \<lparr>Header =
                         \<lparr>Classification = classification, OriginEnclave = origin,
                          TimestampNs = now2, MessageID = CommandID cmd,
                          Digest = digest, Caveats = caveats\<rparr>,
                       Telemetry = None, Command = Some cmd\<rparr>))"

text \<open>The checks of \<^verbatim>\<open>Validate\<close>, in its order.\<close>

definition check_header :: "golib \<Rightarrow> SecurityHeader \<Rightarrow> string option" where
  "check_header L h =
     (if Classification h = '''' then Some ''security header missing classification''
      else if \<not> ValidTiers (Classification h)
      then Some (''unauthorized classification tier: '' @ fmt_q L (Classification h))
      else if OriginEnclave h = '''' then Some ''security header missing origin enclave''
      else if TimestampNs h = 0 then Some ''security header missing timestamp_ns''
      else if Digest h = '''' then Some ''security header missing cryptographic digest''
      else None)"

definition check_telemetry :: "TelemetryPayload \<Rightarrow> string option" where
  "check_telemetry t =
     (let c = Coords t
      in if VehicleID t = '''' then Some ''telemetry missing vehicle_id''
         else if VehicleType t = '''' then Some ''telemetry missing vehicle_type''
         else if Team t = '''' then Some ''telemetry missing team''
         else if BatteryPct t < 0 \<or> lit 100 < BatteryPct t
         then Some (''invalid battery percentage: '' @ fmt_f2 (BatteryPct t))
         else if Latitude c < lit (- 90) \<or> lit 90 < Latitude c \<or>
                 Longitude c < lit (- 180) \<or> lit 180 < Longitude c
         then Some (''coordinates out of bounds: lat='' @ fmt_f2 (Latitude c) @ '' lon='' @
                    fmt_f2 (Longitude c))
         else None)"

definition check_command :: "CommandPayload \<Rightarrow> string option" where
  "check_command c =
     (if CommandID c = '''' then Some ''command missing command_id''
      else if TargetVehicle c = '''' then Some ''command missing target_vehicle''
      else if CommandType c = '''' then Some ''command missing command_type''
      else None)"

definition check_digest :: "golib \<Rightarrow> string \<Rightarrow> json \<Rightarrow> unit go" where
  "check_digest L digest payload =
     try_go (ComputePayloadDigest (Some payload))
       (\<lambda>e. ''recomputing digest for validation: '' @ e)
       (\<lambda>expectedDigest.
          if \<not> EqualFold L digest expectedDigest
          then fail (''cryptographic digest mismatch: header has '' @ digest @ '', computed '' @
                     expectedDigest)
          else ok ())"

text \<open>\<open>None\<close> as the envelope is the nil pointer; the second component is the envelope afterwards.\<close>

definition Validate :: "golib \<Rightarrow> SecurityEnvelope option \<Rightarrow> unit go \<times> SecurityEnvelope option" where
  "Validate L env =
     (case env of
        None \<Rightarrow> (fail ''security envelope is nil'', None)
      | Some e \<Rightarrow>
          (case check_header L (Header e) of
             Some msg \<Rightarrow> (fail msg, env)
           | None \<Rightarrow>
               (case (Telemetry e, Command e) of
                  (None, None) \<Rightarrow>
                    (fail ''security envelope contains neither telemetry nor command payload'', env)
                | (Some t, _) \<Rightarrow>
                    (let t = Normalize t; env = Some (e\<lparr>Telemetry := Some t\<rparr>)
                     in (case check_telemetry t of
                           Some msg \<Rightarrow> (fail msg, env)
                         | None \<Rightarrow> (check_digest L (Digest (Header e)) (json_telemetry t), env)))
                | (None, Some c) \<Rightarrow>
                    (case check_command c of
                       Some msg \<Rightarrow> (fail msg, env)
                     | None \<Rightarrow> (check_digest L (Digest (Header e)) (json_command c), env)))))"

section \<open>Rounding of telemetry\<close>

text \<open>Floats of a physical magnitude: finite and at most \<open>10\<^sup>9\<close>.\<close>

definition sized :: "int \<Rightarrow> f64 \<Rightarrow> bool" where
  "sized C x \<longleftrightarrow> finite64 x \<and> \<bar>val x\<bar> \<le> of_int C"

lemma sized_mono: "sized C x \<Longrightarrow> C \<le> D \<Longrightarrow> sized D x"
  unfolding sized_def by (metis of_int_le_iff order_trans)

lemma roundFloat_round_with: "d \<le> 22 \<Longrightarrow> roundFloat v d = round_with (Fin (dec d)) v"
  by (simp add: roundFloat_def round_with_def Pow10_dec Let_def)

lemma grid_size: "d \<le> 6 \<Longrightarrow> C \<le> 10 ^ 9 \<Longrightarrow> C * 10 ^ d \<le> (2::int) ^ 50"
proof -
  assume d: "d \<le> 6" and C: "C \<le> 10 ^ 9"
  have "C * 10 ^ d \<le> 10 ^ 9 * 10 ^ d" using C by (intro mult_right_mono) simp_all
  also have "\<dots> \<le> 10 ^ 9 * 10 ^ 6" using d by (intro mult_left_mono power_increasing) simp_all
  also have "\<dots> \<le> (2::int) ^ 50" by simp
  finally show ?thesis .
qed

lemma grid_size_strict: "d \<le> 6 \<Longrightarrow> C \<le> 10 ^ 9 \<Longrightarrow> C * 10 ^ d < (2::int) ^ 53"
  by (rule order_le_less_trans [OF grid_size]) simp_all

lemma roundFloat_grid:
  "sized C v \<Longrightarrow> d \<le> 6 \<Longrightarrow> C \<le> 10 ^ 9 \<Longrightarrow> on_grid d C (roundFloat v d)"
  using round_with_grid [OF _ _ grid_size_strict, of v C d] by (simp add: roundFloat_round_with sized_def)

lemma on_grid_sized: "on_grid d C v \<Longrightarrow> d \<le> 6 \<Longrightarrow> 0 \<le> C \<Longrightarrow> C \<le> 10 ^ 9 \<Longrightarrow> sized C v"
  using on_grid_range [of d C v] grid_size [of d C] by (simp add: sized_def)

lemma roundFloat_fixed: "on_grid d C v \<Longrightarrow> d \<le> 6 \<Longrightarrow> C \<le> 10 ^ 9 \<Longrightarrow> roundFloat v d = v"
  using on_grid_fixed [of d C v] grid_size [of d C] by (simp add: roundFloat_round_with)

lemma sized_nonneg: "sized C v \<Longrightarrow> 0 \<le> C"
  unfolding sized_def by (metis abs_ge_zero of_int_0_le_iff order_trans)

lemma roundFloat_sized: "sized C v \<Longrightarrow> d \<le> 6 \<Longrightarrow> C \<le> 10 ^ 9 \<Longrightarrow> sized C (roundFloat v d)"
  using roundFloat_grid on_grid_sized sized_nonneg by blast

lemma roundFloat_idem: "sized C v \<Longrightarrow> d \<le> 6 \<Longrightarrow> C \<le> 10 ^ 9 \<Longrightarrow> roundFloat (roundFloat v d) d = roundFloat v d"
  using roundFloat_grid roundFloat_fixed by blast

lemma roundFloat_bounds:
  assumes "sized C v" and "d \<le> 6" and "C \<le> 10 ^ 9" and "\<bar>c\<bar> \<le> C"
  shows "of_int c \<le> val v \<Longrightarrow> of_int c \<le> val (roundFloat v d)"
    and "val v \<le> of_int c \<Longrightarrow> val (roundFloat v d) \<le> of_int c"
  using round_with_bounds [of v C d c] assms grid_size [of d C]
  by (simp_all add: sized_def roundFloat_round_with)

text \<open>Rounding leaves the non-finite values as they are.\<close>

lemma round_with_non_finite: "\<not> finite64 v \<Longrightarrow> 0 < r \<Longrightarrow> \<not> finite64 (round_with (Fin r) v)"
  by (cases v) (simp_all add: round_with_def times_f64_def divide_f64_def mul64_def div64_def inf64_def
      Round.simps)

lemma roundFloat_finite: "d \<le> 22 \<Longrightarrow> finite64 (roundFloat v d) \<Longrightarrow> finite64 v"
  using round_with_non_finite [of v "dec d"] by (auto simp: roundFloat_round_with)

definition physical :: "TelemetryPayload \<Rightarrow> bool" where
  "physical t \<longleftrightarrow>
     sized (10 ^ 9) (Latitude (Coords t)) \<and> sized (10 ^ 9) (Longitude (Coords t)) \<and>
     sized (10 ^ 9) (AltitudeM (Coords t)) \<and> sized (10 ^ 9) (VX (Vel t)) \<and>
     sized (10 ^ 9) (VY (Vel t)) \<and> sized (10 ^ 9) (VZ (Vel t)) \<and>
     sized (10 ^ 9) (SpeedMps (Vel t)) \<and> sized (10 ^ 9) (HeadingDeg t) \<and>
     sized (10 ^ 9) (BatteryPct t)"

lemmas normalize_defs = Normalize_def Normalize_coords_def Normalize_vel_def

lemma Normalize_physical: "physical t \<Longrightarrow> physical (Normalize t)"
  unfolding physical_def normalize_defs by (simp add: roundFloat_sized)

lemma Normalize_idem: "physical t \<Longrightarrow> Normalize (Normalize t) = Normalize t"
  unfolding physical_def normalize_defs by (simp add: roundFloat_idem [of "10 ^ 9"])

lemma Normalize_text [simp]:
  "VehicleID (Normalize t) = VehicleID t" "VehicleType (Normalize t) = VehicleType t"
  "Team (Normalize t) = Team t" "State (Normalize t) = State t"
  "MissionPayload (Normalize t) = MissionPayload t" "Sequence (Normalize t) = Sequence t"
  by (simp_all add: Normalize_def)

section \<open>Comparison with a literal\<close>

lemma lit_int: "\<bar>n\<bar> < 2 ^ 53 \<Longrightarrow> lit (of_int n) = Fin (of_int n)"
proof (cases "n = 0")
  case False
  assume n: "\<bar>n\<bar> < 2 ^ 53"
  have "\<bar>of_int n :: rat\<bar> \<le> of_int (2 ^ 53 - 1)" using n by (intro abs_int_rat_le) simp
  also have "\<dots> \<le> pow2 1023" by (rule int_bound_pow2) simp
  finally show ?thesis using False n by (intro fl_exact repr_of_int) simp_all
qed simp

lemma lit_small [simp]: "lit 100 = Fin 100" "lit 90 = Fin 90" "lit 180 = Fin 180"
  "lit (- 90) = Fin (- 90)" "lit (- 180) = Fin (- 180)"
  using lit_int [of 100] lit_int [of 90] lit_int [of 180] lit_int [of "- 90"] lit_int [of "- 180"] by simp_all

lemma int_on_grid: "\<bar>n\<bar> \<le> C \<Longrightarrow> C < 2 ^ 53 \<Longrightarrow> on_grid 0 C (Fin (of_int n))"
proof (cases "n = 0")
  case True
  then show ?thesis unfolding on_grid_def zero64_def by (intro disjI1 exI [of _ False]) simp
next
  case False
  assume "\<bar>n\<bar> \<le> C" "C < 2 ^ 53"
  then show ?thesis using False lit_int [of n] unfolding on_grid_def
    by (intro disjI2 exI [of _ n]) (simp add: dec_def)
qed

lemma less_Fin [simp]: "finite64 x \<Longrightarrow> x < Fin r \<longleftrightarrow> val x < r" "finite64 x \<Longrightarrow> Fin r < x \<longleftrightarrow> r < val x"
  by (cases x; simp add: less_f64_def lt64_def)+

lemma less_zero [simp]: "finite64 x \<Longrightarrow> x < 0 \<longleftrightarrow> val x < 0" "finite64 x \<Longrightarrow> 0 < x \<longleftrightarrow> 0 < val x"
  by (simp_all add: zero_f64_def)


section \<open>The digest\<close>

definition digest_of :: "string \<Rightarrow> string" where
  "digest_of s = EncodeToString (sha256 (bytes_of s))"

lemma length_digest_of [simp]: "length (digest_of s) = 64"
  by (simp add: digest_of_def)

lemma digest_of_nonempty [simp]: "digest_of s \<noteq> []"
  using length_digest_of [of s] by force

lemma digest_of_ascii [simp]: "is_ascii (digest_of s)"
  by (simp add: digest_of_def)

lemma ComputePayloadDigest_Some:
  "ComputePayloadDigest (Some j) = try_go (Marshal j) (\<lambda>e. ''marshalling payload for digest: '' @ e) (\<lambda>s. ok (digest_of s))"
  unfolding ComputePayloadDigest_def digest_of_def option.case ..

lemma EqualFold_refl: "is_ascii s \<Longrightarrow> EqualFold L s s"
  by (simp add: EqualFold_def)

lemma check_digest_ok_iff:
  "check_digest L d j = ok () \<longleftrightarrow> (\<exists>s. Marshal j = ok s \<and> EqualFold L d (digest_of s))"
  by (cases "Marshal j" rule: go_cases) (auto simp: check_digest_def ComputePayloadDigest_Some)

lemma check_digest_total: "check_digest L d j \<noteq> None"
  by (cases "Marshal j" rule: go_cases)
    (auto simp: check_digest_def ComputePayloadDigest_Some Marshal_total simp del: not_None_eq)

text \<open>Lower-case hexadecimal text determines the bytes, and folding its case does not change it.\<close>

lemma digit_code: "0 \<le> d \<Longrightarrow> d < 16 \<Longrightarrow> (of_char (digit d) :: int) = (if d < 10 then 48 + d else 87 + d)"
proof -
  assume d: "0 \<le> d" "d < 16"
  define e where "e = (if d < 10 then 48 + d else 87 + d)"
  have e: "0 \<le> e" "e < 128" using d by (auto simp: e_def)
  have "(of_char (digit d) :: int) = e mod 256" by (simp add: digit_def e_def)
  also have "\<dots> = e" using e by simp
  finally show ?thesis by (simp add: e_def)
qed

lemma hex_digit_inject:
  "0 \<le> a \<Longrightarrow> a < 16 \<Longrightarrow> 0 \<le> b \<Longrightarrow> b < 16 \<Longrightarrow> digit a = digit b \<longleftrightarrow> a = b"
proof
  assume r: "0 \<le> a" "a < 16" "0 \<le> b" "b < 16" and eq: "digit a = digit b"
  have "(if a < 10 then 48 + a else 87 + a) = (if b < 10 then 48 + b else 87 + b)"
    unfolding digit_code [OF r(1,2), symmetric] digit_code [OF r(3,4), symmetric] by (simp only: eq)
  with r show "a = b" by (simp split: if_splits)
qed simp

lemma nibbles: "0 \<le> uint (w :: byte) div 16" "uint w div 16 < 16" "0 \<le> uint w mod 16" "uint w mod 16 < 16"
  using uint_lt2p [of w] unsigned_greater_eq [of w] by (auto simp: pos_imp_zdiv_nonneg_iff)

lemma EncodeToString_inject: "EncodeToString a = EncodeToString b \<longleftrightarrow> a = b"
proof
  show "EncodeToString a = EncodeToString b \<Longrightarrow> a = b"
  proof (induction a b rule: list_induct2')
    case (4 x xs y ys)
    then have "digit (uint x div 16) = digit (uint y div 16)" "digit (uint x mod 16) = digit (uint y mod 16)"
      and rest: "EncodeToString xs = EncodeToString ys"
      by (simp_all add: EncodeToString_def)
    then have "uint x div 16 = uint y div 16" "uint x mod 16 = uint y mod 16"
      by (simp_all add: hex_digit_inject nibbles)
    then have "uint x = uint y" by (metis div_mult_mod_eq)
    with 4 rest show ?case by (simp add: word_uint_eq_iff)
  qed (simp_all add: EncodeToString_def)
qed simp

lemma lower_digit: "0 \<le> d \<Longrightarrow> d < 16 \<Longrightarrow> lower_char (digit d) = digit d"
proof -
  assume d: "0 \<le> d" "d < 16"
  have "int (of_char (digit d)) = (if d < 10 then 48 + d else 87 + d)"
    unfolding digit_code [OF d, symmetric] by (simp only: of_nat_of_char)
  then show ?thesis using d by (auto simp: lower_char_def Let_def split: if_splits)
qed

lemma lower_EncodeToString [simp]: "map lower_char (EncodeToString b) = EncodeToString b"
  by (induction b) (simp_all add: EncodeToString_def lower_digit nibbles)

lemma EqualFold_digest:
  "is_ascii d \<Longrightarrow> EqualFold L d (digest_of s) \<longleftrightarrow> map lower_char d = digest_of s"
  by (simp add: EqualFold_def digest_of_def)

section \<open>What validation accepts\<close>

definition payload_json :: "SecurityEnvelope \<Rightarrow> json" where
  "payload_json e =
     (case Telemetry e of Some t \<Rightarrow> json_telemetry t
      | None \<Rightarrow> (case Command e of Some c \<Rightarrow> json_command c | None \<Rightarrow> JNull))"

definition normalized :: "SecurityEnvelope \<Rightarrow> SecurityEnvelope" where
  "normalized e = e\<lparr>Telemetry := map_option Normalize (Telemetry e)\<rparr>"

definition payload_ok :: "SecurityEnvelope \<Rightarrow> bool" where
  "payload_ok e \<longleftrightarrow>
     (case Telemetry e of Some t \<Rightarrow> check_telemetry t = None
      | None \<Rightarrow> (case Command e of Some c \<Rightarrow> check_command c = None | None \<Rightarrow> False))"

lemma normalized_simps [simp]:
  "Header (normalized e) = Header e" "Command (normalized e) = Command e"
  "Telemetry (normalized e) = map_option Normalize (Telemetry e)"
  by (simp_all add: normalized_def)

lemma normalized_none: "Telemetry e = None \<Longrightarrow> normalized e = e"
  by (simp add: normalized_def)

lemma Validate_ok_iff:
  "fst (Validate L (Some e)) = ok () \<longleftrightarrow>
     check_header L (Header e) = None \<and> payload_ok (normalized e) \<and>
     (\<exists>s. Marshal (payload_json (normalized e)) = ok s \<and> EqualFold L (Digest (Header e)) (digest_of s))"
  by (auto simp: Validate_def payload_ok_def payload_json_def check_digest_ok_iff Let_def
      split: option.splits)

lemma Validate_snd: "snd (Validate L (Some e)) = Some (if check_header L (Header e) = None then normalized e else e)"
  by (auto simp: Validate_def Let_def normalized_def split: option.splits)

lemma Validate_total: "fst (Validate L env) \<noteq> None"
  by (auto simp: Validate_def check_digest_total Let_def simp del: not_None_eq split: option.splits)

lemma finite_json_telemetry:
  "finite_json (json_telemetry t) \<Longrightarrow>
     finite64 (Latitude (Coords t)) \<and> finite64 (Longitude (Coords t)) \<and> finite64 (AltitudeM (Coords t)) \<and>
     finite64 (VX (Vel t)) \<and> finite64 (VY (Vel t)) \<and> finite64 (VZ (Vel t)) \<and> finite64 (SpeedMps (Vel t)) \<and>
     finite64 (HeadingDeg t) \<and> finite64 (BatteryPct t)"
  by (simp add: json_telemetry_def json_coords_def json_vel_def)

definition payload_finite :: "(string \<times> json) list option \<Rightarrow> bool" where
  "payload_finite m = (case m of None \<Rightarrow> True | Some es \<Rightarrow> list_all (\<lambda>x. finite_json (snd x)) es)"

lemma finite_json_map [simp]: "list_all (\<lambda>m. finite_json (snd m)) (json_map name m) = payload_finite m"
  by (auto simp: json_map_def payload_finite_def split: option.splits list.splits)

lemma finite_json_telemetry_iff:
  "finite_json (json_telemetry t) \<longleftrightarrow>
     finite64 (Latitude (Coords t)) \<and> finite64 (Longitude (Coords t)) \<and> finite64 (AltitudeM (Coords t)) \<and>
     finite64 (VX (Vel t)) \<and> finite64 (VY (Vel t)) \<and> finite64 (VZ (Vel t)) \<and> finite64 (SpeedMps (Vel t)) \<and>
     finite64 (HeadingDeg t) \<and> finite64 (BatteryPct t) \<and> payload_finite (MissionPayload t)"
  by (auto simp: json_telemetry_def json_coords_def json_vel_def)

lemma physical_finite: "physical t \<Longrightarrow> payload_finite (MissionPayload t) \<Longrightarrow> finite_json (json_telemetry t)"
  by (simp add: finite_json_telemetry_iff physical_def sized_def)

text \<open>The ranges of an accepted telemetry payload.\<close>

definition in_bounds :: "TelemetryPayload \<Rightarrow> bool" where
  "in_bounds t \<longleftrightarrow>
     finite64 (BatteryPct t) \<and> 0 \<le> val (BatteryPct t) \<and> val (BatteryPct t) \<le> 100 \<and>
     sized 90 (Latitude (Coords t)) \<and> sized 180 (Longitude (Coords t))"

lemma check_telemetry_iff:
  assumes "finite64 (BatteryPct t)" and "finite64 (Latitude (Coords t))" and "finite64 (Longitude (Coords t))"
  shows "check_telemetry t = None \<longleftrightarrow>
     VehicleID t \<noteq> '''' \<and> VehicleType t \<noteq> '''' \<and> Team t \<noteq> '''' \<and> in_bounds t"
  using assms by (auto simp: check_telemetry_def Let_def in_bounds_def sized_def abs_le_iff)


lemma physical_in_bounds:
  assumes "physical t" and "in_bounds t"
  shows "in_bounds (Normalize t)"
proof -
  have b: "sized (10 ^ 9) (BatteryPct t)" using assms(1) by (simp add: physical_def)
  have lat: "sized 90 (Latitude (Coords t))" and lon: "sized 180 (Longitude (Coords t))"
    and bp: "0 \<le> val (BatteryPct t)" "val (BatteryPct t) \<le> 100"
    using assms(2) by (simp_all add: in_bounds_def)
  have "finite64 (roundFloat (BatteryPct t) 1)" "0 \<le> val (roundFloat (BatteryPct t) 1)"
    "val (roundFloat (BatteryPct t) 1) \<le> 100"
    using roundFloat_sized [OF b, of 1] roundFloat_bounds [OF b, of 1 0] roundFloat_bounds [OF b, of 1 100] bp
    by (simp_all add: sized_def)
  then show ?thesis
    using roundFloat_sized [OF lat, of 6] roundFloat_sized [OF lon, of 6]
    by (simp add: in_bounds_def normalize_defs)
qed

lemma physical_floats:
  "physical t \<Longrightarrow> finite64 (BatteryPct t) \<and> finite64 (Latitude (Coords t)) \<and> finite64 (Longitude (Coords t))"
  by (simp add: physical_def sized_def)

lemma check_telemetry_physical:
  assumes "physical t" and "in_bounds t" and "VehicleID t \<noteq> ''''" "VehicleType t \<noteq> ''''" "Team t \<noteq> ''''"
  shows "check_telemetry (Normalize t) = None"
  using physical_floats [OF Normalize_physical [OF assms(1)]] physical_in_bounds [OF assms(1,2)] assms(3-5)
  by (simp add: check_telemetry_iff)

lemma check_header_None_iff:
  "check_header L h = None \<longleftrightarrow>
     ValidTiers (Classification h) \<and> OriginEnclave h \<noteq> '''' \<and> TimestampNs h \<noteq> 0 \<and> Digest h \<noteq> ''''"
  by (auto simp: check_header_def ValidTiers_def tier_defs)

lemma NewTelemetryEnvelope_ok:
  assumes "ValidTiers c" and "Marshal (json_telemetry (Normalize t)) = ok s"
  shows "NewTelemetryEnvelope L now1 now2 c origin t caveats =
    ok \<lparr>Header = \<lparr>Classification = c, OriginEnclave = origin, TimestampNs = now2,
          MessageID = ''msg-'' @ fmt_d now1 @ ''-'' @ VehicleID t, Digest = digest_of s, Caveats = caveats\<rparr>,
        Telemetry = Some (Normalize t), Command = None\<rparr>"
  using assms by (simp add: NewTelemetryEnvelope_def ComputePayloadDigest_Some Let_def)

lemma Validate_ok_pair:
  "fst (Validate L (Some e)) = ok () \<Longrightarrow> Validate L (Some e) = (ok (), Some (normalized e))"
  by (rule prod_eqI) (simp_all add: Validate_snd Validate_ok_iff)

lemma telemetry_envelope_cases:
  assumes "physical t"
  shows "if ValidTiers c \<and> payload_finite (MissionPayload t)
    then \<exists>e. NewTelemetryEnvelope L now1 now2 c origin t caveats = ok e \<and> snd (Validate L (Some e)) = Some e \<and>
      (fst (Validate L (Some e)) = ok () \<longleftrightarrow>
         origin \<noteq> '''' \<and> now2 \<noteq> 0 \<and> VehicleID t \<noteq> '''' \<and> VehicleType t \<noteq> '''' \<and> Team t \<noteq> '''' \<and>
         in_bounds (Normalize t))
    else \<exists>err. NewTelemetryEnvelope L now1 now2 c origin t caveats = fail err"
proof (cases rule: Marshal_cases [of "json_telemetry (Normalize t)"])
  case (error err)
  have "\<not> payload_finite (MissionPayload t)"
    using error(2) physical_finite [OF Normalize_physical [OF assms]] by auto
  with error(1) show ?thesis by (simp add: NewTelemetryEnvelope_def ComputePayloadDigest_Some Let_def)
next
  case (ok s)
  then have fin: "payload_finite (MissionPayload t)" by (simp add: finite_json_telemetry_iff)
  show ?thesis
  proof (cases "ValidTiers c")
    case False
    then show ?thesis by (simp add: NewTelemetryEnvelope_def)
  next
    case True
    note new = NewTelemetryEnvelope_ok [OF True ok(1), of L now1 now2 origin caveats]
    then obtain e where e: "NewTelemetryEnvelope L now1 now2 c origin t caveats = Prelude.ok e" by blast
    with new have h: "Header e = \<lparr>Classification = c, OriginEnclave = origin, TimestampNs = now2,
        MessageID = ''msg-'' @ fmt_d now1 @ ''-'' @ VehicleID t, Digest = digest_of s, Caveats = caveats\<rparr>"
      and t: "Telemetry e = Some (Normalize t)" by auto
    have n: "normalized e = e" by (simp add: normalized_def t Normalize_idem [OF assms])
    have "check_header L (Header e) = None \<longleftrightarrow> origin \<noteq> '''' \<and> now2 \<noteq> 0"
      using True by (simp add: h check_header_None_iff)
    moreover have "payload_ok e \<longleftrightarrow>
        VehicleID t \<noteq> '''' \<and> VehicleType t \<noteq> '''' \<and> Team t \<noteq> '''' \<and> in_bounds (Normalize t)"
      using physical_floats [OF Normalize_physical [OF assms]] by (simp add: payload_ok_def t check_telemetry_iff)
    moreover have "Marshal (payload_json e) = Prelude.ok s" by (simp add: payload_json_def t ok(1))
    ultimately have "fst (Validate L (Some e)) = Prelude.ok () \<longleftrightarrow>
         origin \<noteq> '''' \<and> now2 \<noteq> 0 \<and> VehicleID t \<noteq> '''' \<and> VehicleType t \<noteq> '''' \<and> Team t \<noteq> '''' \<and>
         in_bounds (Normalize t)"
      by (simp add: Validate_ok_iff n h EqualFold_refl)
    moreover have "snd (Validate L (Some e)) = Some e" by (simp add: Validate_snd n)
    ultimately show ?thesis using True fin e by simp
  qed
qed

lemma telemetry_envelope_validates:
  assumes "ValidTiers c" and "origin \<noteq> ''''" and "now2 \<noteq> 0"
    and "VehicleID t \<noteq> ''''" "VehicleType t \<noteq> ''''" "Team t \<noteq> ''''"
    and "physical t" and "in_bounds t" and "payload_finite (MissionPayload t)"
  shows "\<exists>e. NewTelemetryEnvelope L now1 now2 c origin t caveats = ok e \<and>
    Validate L (Some e) = (ok (), Some e)"
  using telemetry_envelope_cases [OF assms(7), of c L now1 now2 origin caveats] assms
    physical_in_bounds [OF assms(7,8)] by (auto simp: prod_eq_iff)

text \<open>A telemetry sample for the witnesses.\<close>

definition sample :: TelemetryPayload where
  "sample = \<lparr>VehicleID = ''alpha'', VehicleType = ''drone'', Team = ''blue'', State = ''PATROL'',
     BatteryPct = Fin 95, Coords = \<lparr>Latitude = Fin (253/8), Longitude = Fin (- 33/4), AltitudeM = Fin 135\<rparr>,
     Vel = \<lparr>VX = Fin (1/3), VY = NegZero, VZ = Fin 0, SpeedMps = Fin 14\<rparr>, HeadingDeg = Fin 90,
     MissionPayload = Some [(''status'', JStr ''ok'')], Sequence = 7\<rparr>"

lemma sample_simps [simp]:
  "VehicleID sample = ''alpha''" "VehicleType sample = ''drone''" "Team sample = ''blue''"
  "payload_finite (MissionPayload sample)" "physical sample" "in_bounds sample"
  by (simp_all add: sample_def payload_finite_def physical_def in_bounds_def sized_def)


text \<open>The sample makes an envelope that validates, for every tier.\<close>

lemma sample_envelope:
  assumes "ValidTiers c"
  obtains e s where "NewTelemetryEnvelope L 5 6 c ''edge'' sample caveats = ok e"
    and "Validate L (Some e) = (ok (), Some e)" and "Telemetry e = Some (Normalize sample)" and "Command e = None"
    and "Header e = \<lparr>Classification = c, OriginEnclave = ''edge'', TimestampNs = 6,
          MessageID = ''msg-'' @ fmt_d 5 @ ''-'' @ VehicleID sample, Digest = digest_of s, Caveats = caveats\<rparr>"
    and "Marshal (json_telemetry (Normalize sample)) = ok s"
proof -
  obtain s where s: "Marshal (json_telemetry (Normalize sample)) = ok s"
    using Marshal_ok_iff [of "json_telemetry (Normalize sample)"]
      physical_finite [OF Normalize_physical, of sample] by auto
  have "\<exists>e. NewTelemetryEnvelope L 5 6 c ''edge'' sample caveats = ok e \<and> Validate L (Some e) = (ok (), Some e)"
    by (rule telemetry_envelope_validates) (simp_all add: assms)
  then obtain e where e: "NewTelemetryEnvelope L 5 6 c ''edge'' sample caveats = ok e"
    "Validate L (Some e) = (ok (), Some e)" by blast
  with NewTelemetryEnvelope_ok [OF assms s, of L 5 6 "''edge''" caveats] s show ?thesis
    by (intro that [of e s]) (auto dest: sym)
qed

section \<open>Command envelopes\<close>

definition command_ok :: "CommandPayload \<Rightarrow> bool" where
  "command_ok c \<longleftrightarrow> CommandID c \<noteq> '''' \<and> TargetVehicle c \<noteq> '''' \<and> CommandType c \<noteq> '''' \<and>
     payload_finite (Parameters c)"

lemma finite_json_command [simp]: "finite_json (json_command c) = payload_finite (Parameters c)"
  by (simp add: json_command_def)

lemma NewCommandEnvelope_ok:
  assumes "ValidTiers c" and "Marshal (json_command cmd) = ok s"
  shows "NewCommandEnvelope L now1 now2 c origin cmd caveats =
    ok \<lparr>Header = \<lparr>Classification = c, OriginEnclave = origin, TimestampNs = now2,
          MessageID = CommandID cmd, Digest = digest_of s, Caveats = caveats\<rparr>,
        Telemetry = None,
        Command = Some (if IssuedAtNs cmd = 0 then cmd\<lparr>IssuedAtNs := now1\<rparr> else cmd)\<rparr>"
  using assms by (simp add: NewCommandEnvelope_def ComputePayloadDigest_Some Let_def)

lemma command_envelope_validates_iff:
  fixes now1 :: int
  assumes "ValidTiers c" and "origin \<noteq> ''''" and "now2 \<noteq> 0" and "command_ok cmd"
  defines "sent \<equiv> (if IssuedAtNs cmd = 0 then cmd\<lparr>IssuedAtNs := now1\<rparr> else cmd)"
  obtains e s s' where "NewCommandEnvelope L now1 now2 c origin cmd caveats = ok e"
    and "Command e = Some sent" and "Telemetry e = None"
    and "Marshal (json_command cmd) = ok s" and "Marshal (json_command sent) = ok s'"
    and "Validate L (Some e) = (ok (), Some e) \<longleftrightarrow> sha256 (bytes_of s) = sha256 (bytes_of s')"
    and "fst (Validate L (Some e)) = ok () \<longleftrightarrow> sha256 (bytes_of s) = sha256 (bytes_of s')"
proof -
  have "finite_json (json_command cmd)" "finite_json (json_command sent)"
    using assms(4) by (simp_all add: command_ok_def sent_def)
  then obtain s s' where s: "Marshal (json_command cmd) = ok s" and s': "Marshal (json_command sent) = ok s'"
    using Marshal_ok_iff by blast
  define e where "e = \<lparr>Header = \<lparr>Classification = c, OriginEnclave = origin, TimestampNs = now2,
          MessageID = CommandID cmd, Digest = digest_of s, Caveats = caveats\<rparr>,
        Telemetry = None, Command = Some sent\<rparr>"
  have e: "NewCommandEnvelope L now1 now2 c origin cmd caveats = ok e"
    using NewCommandEnvelope_ok [OF assms(1) s] by (simp add: e_def sent_def)
  have n: "normalized e = e" by (rule normalized_none) (simp add: e_def)
  have "payload_ok e" using assms(4) by (simp add: payload_ok_def e_def command_ok_def check_command_def sent_def)
  moreover have "check_header L (Header e) = None" using assms(1-3) by (simp add: e_def check_header_None_iff)
  moreover have "Marshal (payload_json e) = ok s'" by (simp add: payload_json_def e_def s')
  ultimately have "fst (Validate L (Some e)) = ok () \<longleftrightarrow> EqualFold L (digest_of s) (digest_of s')"
    unfolding Validate_ok_iff n by (simp add: e_def)
  also have "\<dots> \<longleftrightarrow> sha256 (bytes_of s) = sha256 (bytes_of s')"
    by (simp add: EqualFold_digest) (simp add: digest_of_def EncodeToString_inject)
  finally have v: "fst (Validate L (Some e)) = ok () \<longleftrightarrow> sha256 (bytes_of s) = sha256 (bytes_of s')" .
  then have "Validate L (Some e) = (ok (), Some e) \<longleftrightarrow> sha256 (bytes_of s) = sha256 (bytes_of s')"
    using Validate_ok_pair [of L e] n by auto
  with e s s' v show ?thesis using that by (simp add: e_def)
qed

lemma finite_json_envelope:
  "finite_json (json_envelope e) \<longleftrightarrow>
     (case Telemetry e of None \<Rightarrow> True | Some t \<Rightarrow> finite_json (json_telemetry t)) \<and>
     (case Command e of None \<Rightarrow> True | Some c \<Rightarrow> finite_json (json_command c))"
  by (auto simp: json_envelope_def json_header_def list_all_iff split: option.splits)

text \<open>A command that carries its issue time is sealed for good: the envelope encodes and validates.\<close>

lemma issued_command_envelope:
  assumes "ValidTiers c" and "origin \<noteq> ''''" and "now2 \<noteq> 0" and "command_ok cmd" and "IssuedAtNs cmd \<noteq> 0"
  obtains e bs where "NewCommandEnvelope L now1 now2 c origin cmd caveats = ok e"
    and "Validate L (Some e) = (ok (), Some e)" and "Marshal (json_envelope e) = ok bs"
    and "Telemetry e = None" and "Command e = Some cmd" and "Classification (Header e) = c"
proof -
  obtain e s s' where e: "NewCommandEnvelope L now1 now2 c origin cmd caveats = ok e"
    and ec: "Command e = Some (if IssuedAtNs cmd = 0 then cmd\<lparr>IssuedAtNs := now1\<rparr> else cmd)" "Telemetry e = None"
    and s: "Marshal (json_command cmd) = ok s"
      "Marshal (json_command (if IssuedAtNs cmd = 0 then cmd\<lparr>IssuedAtNs := now1\<rparr> else cmd)) = ok s'"
    and v: "Validate L (Some e) = (ok (), Some e) \<longleftrightarrow> sha256 (bytes_of s) = sha256 (bytes_of s')"
    by (rule command_envelope_validates_iff [OF assms(1-4)])
  have "finite_json (json_envelope e)"
    using ec assms(4,5) by (simp add: finite_json_envelope command_ok_def)
  then obtain bs where "Marshal (json_envelope e) = ok bs" using Marshal_ok_iff by blast
  moreover have "Classification (Header e) = c" using NewCommandEnvelope_ok [OF assms(1) s(1)] e by auto
  ultimately show ?thesis using that e ec s v assms(5) by simp
qed

text \<open>The same of telemetry, with the wire text.\<close>

lemma telemetry_packet:
  assumes "ValidTiers c" and "origin \<noteq> ''''" and "now2 \<noteq> 0"
    and "VehicleID t \<noteq> ''''" "VehicleType t \<noteq> ''''" "Team t \<noteq> ''''"
    and "physical t" and "in_bounds t" and "payload_finite (MissionPayload t)"
  obtains e bs where "NewTelemetryEnvelope L now1 now2 c origin t caveats = ok e"
    and "Validate L (Some e) = (ok (), Some e)" and "Marshal (json_envelope e) = ok bs"
    and "Telemetry e = Some (Normalize t)" and "Command e = None" and "Classification (Header e) = c"
proof -
  have f: "finite_json (json_telemetry (Normalize t))"
    using assms(7,9) by (intro physical_finite Normalize_physical) simp_all
  then obtain s where s: "Marshal (json_telemetry (Normalize t)) = ok s" using Marshal_ok_iff by blast
  obtain e where e: "NewTelemetryEnvelope L now1 now2 c origin t caveats = ok e" "Validate L (Some e) = (ok (), Some e)"
    using telemetry_envelope_validates [OF assms, of L now1 caveats] by blast
  with NewTelemetryEnvelope_ok [OF assms(1) s, of L now1 now2 origin caveats]
  have t: "Telemetry e = Some (Normalize t)" "Command e = None" "Classification (Header e) = c" by auto
  then have "finite_json (json_envelope e)" using f by (simp add: finite_json_envelope)
  then obtain bs where "Marshal (json_envelope e) = ok bs" using Marshal_ok_iff by blast
  with that e t show ?thesis by blast
qed

section \<open>Properties\<close>

text \<open>C19. The digest is stable: rounding telemetry of a physical magnitude twice is rounding it
  once, so an envelope that is validated, forwarded and validated again hashes to the same digest.
  Magnitude: finite floats of at most \<open>10\<^sup>9\<close>; beyond, two IEEE roundings need not be
  idempotent.\<close>

theorem Normalize_stable:
  assumes "physical t"
  shows "Normalize (Normalize t) = Normalize t \<and>
    ComputePayloadDigest (Some (json_telemetry (Normalize (Normalize t))))
      = ComputePayloadDigest (Some (json_telemetry (Normalize t)))"
  by (simp only: Normalize_idem [OF assms] simp_thms)

theorem Normalize_stable_witness:
  "Normalize (Normalize sample) = Normalize sample"
  using Normalize_stable [of sample] by simp

text \<open>C20. What the constructor builds and what validation makes of it, for telemetry of a physical magnitude:
  \<^verbatim>\<open>NewTelemetryEnvelope\<close> succeeds iff the tier is valid and the mission payload can be encoded; its
  envelope is left unchanged by \<^verbatim>\<open>Validate\<close>, and accepted iff the origin, the vehicle, its type and
  its team are named, the clock did not read zero, and the rounded values are in range, which they are
  when the values given are.\<close>

theorem NewTelemetryEnvelope_validates:
  assumes "physical t"
  shows "(if ValidTiers c \<and> payload_finite (MissionPayload t)
      then \<exists>e. NewTelemetryEnvelope L now1 now2 c origin t caveats = ok e \<and> snd (Validate L (Some e)) = Some e \<and>
        (fst (Validate L (Some e)) = ok () \<longleftrightarrow>
           origin \<noteq> '''' \<and> now2 \<noteq> 0 \<and> VehicleID t \<noteq> '''' \<and> VehicleType t \<noteq> '''' \<and> Team t \<noteq> '''' \<and>
           in_bounds (Normalize t))
      else \<exists>err. NewTelemetryEnvelope L now1 now2 c origin t caveats = fail err) \<and>
    (in_bounds t \<longrightarrow> in_bounds (Normalize t))"
  using telemetry_envelope_cases [OF assms] physical_in_bounds [OF assms] by blast

text \<open>The sample's envelope is accepted; without an origin it is built all the same, and refused.\<close>

theorem NewTelemetryEnvelope_validates_witness:
  "\<forall>L. (\<exists>e. NewTelemetryEnvelope L 5 6 Tier2Restricted ''edge'' sample [] = ok e \<and>
       fst (Validate L (Some e)) = ok () \<and> snd (Validate L (Some e)) = Some e) \<and>
     (\<exists>e. NewTelemetryEnvelope L 5 6 Tier2Restricted '''' sample [] = ok e \<and> fst (Validate L (Some e)) \<noteq> ok ())"
proof
  fix L
  have p: "physical sample" "ValidTiers Tier2Restricted" by (simp_all add: ValidTiers_def)
  show "(\<exists>e. NewTelemetryEnvelope L 5 6 Tier2Restricted ''edge'' sample [] = ok e \<and>
       fst (Validate L (Some e)) = ok () \<and> snd (Validate L (Some e)) = Some e) \<and>
     (\<exists>e. NewTelemetryEnvelope L 5 6 Tier2Restricted '''' sample [] = ok e \<and> fst (Validate L (Some e)) \<noteq> ok ())"
    using NewTelemetryEnvelope_validates [OF p(1), of Tier2Restricted L 5 6 "''edge''" "[]"]
      NewTelemetryEnvelope_validates [OF p(1), of Tier2Restricted L 5 6 "''''" "[]"] p(2) by auto
qed

text \<open>C18. Validation is fail-closed: it never panics, and an envelope it accepts carries an
  authorised tier, an origin, a time and a digest, which is not empty and is, up to the case of its letters,
  the hash of the rounded payload's JSON text; telemetry that passes is named, has every float finite
  (a NaN passes the range comparisons, but then the digest cannot be computed), battery within
  0 to 100, latitude within 90 and longitude within 180 degrees, all read after the rounding
  \<^verbatim>\<open>Validate\<close> performs.\<close>

theorem Validate_fail_closed:
  "fst (Validate L env) \<noteq> None \<and>
   (fst (Validate L env) = ok () \<longrightarrow>
      (\<exists>e. env = Some e \<and> snd (Validate L env) = Some (normalized e) \<and>
        ValidTiers (Classification (Header e)) \<and> OriginEnclave (Header e) \<noteq> '''' \<and>
        TimestampNs (Header e) \<noteq> 0 \<and> Digest (Header e) \<noteq> '''' \<and>
        (\<exists>s. Marshal (payload_json (normalized e)) = ok s \<and> EqualFold L (Digest (Header e)) (digest_of s)) \<and>
        (case Telemetry (normalized e) of
           Some t \<Rightarrow> VehicleID t \<noteq> '''' \<and> VehicleType t \<noteq> '''' \<and> Team t \<noteq> '''' \<and> in_bounds t \<and>
             finite_json (json_telemetry t)
         | None \<Rightarrow> \<exists>c. Command e = Some c \<and> CommandID c \<noteq> '''' \<and> TargetVehicle c \<noteq> '''' \<and>
             CommandType c \<noteq> '''')))"
proof (intro conjI impI)
  show "fst (Validate L env) \<noteq> None" by (rule Validate_total)
next
  assume acc: "fst (Validate L env) = ok ()"
  then obtain e where e: "env = Some e" by (cases env) (auto simp: Validate_def)
  with acc have h: "check_header L (Header e) = None" and p: "payload_ok (normalized e)"
    and d: "\<exists>s. Marshal (payload_json (normalized e)) = ok s \<and> EqualFold L (Digest (Header e)) (digest_of s)"
    by (auto simp: Validate_ok_iff)
  from d have m: "finite_json (payload_json (normalized e))" using Marshal_ok_iff by blast
  show "\<exists>e. env = Some e \<and> snd (Validate L env) = Some (normalized e) \<and>
        ValidTiers (Classification (Header e)) \<and> OriginEnclave (Header e) \<noteq> '''' \<and>
        TimestampNs (Header e) \<noteq> 0 \<and> Digest (Header e) \<noteq> '''' \<and>
        (\<exists>s. Marshal (payload_json (normalized e)) = ok s \<and> EqualFold L (Digest (Header e)) (digest_of s)) \<and>
        (case Telemetry (normalized e) of
           Some t \<Rightarrow> VehicleID t \<noteq> '''' \<and> VehicleType t \<noteq> '''' \<and> Team t \<noteq> '''' \<and> in_bounds t \<and>
             finite_json (json_telemetry t)
         | None \<Rightarrow> \<exists>c. Command e = Some c \<and> CommandID c \<noteq> '''' \<and> TargetVehicle c \<noteq> '''' \<and>
             CommandType c \<noteq> '''')"
  proof (intro exI [of _ e] conjI)
    show "case Telemetry (normalized e) of
           Some t \<Rightarrow> VehicleID t \<noteq> '''' \<and> VehicleType t \<noteq> '''' \<and> Team t \<noteq> '''' \<and> in_bounds t \<and>
             finite_json (json_telemetry t)
         | None \<Rightarrow> \<exists>c. Command e = Some c \<and> CommandID c \<noteq> '''' \<and> TargetVehicle c \<noteq> '''' \<and>
             CommandType c \<noteq> ''''"
    proof (cases "Telemetry (normalized e)")
      case None
      with p show ?thesis by (auto simp: payload_ok_def check_command_def split: option.splits if_splits)
    next
      case (Some t)
      with m have "finite_json (json_telemetry t)" by (simp only: payload_json_def option.case)
      moreover have "check_telemetry t = None" using p Some by (simp only: payload_ok_def option.case)
      ultimately show ?thesis
        unfolding Some option.case using finite_json_telemetry [of t] check_telemetry_iff [of t] by simp
    qed
  qed (use e h d in \<open>simp_all add: check_header_None_iff Validate_snd\<close>)
qed

theorem Validate_fail_closed_witness:
  "\<forall>L. \<exists>e t. Validate L (Some e) = (ok (), Some e) \<and> Telemetry e = Some t \<and> in_bounds t \<and>
     ValidTiers (Classification (Header e)) \<and> Digest (Header e) \<noteq> ''''"
proof
  fix L
  obtain e where e: "Validate L (Some e) = (ok (), Some e)" "Telemetry e = Some (Normalize sample)"
    by (rule sample_envelope [of Tier2Restricted L "[]"]) (simp_all add: ValidTiers_def)
  with Validate_fail_closed [of L "Some e"]
  show "\<exists>e t. Validate L (Some e) = (ok (), Some e) \<and> Telemetry e = Some t \<and> in_bounds t \<and>
     ValidTiers (Classification (Header e)) \<and> Digest (Header e) \<noteq> ''''"
    by (intro exI [of _ e] exI [of _ "Normalize sample"]) (simp add: Normalize_idem)
qed

text \<open>C21. Integrity: two envelopes that validate under the same (ASCII) digest text carry
  payloads whose JSON texts have the same SHA-256; so an altered payload under an unaltered digest is
  accepted only at the price of a hash collision.\<close>

theorem Validate_binds_payload:
  assumes "fst (Validate L (Some e)) = ok ()" and "fst (Validate L (Some e')) = ok ()"
    and "Digest (Header e) = Digest (Header e')" and "is_ascii (Digest (Header e))"
  shows "\<exists>s s'. Marshal (payload_json (normalized e)) = ok s \<and> Marshal (payload_json (normalized e')) = ok s' \<and>
    sha256 (bytes_of s) = sha256 (bytes_of s')"
  using assms
  by (auto simp: Validate_ok_iff EqualFold_digest) (auto simp: digest_of_def EncodeToString_inject)

theorem Validate_binds_payload_witness:
  "\<forall>L. \<exists>e e'. Caveats (Header e) \<noteq> Caveats (Header e') \<and>
     (\<exists>s s'. Marshal (payload_json (normalized e)) = ok s \<and> Marshal (payload_json (normalized e')) = ok s' \<and>
       sha256 (bytes_of s) = sha256 (bytes_of s'))"
proof
  fix L
  have v: "ValidTiers Tier2Restricted" by (simp add: ValidTiers_def)
  obtain e s where e: "Validate L (Some e) = (ok (), Some e)" "Digest (Header e) = digest_of s" "Caveats (Header e) = []"
    "Marshal (json_telemetry (Normalize sample)) = ok s"
    by (rule sample_envelope [OF v, of L "[]"]) simp
  obtain e' s' where e': "Validate L (Some e') = (ok (), Some e')" "Digest (Header e') = digest_of s'" "Caveats (Header e') = [''x'']"
    "Marshal (json_telemetry (Normalize sample)) = ok s'"
    by (rule sample_envelope [OF v, of L "[''x'']"]) simp
  show "\<exists>e e'. Caveats (Header e) \<noteq> Caveats (Header e') \<and>
     (\<exists>s s'. Marshal (payload_json (normalized e)) = ok s \<and> Marshal (payload_json (normalized e')) = ok s' \<and>
       sha256 (bytes_of s) = sha256 (bytes_of s'))"
    using Validate_binds_payload [of L e e'] e e' by (intro exI [of _ e] exI [of _ e']) simp
qed




end
