(* ===== verification/Topic.thy ===== *)
theory Topic
  imports Schema
begin

text \<open>
  \<^verbatim>\<open>pkg/zenohutil/topic.go\<close> and \<^verbatim>\<open>MatchesSelector\<close> of
  \<^verbatim>\<open>client.go\<close>: the key expressions of the mesh, \<^verbatim>\<open>sec/<tier>/<type>/<team>/<unit>/<stream>\<close>,
  how they are built, parsed and matched against selectors.
\<close>

section \<open>Model\<close>

abbreviation slash :: char where "slash \<equiv> CHR ''/''"

record TopicInfo =
  ti_TierKey :: string
  ti_VehicleType :: string
  ti_Team :: string
  ti_UnitID :: string
  ti_StreamType :: string

definition TierToKey :: "string \<Rightarrow> string option" where
  "TierToKey = [Tier1Public \<mapsto> ''tier1'', Tier2Restricted \<mapsto> ''tier2'', Tier3Critical \<mapsto> ''tier3'']"

definition KeyToTier :: "string \<Rightarrow> string option" where
  "KeyToTier = [''tier1'' \<mapsto> Tier1Public, ''tier2'' \<mapsto> Tier2Restricted, ''tier3'' \<mapsto> Tier3Critical]"

definition BuildKey :: "golib \<Rightarrow> string \<Rightarrow> string \<Rightarrow> string \<Rightarrow> string \<Rightarrow> string \<Rightarrow> string" where
  "BuildKey L tierKey vehicleType team unitID streamType =
     ''sec/'' @ ToLower L tierKey @ ''/'' @ ToLower L vehicleType @ ''/'' @ ToLower L team @ ''/'' @
     ToLower L unitID @ ''/'' @ ToLower L streamType"

definition BuildTelemetryKey :: "golib \<Rightarrow> string \<Rightarrow> string \<Rightarrow> string \<Rightarrow> string \<Rightarrow> string go" where
  "BuildTelemetryKey L classification vehicleType team unitID =
     (case TierToKey classification of
        None \<Rightarrow> fail (''unknown classification for topic generation: '' @ classification)
      | Some tierKey \<Rightarrow> ok (BuildKey L tierKey vehicleType team unitID ''telemetry''))"

definition ParseKey :: "golib \<Rightarrow> string \<Rightarrow> TopicInfo go" where
  "ParseKey L key =
     (case split_on slash (trim slash key) of
        [sec, tier, vtype, team, unit, stream] \<Rightarrow>
          if sec = ''sec''
          then ok \<lparr>ti_TierKey = tier, ti_VehicleType = vtype, ti_Team = team, ti_UnitID = unit,
                   ti_StreamType = stream\<rparr>
          else fail (''invalid topic key format '' @ fmt_q L key @
                 '': expected sec/<tier>/<vehicle_type>/<team>/<unit_id>/<stream_type>'')
      | _ \<Rightarrow> fail (''invalid topic key format '' @ fmt_q L key @
                 '': expected sec/<tier>/<vehicle_type>/<team>/<unit_id>/<stream_type>''))"

text \<open>The two indices of \<^verbatim>\<open>MatchesSelector\<close> advance together: the loop walks the two
  lists of parts, and its three exits after the last common index are the last equations.\<close>

fun walk :: "string list \<Rightarrow> string list \<Rightarrow> bool" where
  "walk (s # ss) (k # ks) =
     (if s = ''**'' then True
      else if s = ''*'' \<or> s = k then walk ss ks
      else False)"
| "walk [] [] = True"
| "walk [s] [] = (s = ''**'')"
| "walk _ _ = False"

definition MatchesSelector :: "string \<Rightarrow> string \<Rightarrow> bool" where
  "MatchesSelector selector key =
     (if selector = ''**'' \<or> selector = key then True
      else walk (split_on slash selector) (split_on slash key))"

section \<open>Keys\<close>

lemma lower_char_slash: "lower_char c = slash \<longleftrightarrow> c = slash"
proof (cases "65 \<le> (of_char c :: nat) \<and> (of_char c :: nat) \<le> 90")
  case True
  define n where "n = (of_char c :: nat)"
  have r: "65 \<le> n" "n \<le> 90" using True by (simp_all add: n_def)
  have "lower_char c = char_of (n + 32)" using r by (simp add: lower_char_def n_def [symmetric])
  then have "(of_char (lower_char c) :: nat) = n + 32" using r by simp
  then have "(of_char (lower_char c) :: nat) \<noteq> of_char slash" using r by simp
  then have "lower_char c \<noteq> slash" by metis
  moreover have "c \<noteq> slash" using r unfolding n_def by auto
  ultimately show ?thesis by blast
next
  case False
  then have "lower_char c = c" unfolding lower_char_def Let_def by (rule if_not_P)
  then show ?thesis by simp
qed

lemma lower_free: "slash \<notin> set s \<Longrightarrow> slash \<notin> lower_char ` set s"
proof
  assume "slash \<notin> set s" "slash \<in> lower_char ` set s"
  then obtain c where "c \<in> set s" "lower_char c = slash" by auto
  with \<open>slash \<notin> set s\<close> show False by (simp add: lower_char_slash)
qed

definition token :: "string \<Rightarrow> bool" where
  "token s \<longleftrightarrow> is_ascii s \<and> slash \<notin> set s"

lemma token_lower: "token s \<Longrightarrow> ToLower L s = map lower_char s" "token s \<Longrightarrow> slash \<notin> set (ToLower L s)"
  using lower_free [of s] by (auto simp: token_def ToLower_def)

lemma split_key:
  "slash \<notin> set a \<Longrightarrow> slash \<notin> set b \<Longrightarrow> slash \<notin> set c \<Longrightarrow> slash \<notin> set d \<Longrightarrow> slash \<notin> set e \<Longrightarrow>
   split_on slash (''sec/'' @ a @ ''/'' @ b @ ''/'' @ c @ ''/'' @ d @ ''/'' @ e) = [''sec'', a, b, c, d, e]"
  using split_on_append [of slash "''sec''"] by (simp add: split_on_append split_on_free)

lemma join6: "split_on slash s = [a, b, c, d, e, f] \<Longrightarrow> s = a @ ''/'' @ b @ ''/'' @ c @ ''/'' @ d @ ''/'' @ e @ ''/'' @ f"
  using split_on_join [of slash s] by (simp only: list.map concat.simps append_Nil2) simp

lemma ParseKey_ok_iff:
  "ParseKey L key = ok i \<longleftrightarrow>
     split_on slash (trim slash key) = [''sec'', ti_TierKey i, ti_VehicleType i, ti_Team i, ti_UnitID i, ti_StreamType i]"
  by (cases i) (auto simp: ParseKey_def split: list.splits if_splits)

lemma ParseKey_total: "ParseKey L key \<noteq> None"
  by (auto simp: ParseKey_def simp del: not_None_eq split: list.splits if_splits)

lemma BuildKey_prefix: "HasPrefix (BuildKey L tier v t u s) (''sec/'' @ ToLower L tier @ ''/'')"
  by (simp add: HasPrefix_def BuildKey_def prefix_def)

section \<open>Selectors\<close>

lemma walk_Nil: "walk ss [] \<longleftrightarrow> ss = [] \<or> ss = [''**'']"
  by (cases ss; cases "tl ss") auto

text \<open>A prefix of \<open>n\<close> parts matched one to one, then either both sides end or the selector has
  \<^verbatim>\<open>**\<close>, which takes every remaining part if there is one, and may stand for nothing only at
  the selector's end.\<close>

definition selects :: "string list \<Rightarrow> string list \<Rightarrow> nat \<Rightarrow> bool" where
  "selects ss ks n \<longleftrightarrow>
     n \<le> length ss \<and> n \<le> length ks \<and>
     (\<forall>i<n. ss ! i \<noteq> ''**'' \<and> (ss ! i = ''*'' \<or> ss ! i = ks ! i)) \<and>
     (n = length ss \<and> n = length ks \<or>
      n < length ss \<and> ss ! n = ''**'' \<and> (n < length ks \<or> Suc n = length ss))"

lemma selects_0: "selects ss ks 0 \<longleftrightarrow> ss = [] \<and> ks = [] \<or> ss \<noteq> [] \<and> hd ss = ''**'' \<and> (ks \<noteq> [] \<or> length ss = 1)"
  by (auto simp: selects_def hd_conv_nth)

lemma selects_Suc:
  "selects (s # ss) (k # ks) (Suc n) \<longleftrightarrow> s \<noteq> ''**'' \<and> (s = ''*'' \<or> s = k) \<and> selects ss ks n"
  unfolding selects_def by (simp add: All_less_Suc2) blast

lemma ex_nat: "(\<exists>n. P n) \<longleftrightarrow> P 0 \<or> (\<exists>n. P (Suc n))"
  by (metis not0_implies_Suc)

lemma walk_iff: "walk ss ks \<longleftrightarrow> (\<exists>n. selects ss ks n)"
proof (induction ss ks rule: walk.induct)
  case (1 s ss k ks)
  have "(\<exists>n. selects (s # ss) (k # ks) n) \<longleftrightarrow> s = ''**'' \<or> (\<exists>n. selects (s # ss) (k # ks) (Suc n))"
    by (subst ex_nat) (simp add: selects_0)
  with 1 show ?case by (auto simp: selects_Suc)
qed (auto simp: selects_def)

lemma BuildKey_tokens:
  assumes "token tier" "token vtype" "token team" "token unit" "token stream"
  shows "BuildKey L tier vtype team unit stream =
      ''sec/'' @ map lower_char tier @ ''/'' @ map lower_char vtype @ ''/'' @ map lower_char team @
      ''/'' @ map lower_char unit @ ''/'' @ map lower_char stream"
    and "split_on slash (BuildKey L tier vtype team unit stream) =
      [''sec'', map lower_char tier, map lower_char vtype, map lower_char team, map lower_char unit, map lower_char stream]"
proof -
  show k: "BuildKey L tier vtype team unit stream =
      ''sec/'' @ map lower_char tier @ ''/'' @ map lower_char vtype @ ''/'' @ map lower_char team @
      ''/'' @ map lower_char unit @ ''/'' @ map lower_char stream"
    using assms by (simp add: BuildKey_def token_lower)
  show "split_on slash (BuildKey L tier vtype team unit stream) =
      [''sec'', map lower_char tier, map lower_char vtype, map lower_char team, map lower_char unit, map lower_char stream]"
    unfolding k using assms by (intro split_key) (simp_all add: token_def lower_free)
qed

lemma ParseKey_tokens:
  assumes "token tier" "token vtype" "token team" "token unit" "token stream" and "stream \<noteq> ''''"
  shows "ParseKey L (BuildKey L tier vtype team unit stream) =
    ok \<lparr>ti_TierKey = map lower_char tier, ti_VehicleType = map lower_char vtype,
        ti_Team = map lower_char team, ti_UnitID = map lower_char unit,
        ti_StreamType = map lower_char stream\<rparr>"
proof -
  let ?k = "BuildKey L tier vtype team unit stream"
  note k = BuildKey_tokens [OF assms(1-5), of L]
  have "last ?k = last (map lower_char stream)" unfolding k(1) using assms(6) by simp
  also have "\<dots> \<noteq> slash"
    using assms(5,6) lower_free [of stream] last_in_set [of "map lower_char stream"]
    by (auto simp: token_def)
  finally have "trim slash ?k = ?k" by (intro trim_id) (simp_all add: k(1))
  then show ?thesis using k(2) by (simp add: ParseKey_ok_iff)
qed

lemma lower_char_idem [simp]: "lower_char (lower_char c) = lower_char c"
  by (auto simp: lower_char_def Let_def)

lemma map_lower_idem [simp]: "map lower_char (map lower_char s) = map lower_char s"
  by simp

lemma is_ascii_lower [simp]: "is_ascii (map lower_char s) = is_ascii s"
  by (induction s) (auto simp: is_ascii_def lower_char_def Let_def)

lemma token_map_lower [simp]: "token s \<Longrightarrow> token (map lower_char s)"
  using lower_free [of s] by (simp add: token_def)

section \<open>Properties\<close>

text \<open>C35. Keys round-trip: parsing a key built from slash-free ASCII tokens with a stream type
  returns exactly the tokens, in lower case.\<close>

theorem ParseKey_BuildKey:
  assumes "token tier" "token vtype" "token team" "token unit" "token stream" and "stream \<noteq> ''''"
  shows "ParseKey L (BuildKey L tier vtype team unit stream) =
    ok \<lparr>ti_TierKey = map lower_char tier, ti_VehicleType = map lower_char vtype,
        ti_Team = map lower_char team, ti_UnitID = map lower_char unit,
        ti_StreamType = map lower_char stream\<rparr>"
  by (rule ParseKey_tokens [OF assms])

theorem ParseKey_BuildKey_witness:
  "\<forall>L. ParseKey L (BuildKey L ''tier2'' ''drone'' ''Blue'' ''alpha'' ''telemetry'') =
    ok \<lparr>ti_TierKey = ''tier2'', ti_VehicleType = ''drone'', ti_Team = ''blue'', ti_UnitID = ''alpha'',
        ti_StreamType = ''telemetry''\<rparr>"
proof
  fix L
  have m: "map lower_char ''tier2'' = ''tier2''" "map lower_char ''drone'' = ''drone''"
    "map lower_char ''Blue'' = ''blue''" "map lower_char ''alpha'' = ''alpha''"
    "map lower_char ''telemetry'' = ''telemetry''"
    by code_simp+
  show "ParseKey L (BuildKey L ''tier2'' ''drone'' ''Blue'' ''alpha'' ''telemetry'') =
    ok \<lparr>ti_TierKey = ''tier2'', ti_VehicleType = ''drone'', ti_Team = ''blue'', ti_UnitID = ''alpha'',
        ti_StreamType = ''telemetry''\<rparr>"
    by (subst ParseKey_BuildKey) (simp_all only: m, simp_all add: token_def is_ascii_def)
qed

text \<open>C36. \<^verbatim>\<open>MatchesSelector\<close> meets its specification: a selector matches a key iff they
  are equal, or it is \<^verbatim>\<open>**\<close>, or their parts agree one to one (\<^verbatim>\<open>*\<close> agreeing with
  any part) up to the end of both or up to a \<^verbatim>\<open>**\<close>, which then swallows whatever is left of the
  key, together with whatever the selector says after it.\<close>

theorem MatchesSelector_iff:
  "MatchesSelector selector key \<longleftrightarrow>
     selector = ''**'' \<or> selector = key \<or> (\<exists>n. selects (split_on slash selector) (split_on slash key) n)"
  by (auto simp: MatchesSelector_def walk_iff)

text \<open>A \<^verbatim>\<open>**\<close> in the middle is not a Zenoh double wild: everything after it is
  ignored, so a selector for one stream type matches the keys of every other stream.\<close>

theorem double_wild_ignores_rest:
  assumes "token tier" "tier \<noteq> ''''"
  shows "MatchesSelector (''sec/**/'' @ wanted) (''sec/'' @ tier @ ''/'' @ rest)"
proof -
  have s: "split_on slash (''sec/**/'' @ wanted) = [''sec'', ''**''] @ split_on slash wanted" by simp
  have k: "split_on slash (''sec/'' @ tier @ ''/'' @ rest) = [''sec'', tier] @ split_on slash rest"
    using split_on_append [of slash tier rest] assms(1) by (simp add: token_def)
  show ?thesis by (simp only: MatchesSelector_def s k) simp
qed

theorem double_wild_ignores_rest_witness:
  "MatchesSelector ''sec/**/command'' ''sec/tier3/drone/blue/alpha/telemetry''"
  using double_wild_ignores_rest [of "''tier3''" "''command''" "''drone/blue/alpha/telemetry''"]
  by (simp add: token_def is_ascii_def)

end
