(* ===== verification/Bus.thy ===== *)
theory Bus
  imports Topic "HOL-Library.Multiset"
begin

text \<open>
  \<^verbatim>\<open>pkg/zenohutil/client.go\<close>: the pub/sub interface, the in-memory bus and the REST client
  of the Zenoh router. The interface is the locale \<open>message_bus\<close>; it is interpreted on both
  implementations, and the components that publish (the data mule, the guard, the gateway) are proved
  against it.

  The in-memory bus starts a goroutine per matching handler and iterates over a Go map, so a
  publication yields a multiset of pending calls, without an order. Handlers are values of any type.
  The REST client's transport (\<^verbatim>\<open>net/http\<close>) is a parameter.
\<close>

section \<open>In-memory bus\<close>

text \<open>A pending call: handler, key, payload.\<close>

type_synonym 'h call = "'h \<times> string \<times> string"

record 'h MemoryBus =
  mb_subscribers :: "(string \<times> 'h list) list"
  mb_closed :: bool

definition NewMemoryBus :: "'h MemoryBus" where
  "NewMemoryBus = \<lparr>mb_subscribers = [], mb_closed = False\<rparr>"

definition Publish :: "'h MemoryBus \<Rightarrow> string \<Rightarrow> string \<Rightarrow> string + 'h call multiset" where
  "Publish m key payload =
     (if mb_closed m then Inl ''bus is closed''
      else Inr (mset (concat (map (\<lambda>(selector, handlers).
                  if MatchesSelector selector key then map (\<lambda>h. (h, key, payload)) handlers else [])
                (mb_subscribers m)))))"

text \<open>\<^verbatim>\<open>m.subscribers[selector] = append(m.subscribers[selector], handler)\<close>\<close>

fun add_handler :: "string \<Rightarrow> 'h \<Rightarrow> (string \<times> 'h list) list \<Rightarrow> (string \<times> 'h list) list" where
  "add_handler selector h [] = [(selector, [h])]"
| "add_handler selector h ((s, hs) # ss) =
     (if s = selector then (s, hs @ [h]) # ss else (s, hs) # add_handler selector h ss)"

definition Subscribe :: "'h MemoryBus \<Rightarrow> string \<Rightarrow> 'h \<Rightarrow> string + 'h MemoryBus" where
  "Subscribe m selector h =
     (if mb_closed m then Inl ''bus is closed''
      else Inr (m\<lparr>mb_subscribers := add_handler selector h (mb_subscribers m)\<rparr>))"

definition Close_bus :: "'h MemoryBus \<Rightarrow> 'h MemoryBus" where
  "Close_bus m = m\<lparr>mb_closed := True, mb_subscribers := []\<rparr>"

section \<open>REST client\<close>

text \<open>What the transport answers to a request: an error, or a status code and a body.\<close>

type_synonym response = "string + int \<times> string"

record RESTClient =
  rc_baseURL :: string

definition NewRESTClient :: "string \<Rightarrow> RESTClient" where
  "NewRESTClient baseURL = \<lparr>rc_baseURL = trim_right slash baseURL\<rparr>"

definition rest_url :: "RESTClient \<Rightarrow> string \<Rightarrow> string" where
  "rest_url c key = rc_baseURL c @ ''/'' @ trim_left slash key"

text \<open>\<open>put url body\<close> is the HTTP PUT (request construction and \<^verbatim>\<open>Do\<close>); the request is sent
  with a JSON content type. \<open>None\<close> is success.\<close>

definition Publish_rest :: "(string \<Rightarrow> string \<Rightarrow> response) \<Rightarrow> RESTClient \<Rightarrow> string \<Rightarrow> string \<Rightarrow> string option" where
  "Publish_rest put c key payload =
     (case put (rest_url c key) payload of
        Inl err \<Rightarrow> Some (''zenoh REST put failed for '' @ key @ '': '' @ err)
      | Inr (status, body) \<Rightarrow>
          if status < 200 \<or> 300 \<le> status
          then Some (''zenoh REST put returned HTTP '' @ fmt_d status @ '': '' @ body)
          else None)"

definition Query :: "(string \<Rightarrow> response) \<Rightarrow> RESTClient \<Rightarrow> string \<Rightarrow> string go" where
  "Query get c selector =
     (case get (rest_url c selector) of
        Inl err \<Rightarrow> fail (''zenoh REST query failed: '' @ err)
      | Inr (status, body) \<Rightarrow>
          if status \<noteq> 200 then fail (''query returned HTTP '' @ fmt_d status) else ok body)"

text \<open>
  One line of the event stream of \<^verbatim>\<open>Subscribe\<close>: the call of the handler it causes, if any.
  \<open>decode\<close> is \<^verbatim>\<open>json.Unmarshal\<close> into the event struct (key, raw value), \<open>decode_str\<close>
  into a string.
\<close>

definition sse_line ::
  "golib \<Rightarrow> (string \<Rightarrow> (string \<times> string) option) \<Rightarrow> (string \<Rightarrow> string option) \<Rightarrow> string \<Rightarrow> string
     \<Rightarrow> (string \<times> string) option" where
  "sse_line L decode decode_str selector line =
     (let line = TrimSpace L line
      in if HasPrefix line ''data:''
         then let dataBytes = TrimSpace L (TrimPrefix line ''data:'');
                  (actualKey, payloadBytes) =
                    (case decode dataBytes of
                       Some (key, value) \<Rightarrow>
                         if key \<noteq> ''''
                         then (key, case decode_str value of
                                      Some s \<Rightarrow> s
                                    | None \<Rightarrow> if value \<noteq> '''' then value else dataBytes)
                         else (selector, dataBytes)
                     | None \<Rightarrow> (selector, dataBytes))
              in if \<not> MatchesSelector selector actualKey then None else Some (actualKey, payloadBytes)
         else None)"

text \<open>The calls a connection makes, line by line, until it drops.\<close>

definition sse_stream ::
  "golib \<Rightarrow> (string \<Rightarrow> (string \<times> string) option) \<Rightarrow> (string \<Rightarrow> string option) \<Rightarrow> string \<Rightarrow> string list
     \<Rightarrow> (string \<times> string) list" where
  "sse_stream L decode decode_str selector lines = List.map_filter (sse_line L decode decode_str selector) lines"

text \<open>
  The goroutine of \<^verbatim>\<open>Subscribe\<close>: it makes connection after connection until its context is
  cancelled, after an error too. Each is a request that cannot be made, one that fails, or the bytes that
  arrive before the stream drops (or the context is cancelled), of which a last line without its newline
  is not looked at.
\<close>

datatype connection = RequestError string | ConnectError string | EventStream string

definition complete_lines :: "string \<Rightarrow> string list" where
  "complete_lines body = butlast (split_on (CHR 0x0A) body)"

fun sse_calls ::
  "golib \<Rightarrow> (string \<Rightarrow> (string \<times> string) option) \<Rightarrow> (string \<Rightarrow> string option) \<Rightarrow> string \<Rightarrow> connection list
     \<Rightarrow> (string \<times> string) list" where
  "sse_calls L decode decode_str selector [] = []"
| "sse_calls L decode decode_str selector (RequestError err # cs) = sse_calls L decode decode_str selector cs"
| "sse_calls L decode decode_str selector (ConnectError err # cs) = sse_calls L decode decode_str selector cs"
| "sse_calls L decode decode_str selector (EventStream body # cs) =
     sse_stream L decode decode_str selector (complete_lines body) @ sse_calls L decode decode_str selector cs"

text \<open>\<^verbatim>\<open>Subscribe\<close>: the requests go to \<open>rest_url\<close>, \<open>connect\<close> being what comes of them.\<close>

definition Subscribe_rest ::
  "golib \<Rightarrow> (string \<Rightarrow> (string \<times> string) option) \<Rightarrow> (string \<Rightarrow> string option) \<Rightarrow> (string \<Rightarrow> connection list)
     \<Rightarrow> RESTClient \<Rightarrow> string \<Rightarrow> (string \<times> string) list" where
  "Subscribe_rest L decode decode_str connect c selector =
     sse_calls L decode decode_str selector (connect (rest_url c selector))"

definition Close_rest :: "RESTClient \<Rightarrow> RESTClient" where "Close_rest c = c"

lemma sse_line_matches: "sse_line L decode decode_str selector line = Some (key, payload) \<Longrightarrow> MatchesSelector selector key"
  by (auto simp: sse_line_def Let_def split: if_splits option.splits prod.splits)

lemma sse_calls_match:
  "(key, payload) \<in> set (sse_calls L decode decode_str selector cs) \<Longrightarrow> MatchesSelector selector key"
  by (induction L decode decode_str selector cs rule: sse_calls.induct)
    (auto simp: sse_stream_def List.map_filter_def dest: sse_line_matches)

section \<open>Envelopes on the wire\<close>

text \<open>\<^verbatim>\<open>json.Unmarshal\<close> into an envelope is the parameter \<open>unmarshal\<close>: an error text or the
  envelope.\<close>

definition ParseJSONEnvelope :: "(string \<Rightarrow> string + SecurityEnvelope) \<Rightarrow> string \<Rightarrow> string + SecurityEnvelope" where
  "ParseJSONEnvelope unmarshal payload =
     (case unmarshal payload of
        Inl err \<Rightarrow> Inl (''unmarshalling envelope: '' @ err)
      | Inr env \<Rightarrow> Inr env)"

section \<open>The bus interface\<close>

text \<open>
  \<open>pub b k p\<close> publishes and answers with the new state and an error, if any; \<open>accepted\<close> lists
  the publications the bus took, oldest first.
\<close>

locale message_bus =
  fixes pub :: "'b \<Rightarrow> string \<Rightarrow> string \<Rightarrow> 'b \<times> string option" and accepted :: "'b \<Rightarrow> (string \<times> string) list"
  assumes pub_ok: "pub b k p = (b', None) \<Longrightarrow> accepted b' = accepted b @ [(k, p)]"
    and pub_fail: "pub b k p = (b', Some e) \<Longrightarrow> accepted b' = accepted b"
begin

lemma pub_accepted:
  "accepted (fst (pub b k p)) = accepted b @ (if snd (pub b k p) = None then [(k, p)] else [])"
  using pub_ok [of b k p] pub_fail [of b k p] by (cases "pub b k p"; cases "snd (pub b k p)") auto

end

text \<open>The in-memory bus with the record of what it took and of the calls it started.\<close>

record 'h bus_state =
  bs_bus :: "'h MemoryBus"
  bs_accepted :: "(string \<times> string) list"
  bs_calls :: "'h call multiset"

definition publish_memory :: "'h bus_state \<Rightarrow> string \<Rightarrow> string \<Rightarrow> 'h bus_state \<times> string option" where
  "publish_memory b key payload =
     (case Publish (bs_bus b) key payload of
        Inl err \<Rightarrow> (b, Some err)
      | Inr calls \<Rightarrow> (b\<lparr>bs_accepted := bs_accepted b @ [(key, payload)], bs_calls := bs_calls b + calls\<rparr>, None))"

interpretation memory: message_bus publish_memory bs_accepted
  by unfold_locales (auto simp: publish_memory_def split: sum.splits)

text \<open>The REST client against a router that answers request by request.\<close>

record rest_state =
  rs_client :: RESTClient
  rs_answers :: "response list"
  rs_accepted :: "(string \<times> string) list"

definition publish_rest :: "rest_state \<Rightarrow> string \<Rightarrow> string \<Rightarrow> rest_state \<times> string option" where
  "publish_rest r key payload =
     (let answer = (case rs_answers r of [] \<Rightarrow> Inl ''no route to host'' | a # _ \<Rightarrow> a);
          res = Publish_rest (\<lambda>_ _. answer) (rs_client r) key payload;
          r = r\<lparr>rs_answers := tl (rs_answers r)\<rparr>
      in (if res = None then r\<lparr>rs_accepted := rs_accepted r @ [(key, payload)]\<rparr> else r, res))"

interpretation rest: message_bus publish_rest rs_accepted
  by unfold_locales (auto simp: publish_rest_def Let_def split: if_splits)

section \<open>Lemmas\<close>

text \<open>The subscriptions of a bus as a multiset of selector and handler: its abstract state.\<close>

definition subscriptions :: "'h MemoryBus \<Rightarrow> (string \<times> 'h) multiset" where
  "subscriptions m = mset (concat (map (\<lambda>(s, hs). map (Pair s) hs) (mb_subscribers m)))"

lemma mset_add_handler:
  "mset (concat (map (\<lambda>(s, hs). map (Pair s) hs) (add_handler selector h ss)))
     = add_mset (selector, h) (mset (concat (map (\<lambda>(s, hs). map (Pair s) hs) ss)))"
  by (induction ss) auto

lemma publish_calls:
  "mset (concat (map (\<lambda>(selector, handlers).
       if MatchesSelector selector key then map (\<lambda>h. (h, key, payload)) handlers else []) ss))
   = image_mset (\<lambda>(s, h). (h, key, payload))
       (filter_mset (\<lambda>(s, h). MatchesSelector s key) (mset (concat (map (\<lambda>(s, hs). map (Pair s) hs) ss))))"
proof (induction ss)
  case (Cons x ss)
  obtain s hs where x: "x = (s, hs)" by fastforce
  have "filter_mset (\<lambda>(s, h). MatchesSelector s key) (mset (map (Pair s) hs))
      = (if MatchesSelector s key then mset (map (Pair s) hs) else {#})"
    by (induction hs) auto
  moreover have "image_mset (\<lambda>(s, h). (h, key, payload)) (mset (map (Pair s) hs)) = mset (map (\<lambda>h. (h, key, payload)) hs)"
    by (induction hs) auto
  ultimately show ?case using Cons by (simp add: x)
qed simp

section \<open>Properties\<close>

text \<open>C37. The in-memory bus refines a multiset of subscriptions: subscribing adds one, publishing
  starts exactly one call for every subscription whose selector matches the key, with the published
  key and payload, and no other call; a closed bus refuses both and holds no subscription.\<close>

theorem MemoryBus_refines_subscriptions:
  "subscriptions (NewMemoryBus :: 'h MemoryBus) = {#} \<and>
   (\<forall>(m :: 'h MemoryBus) selector h. case Subscribe m selector h of
      Inl err \<Rightarrow> mb_closed m
    | Inr m' \<Rightarrow> \<not> mb_closed m \<and> \<not> mb_closed m' \<and> subscriptions m' = add_mset (selector, h) (subscriptions m)) \<and>
   (\<forall>(m :: 'h MemoryBus) key payload. case Publish m key payload of
      Inl err \<Rightarrow> mb_closed m
    | Inr calls \<Rightarrow> \<not> mb_closed m \<and> calls =
        image_mset (\<lambda>(s, h). (h, key, payload)) (filter_mset (\<lambda>(s, h). MatchesSelector s key) (subscriptions m))) \<and>
   (\<forall>m :: 'h MemoryBus. mb_closed (Close_bus m) \<and> subscriptions (Close_bus m) = {#})"
  by (auto simp: subscriptions_def NewMemoryBus_def Subscribe_def Publish_def Close_bus_def
      mset_add_handler publish_calls split: sum.splits if_splits)

end
