(* ===== verification/Policy.thy ===== *)
theory Policy
  imports Schema
begin

text \<open>
  \<^verbatim>\<open>pkg/policy/policy.go\<close>: the decision the cross-domain guard takes on an envelope
  (pass, redact, quarantine and the reason), and the sanitisation that turns a TIER-2 telemetry
  envelope into a TIER-1 one. \<^verbatim>\<open>Evaluate\<close> calls \<^verbatim>\<open>Validate\<close>, which rounds the
  envelope in place, so its model returns the envelope afterwards.
\<close>

section \<open>Model\<close>

datatype EnforcementAction = ActionPass | ActionRedactPass | ActionQuarantine

datatype CDSRejectionReason =
    ReasonNone
  | ReasonMalformedJSON
  | ReasonSchemaViolation
  | ReasonDigestMismatch
  | ReasonUnauthorizedTier
  | ReasonTier3EgressProhibited
  | ReasonInvalidCoordinates
  | ReasonBatteryViolation
  | ReasonMissingSecurityHeader
  | ReasonUnknownPolicyViolation

fun reason_text :: "CDSRejectionReason \<Rightarrow> string" where
  "reason_text ReasonNone = ''''"
| "reason_text ReasonMalformedJSON = ''MALFORMED_JSON_PAYLOAD''"
| "reason_text ReasonSchemaViolation = ''SCHEMA_VALIDATION_FAILURE''"
| "reason_text ReasonDigestMismatch = ''CRYPTOGRAPHIC_INTEGRITY_COMPROMISED''"
| "reason_text ReasonUnauthorizedTier = ''UNAUTHORIZED_SYNTHETIC_TIER''"
| "reason_text ReasonTier3EgressProhibited = ''TIER3_CRITICAL_EGRESS_PROHIBITED''"
| "reason_text ReasonInvalidCoordinates = ''COORDINATES_OUT_OF_BOUNDS''"
| "reason_text ReasonBatteryViolation = ''INVALID_BATTERY_LEVEL''"
| "reason_text ReasonMissingSecurityHeader = ''MISSING_SECURITY_HEADER''"
| "reason_text ReasonUnknownPolicyViolation = ''POLICY_VIOLATION_UNKNOWN''"

record PolicyEngine =
  GPSCoarsenDecimals :: nat

definition NewPolicyEngine :: "int \<Rightarrow> PolicyEngine" where
  "NewPolicyEngine gpsDecimals = \<lparr>GPSCoarsenDecimals = (if gpsDecimals \<le> 0 then 2 else nat gpsDecimals)\<rparr>"

definition RoundFloat :: "f64 \<Rightarrow> nat \<Rightarrow> f64" where
  "RoundFloat v precision = (let ratio = Pow_10 precision in Round (v * ratio) / ratio)"

text \<open>The reason is chosen by searching the text of the validation error.\<close>

definition classify :: "string \<Rightarrow> CDSRejectionReason" where
  "classify errStr =
     (if Contains errStr ''unauthorized'' then ReasonUnauthorizedTier
      else if Contains errStr ''missing'' then ReasonSchemaViolation
      else if Contains errStr ''battery'' then ReasonBatteryViolation
      else if Contains errStr ''coordinates out of bounds'' then ReasonInvalidCoordinates
      else ReasonDigestMismatch)"

text \<open>
  The result: action, reason and error text, and the envelope after validation. \<open>None\<close> would be a
  panic.
\<close>

definition Evaluate ::
  "golib \<Rightarrow> SecurityEnvelope option \<Rightarrow>
     (EnforcementAction \<times> CDSRejectionReason \<times> string option) option \<times> SecurityEnvelope option" where
  "Evaluate L env =
     (case env of
        None \<Rightarrow> (Some (ActionQuarantine, ReasonSchemaViolation, Some ''nil envelope''), None)
      | Some _ \<Rightarrow>
          (let (v, env') = Validate L env
           in (case v of
                 None \<Rightarrow> (None, env')
               | Some (Inl err) \<Rightarrow>
                   (Some (ActionQuarantine, classify err, Some (''integrity check failed: '' @ err)), env')
               | Some (Inr _) \<Rightarrow>
                   (let c = (case env' of Some e \<Rightarrow> Classification (Header e) | None \<Rightarrow> '''')
                    in ((if c = Tier1Public then Some (ActionPass, ReasonNone, None)
                         else if c = Tier2Restricted then Some (ActionRedactPass, ReasonNone, None)
                         else if c = Tier3Critical
                         then Some (ActionQuarantine, ReasonTier3EgressProhibited,
                                Some ''TIER-3: CRITICAL payload cannot egress tactical boundary'')
                         else Some (ActionQuarantine, ReasonUnauthorizedTier,
                                Some (''unrecognized classification tier: '' @ c))), env')))))"

definition sanitize_telemetry :: "PolicyEngine \<Rightarrow> TelemetryPayload \<Rightarrow> TelemetryPayload" where
  "sanitize_telemetry pe t =
     (let c = Coords t; d = GPSCoarsenDecimals pe
      in t\<lparr>Coords := \<lparr>Latitude = RoundFloat (Latitude c) d, Longitude = RoundFloat (Longitude c) d,
                      AltitudeM = Floor (AltitudeM c / lit 50) * lit 50\<rparr>,
           MissionPayload :=
             (if MissionPayload t \<noteq> None
              then Some [(''status'', JStr ''[REDACTED_BY_CDS]''), (''sanitized'', JBool True)]
              else MissionPayload t)\<rparr>)"

definition RedactAndSanitize :: "PolicyEngine \<Rightarrow> SecurityEnvelope option \<Rightarrow> SecurityEnvelope go" where
  "RedactAndSanitize pe env =
     (case env of
        None \<Rightarrow> fail ''cannot sanitize nil or non-telemetry envelope''
      | Some e \<Rightarrow>
          (case Telemetry e of
             None \<Rightarrow> fail ''cannot sanitize nil or non-telemetry envelope''
           | Some t \<Rightarrow>
               (let s = sanitize_telemetry pe t;
                    caveats = Caveats (Header e) @ [''REDACTED_FROM_TIER2'', ''SANITIZED_BY_CDS'']
                in try_go (ComputePayloadDigest (Some (json_telemetry s)))
                     (\<lambda>e. ''recomputing digest after sanitization: '' @ e)
                     (\<lambda>newDigest.
                        ok \<lparr>Header =
                              \<lparr>Classification = Tier1Public,
                               OriginEnclave = OriginEnclave (Header e) @ ''-CDS-SANITIZED'',
                               TimestampNs = TimestampNs (Header e),
                               MessageID = MessageID (Header e) @ ''-sanitized'',
                               Digest = newDigest, Caveats = caveats\<rparr>,
                            Telemetry = Some s, Command = None\<rparr>))))"

section \<open>The decision\<close>

lemma Evaluate_accepted:
  assumes "fst (Validate L (Some e)) = ok ()"
  shows "Evaluate L (Some e) =
    (if Classification (Header e) = Tier1Public then Some (ActionPass, ReasonNone, None)
     else if Classification (Header e) = Tier2Restricted then Some (ActionRedactPass, ReasonNone, None)
     else Some (ActionQuarantine, ReasonTier3EgressProhibited,
            Some ''TIER-3: CRITICAL payload cannot egress tactical boundary''), Some (normalized e))"
proof -
  have v: "Validate L (Some e) = (ok (), Some (normalized e))" by (rule Validate_ok_pair [OF assms])
  have "ValidTiers (Classification (Header e))"
    using assms by (simp add: Validate_ok_iff check_header_None_iff)
  then show ?thesis
    unfolding Evaluate_def v option.case prod.case ok_def sum.case Let_def normalized_simps
    by (auto simp: ValidTiers_def)
qed

lemma Evaluate_refused:
  assumes "fst (Validate L (Some e)) = fail err"
  shows "Evaluate L (Some e) =
    (Some (ActionQuarantine, classify err, Some (''integrity check failed: '' @ err)), snd (Validate L (Some e)))"
  unfolding Evaluate_def option.case assms [unfolded fail_def] case_prod_beta Let_def by (simp add: assms [unfolded fail_def])

lemma Evaluate_cases:
  obtains (pass) "fst (Validate L (Some e)) = ok ()" "Classification (Header e) = Tier1Public"
      "Evaluate L (Some e) = (Some (ActionPass, ReasonNone, None), Some (normalized e))"
  | (redact) "fst (Validate L (Some e)) = ok ()" "Classification (Header e) = Tier2Restricted"
      "Evaluate L (Some e) = (Some (ActionRedactPass, ReasonNone, None), Some (normalized e))"
  | (quarantine) reason err env' where
      "fst (Validate L (Some e)) \<noteq> ok () \<or> Classification (Header e) = Tier3Critical"
      "Evaluate L (Some e) = (Some (ActionQuarantine, reason, Some err), Some env')"
      "Header env' = Header e"
proof (cases "fst (Validate L (Some e))" rule: go_cases)
  case panic
  then show ?thesis using Validate_total by blast
next
  case (error e')
  then show ?thesis using Evaluate_refused [OF error] Validate_snd [of L e] quarantine by (auto split: if_splits)
next
  case (result v)
  then have ok: "fst (Validate L (Some e)) = ok ()" by simp
  then have "ValidTiers (Classification (Header e))"
    by (simp add: Validate_ok_iff check_header_None_iff)
  then show ?thesis
    using Evaluate_accepted [OF ok] ok pass redact quarantine
    by (cases "Classification (Header e) = Tier1Public"; cases "Classification (Header e) = Tier2Restricted")
      (auto simp: ValidTiers_def)
qed

section \<open>Sanitisation\<close>

lemma RoundFloat_round_with: "d \<le> 22 \<Longrightarrow> RoundFloat v d = round_with (Fin (dec d)) v"
  by (simp add: RoundFloat_def round_with_def Pow_10_dec Let_def)

lemma grid_size_180: "d \<le> 12 \<Longrightarrow> C \<le> 180 \<Longrightarrow> C * 10 ^ d \<le> (2::int) ^ 50"
proof -
  assume d: "d \<le> 12" and C: "C \<le> 180"
  have "C * 10 ^ d \<le> 180 * 10 ^ d" using C by (intro mult_right_mono) simp_all
  also have "\<dots> \<le> 180 * 10 ^ 12" using d by (intro mult_left_mono power_increasing) simp_all
  also have "\<dots> \<le> (2::int) ^ 50" by simp
  finally show ?thesis .
qed

lemma RoundFloat_grid:
  assumes "sized C v" and "d \<le> 12" and "C \<le> 180"
  shows "on_grid d C (RoundFloat v d)"
proof -
  have "C * 10 ^ d < 2 ^ 53" by (rule order_le_less_trans [OF grid_size_180 [OF assms(2,3)]]) simp
  then show ?thesis using assms round_with_grid [of v C d]
    by (simp add: RoundFloat_round_with sized_def)
qed

text \<open>A coordinate that was already rounded to six decimals stays on that grid when it is coarsened:
  either the coarser grid is contained in it, or rounding to a finer one changes nothing.\<close>

lemma RoundFloat_stable:
  assumes "on_grid 6 C v" and "d \<le> 12" and "0 \<le> C" and "C \<le> 180"
  shows "on_grid 6 C (RoundFloat v d)" and "sized C (RoundFloat v d)"
proof -
  have s: "sized C v" using assms on_grid_sized [of 6 C v] by simp
  show g: "on_grid 6 C (RoundFloat v d)"
  proof (cases "d \<le> 6")
    case True
    then show ?thesis using on_grid_finer [OF RoundFloat_grid [OF s assms(2,4)]] by blast
  next
    case False
    then have "on_grid d C v" using on_grid_finer [OF assms(1)] by simp
    then have "round_with (Fin (dec d)) v = v"
      using assms(2,4) grid_size_180 [of d C] by (intro on_grid_fixed) simp_all
    then show ?thesis using assms by (simp add: RoundFloat_round_with)
  qed
  show "sized C (RoundFloat v d)" using on_grid_sized [OF g] assms(3,4) by simp
qed

text \<open>Altitudes become multiples of 50 metres.\<close>

definition quantize :: "f64 \<Rightarrow> f64" where
  "quantize a = Floor (a / lit 50) * lit 50"

lemma lit_50: "lit 50 = Fin 50"
  using lit_int [of 50] by simp

lemma Floor_zero64 [simp]: "Floor (zero64 s) = zero64 s"
  by (simp add: zero64_def)

lemma quantize_zero64 [simp]: "quantize (zero64 s) = zero64 s"
  by (simp add: quantize_def lit_50)

lemma fl_rat_abs_error: "\<bar>x\<bar> \<le> 2 ^ 25 \<Longrightarrow> \<bar>fl_rat x - x\<bar> \<le> 1 / 2 ^ 28"
proof (cases "pow2 (- 1022) \<le> \<bar>x\<bar>")
  case True
  assume x: "\<bar>x\<bar> \<le> 2 ^ 25"
  have "\<bar>fl_rat x - x\<bar> \<le> \<bar>x\<bar> / 2 ^ 53" by (rule fl_rat_rel_error [OF True])
  also have "\<dots> \<le> 2 ^ 25 / 2 ^ 53" using x by (rule divide_right_mono) simp
  finally show ?thesis by simp
next
  case False
  then have a: "\<bar>x\<bar> \<le> pow2 (- 1022)" by simp
  have "\<bar>fl_rat x\<bar> \<le> pow2 (- 1022)"
    using fl_rat_bound(1) [OF repr_pow2, of "- 1022" x] fl_rat_bound(2) [OF repr_minus [OF repr_pow2], of "- 1022" x] a
    by (simp add: abs_le_iff)
  then have "\<bar>fl_rat x - x\<bar> \<le> 2 * pow2 (- 1022)" using a by linarith
  also have "\<dots> \<le> 2 * (1 / 2 ^ 100)" by (intro mult_left_mono small_ge) simp
  also have "\<dots> \<le> 1 / 2 ^ 28" by simp
  finally show ?thesis .
qed

lemma quantize_quotient:
  assumes "sized (10 ^ 9) a" and "val a \<noteq> 0"
  obtains y where "a / lit 50 = (if y = 0 then zero64 (val a / 50 < 0) else Fin y)"
    and "\<bar>y - val a / 50\<bar> \<le> 1 / 2 ^ 28" and "\<bar>y\<bar> \<le> of_int (2 * 10 ^ 7)"
proof -
  have a: "a = Fin (val a)" using assms by (cases a) (simp_all add: sized_def)
  define x where "x = val a / 50"
  have "\<bar>val a\<bar> \<le> 10 ^ 9" using assms(1) by (simp add: sized_def)
  then have x: "\<bar>x\<bar> \<le> of_int (2 * 10 ^ 7)" by (simp add: x_def)
  then have x25: "\<bar>x\<bar> \<le> 2 ^ 25" by simp
  have "a / lit 50 = fl x" using assms(2) a by (metis Fin_div lit_50 x_def zero_neq_numeral)
  moreover have "\<bar>x\<bar> \<le> pow2 1023" using x int_bound_pow2 [of "2 * 10 ^ 7"] by simp
  ultimately have "a / lit 50 = (if fl_rat x = 0 then zero64 (x < 0) else Fin (fl_rat x))" by (simp add: fl_cases)
  moreover have "\<bar>fl_rat x\<bar> \<le> of_int (2 * 10 ^ 7)" by (rule repr_int_bound [OF x]) simp
  ultimately show thesis using fl_rat_abs_error [OF x25] that [of "fl_rat x"] by (simp add: x_def)
qed

lemma quantize_spec:
  assumes "sized (10 ^ 9) a"
  obtains n where "val (quantize a) = 50 * of_int n" and "\<bar>n\<bar> \<le> 2 * 10 ^ 7"
    and "quantize a = Fin (50 * of_int n) \<or> quantize a = NegZero \<and> n = 0"
    and "50 * of_int n \<le> val a + 1 / 10 ^ 6" and "val a < 50 * of_int n + 50 + 1 / 10 ^ 6"
proof (cases "val a = 0")
  case True
  with assms have "a = zero64 (signbit a)" by (cases a) (simp_all add: sized_def zero64_def)
  then have "quantize a = zero64 (signbit a)" using quantize_zero64 by metis
  with True show ?thesis by (intro that [of 0]) (simp_all add: zero64_def)
next
  case False
  obtain y where q: "a / lit 50 = (if y = 0 then zero64 (val a / 50 < 0) else Fin y)"
    and err: "\<bar>y - val a / 50\<bar> \<le> 1 / 2 ^ 28" and yb: "\<bar>y\<bar> \<le> of_int (2 * 10 ^ 7)"
    by (rule quantize_quotient [OF assms False])
  define n where "n = \<lfloor>y\<rfloor>"
  have n: "of_int n \<le> y" "y < of_int n + 1" unfolding n_def by linarith+
  have "y \<le> of_int (2 * 10 ^ 7)" "of_int (- (2 * 10 ^ 7)) \<le> y" using yb by (simp_all add: abs_le_iff)
  then have "n \<le> 2 * 10 ^ 7" "- (2 * 10 ^ 7) \<le> n"
    unfolding n_def by (simp_all add: floor_le_iff le_floor_iff)
  then have nb: "\<bar>n\<bar> \<le> 2 * 10 ^ 7" by simp
  have "y - val a / 50 \<le> 1 / 2 ^ 28" "val a / 50 - y \<le> 1 / 2 ^ 28" using err by (simp_all only: abs_le_iff minus_diff_eq)
  moreover have "(1::rat) / 2 ^ 28 \<le> 1 / (50 * 10 ^ 6)" by simp
  ultimately have "50 * y - val a \<le> 1 / 10 ^ 6" "val a - 50 * y \<le> 1 / 10 ^ 6" by simp_all
  then have bounds: "50 * of_int n \<le> val a + 1 / 10 ^ 6" "val a < 50 * of_int n + 50 + 1 / 10 ^ 6"
    using n by linarith+
  show ?thesis
  proof (cases "n = 0")
    case True
    have "a / lit 50 = zero64 (val a / 50 < 0) \<or> Floor (a / lit 50) = zero64 False"
      unfolding q using True by (simp add: n_def [symmetric] zero64_def)
    then have "Floor (a / lit 50) = zero64 (val a / 50 < 0) \<or> Floor (a / lit 50) = zero64 False"
      using Floor_zero64 by metis
    then have "quantize a = zero64 (val a / 50 < 0) \<or> quantize a = zero64 False"
      unfolding quantize_def lit_50 by auto
    with True bounds show ?thesis by (intro that [of 0]) (auto simp: zero64_def)
  next
    case False
    then have "y \<noteq> 0" by (auto simp: n_def)
    have "quantize a = Fin (of_int n) * Fin 50" unfolding quantize_def q using \<open>y \<noteq> 0\<close> by (simp add: n_def lit_50)
    also have "\<dots> = fl (of_int (n * 50))" using False by (simp add: Fin_mult)
    also have "\<dots> = Fin (of_int (n * 50))" using nb by (intro lit_int) simp
    finally show ?thesis using bounds nb by (intro that [of n]) (simp_all add: mult.commute)
  qed
qed

lemma quantize_grid:
  assumes "sized (10 ^ 9) a"
  shows "on_grid 2 (10 ^ 9) (quantize a)"
proof -
  obtain n where n: "\<bar>n\<bar> \<le> 2 * 10 ^ 7" "quantize a = Fin (50 * of_int n) \<or> quantize a = NegZero"
    using quantize_spec [OF assms] by metis
  then have "on_grid 0 (10 ^ 9) (quantize a)"
  proof (cases "quantize a = NegZero")
    case True
    then show ?thesis by (auto simp: on_grid_def zero64_def)
  next
    case False
    then have "quantize a = Fin (of_int (50 * n))" using n(2) by simp
    then show ?thesis using n(1) by (simp only:) (intro int_on_grid; simp)
  qed
  then show ?thesis by (rule on_grid_finer) simp
qed


lemma sanitize_simps [simp]:
  "VehicleID (sanitize_telemetry pe t) = VehicleID t" "VehicleType (sanitize_telemetry pe t) = VehicleType t"
  "Team (sanitize_telemetry pe t) = Team t" "State (sanitize_telemetry pe t) = State t"
  "BatteryPct (sanitize_telemetry pe t) = BatteryPct t" "Vel (sanitize_telemetry pe t) = Vel t"
  "HeadingDeg (sanitize_telemetry pe t) = HeadingDeg t" "Sequence (sanitize_telemetry pe t) = Sequence t"
  "Latitude (Coords (sanitize_telemetry pe t)) = RoundFloat (Latitude (Coords t)) (GPSCoarsenDecimals pe)"
  "Longitude (Coords (sanitize_telemetry pe t)) = RoundFloat (Longitude (Coords t)) (GPSCoarsenDecimals pe)"
  "AltitudeM (Coords (sanitize_telemetry pe t)) = quantize (AltitudeM (Coords t))"
  "MissionPayload (sanitize_telemetry pe t) =
     (if MissionPayload t = None then None
      else Some [(''status'', JStr ''[REDACTED_BY_CDS]''), (''sanitized'', JBool True)])"
  by (simp_all add: sanitize_telemetry_def Let_def quantize_def)

lemma payload_finite_sanitized [simp]: "payload_finite (MissionPayload (sanitize_telemetry pe t))"
  by (simp add: payload_finite_def)

lemma quantize_sized: "sized (10 ^ 9) a \<Longrightarrow> sized (10 ^ 9) (quantize a)"
proof -
  assume a: "sized (10 ^ 9) a"
  obtain n where n: "val (quantize a) = 50 * of_int n" "\<bar>n\<bar> \<le> 2 * 10 ^ 7"
    "quantize a = Fin (50 * of_int n) \<or> quantize a = NegZero \<and> n = 0"
    using quantize_spec [OF a] by metis
  then have "\<bar>of_int n :: rat\<bar> \<le> 2 * 10 ^ 7" using abs_int_rat_le [OF n(2)] by simp
  with n show ?thesis by (auto simp: sized_def abs_mult)
qed

text \<open>Telemetry as a validated envelope holds it: rounded, in bounds, of a physical magnitude.\<close>

definition clean :: "TelemetryPayload \<Rightarrow> bool" where
  "clean t \<longleftrightarrow> physical t \<and> in_bounds t \<and> Normalize t = t"

lemma clean_coords:
  assumes "clean t"
  shows "on_grid 6 90 (Latitude (Coords t))" and "on_grid 6 180 (Longitude (Coords t))"
proof -
  from assms have "sized 90 (Latitude (Coords t))" "sized 180 (Longitude (Coords t))" and n: "Normalize t = t"
    by (simp_all add: clean_def in_bounds_def)
  then have "on_grid 6 90 (roundFloat (Latitude (Coords t)) 6)" "on_grid 6 180 (roundFloat (Longitude (Coords t)) 6)"
    by (auto intro!: roundFloat_grid)
  moreover have "Latitude (Coords t) = roundFloat (Latitude (Coords t)) 6"
    "Longitude (Coords t) = roundFloat (Longitude (Coords t)) 6"
    using arg_cong [OF n, of "\<lambda>t. Latitude (Coords t)"] arg_cong [OF n, of "\<lambda>t. Longitude (Coords t)"]
    by (simp_all add: normalize_defs)
  ultimately show "on_grid 6 90 (Latitude (Coords t))" "on_grid 6 180 (Longitude (Coords t))" by simp_all
qed

lemma sanitize_clean:
  assumes "clean t" and "GPSCoarsenDecimals pe \<le> 12"
  shows "clean (sanitize_telemetry pe t)"
proof -
  let ?s = "sanitize_telemetry pe t" and ?d = "GPSCoarsenDecimals pe"
  note lat = RoundFloat_stable [OF clean_coords(1) [OF assms(1)] assms(2)]
    and lon = RoundFloat_stable [OF clean_coords(2) [OF assms(1)] assms(2)]
  have ph: "physical t" and ib: "in_bounds t" and n: "Normalize t = t" using assms(1) by (simp_all add: clean_def)
  have alt: "sized (10 ^ 9) (AltitudeM (Coords t))" using ph by (simp add: physical_def)
  have "sized (10 ^ 9) (quantize (AltitudeM (Coords t)))"
    "sized (10 ^ 9) (RoundFloat (Latitude (Coords t)) ?d)" "sized (10 ^ 9) (RoundFloat (Longitude (Coords t)) ?d)"
    using quantize_sized [OF alt] lat lon by (auto intro: sized_mono)
  then have p: "physical ?s" using ph by (simp add: physical_def)
  have b: "in_bounds ?s" using ib lat lon by (simp add: in_bounds_def)
  have "Normalize_coords (Coords ?s) = Coords ?s"
    using roundFloat_fixed [OF quantize_grid [OF alt]]
      roundFloat_fixed [OF lat(1)] roundFloat_fixed [OF lon(1)]
    by (simp add: Normalize_coords_def)
  moreover have "Normalize_vel (Vel t) = Vel t" "roundFloat (HeadingDeg t) 1 = HeadingDeg t"
    "roundFloat (BatteryPct t) 1 = BatteryPct t"
    using arg_cong [OF n, of Vel] arg_cong [OF n, of HeadingDeg] arg_cong [OF n, of BatteryPct]
    by (simp_all add: Normalize_def)
  ultimately have "Normalize ?s = ?s" by (simp add: Normalize_def)
  with p b show ?thesis by (simp add: clean_def)
qed

lemma RedactAndSanitize_ok:
  assumes "Telemetry e = Some t" and "clean t" and "GPSCoarsenDecimals pe \<le> 12"
  obtains s where "Marshal (json_telemetry (sanitize_telemetry pe t)) = ok s"
    and "RedactAndSanitize pe (Some e) = ok \<lparr>Header =
          \<lparr>Classification = Tier1Public, OriginEnclave = OriginEnclave (Header e) @ ''-CDS-SANITIZED'',
           TimestampNs = TimestampNs (Header e), MessageID = MessageID (Header e) @ ''-sanitized'',
           Digest = digest_of s,
           Caveats = Caveats (Header e) @ [''REDACTED_FROM_TIER2'', ''SANITIZED_BY_CDS'']\<rparr>,
         Telemetry = Some (sanitize_telemetry pe t), Command = None\<rparr>"
proof -
  have "clean (sanitize_telemetry pe t)" by (rule sanitize_clean [OF assms(2,3)])
  then have "finite_json (json_telemetry (sanitize_telemetry pe t))"
    by (intro physical_finite) (simp_all add: clean_def del: sanitize_simps)
  then obtain s where s: "Marshal (json_telemetry (sanitize_telemetry pe t)) = ok s"
    using Marshal_ok_iff by blast
  show ?thesis
    by (rule that [OF s]) (simp add: RedactAndSanitize_def assms(1) ComputePayloadDigest_Some s Let_def)
qed


lemma Contains_middle: "Contains d p \<Longrightarrow> Contains (a @ d @ b) p"
  by (simp add: Contains_iff_sublist) (metis sublist_appendI sublist_order.order_trans)

lemma normalized_clean:
  assumes "fst (Validate L (Some e)) = ok ()" and "Telemetry e = Some t" and "physical t"
  shows "clean (Normalize t)"
proof -
  have "payload_ok (normalized e)" using assms(1) by (simp add: Validate_ok_iff)
  then have "check_telemetry (Normalize t) = None" by (simp add: payload_ok_def assms(2))
  then have "in_bounds (Normalize t)"
    using check_telemetry_iff physical_floats [OF Normalize_physical [OF assms(3)]] by blast
  then show ?thesis by (simp add: clean_def Normalize_physical Normalize_idem assms(3))
qed

lemma redaction_validates:
  assumes "fst (Validate L (Some e)) = ok ()" and "Telemetry e = Some t" and "physical t"
    and "GPSCoarsenDecimals pe \<le> 12"
  obtains s where "RedactAndSanitize pe (Some (normalized e)) = ok s"
    and "Validate L (Some s) = (ok (), Some s)"
    and "Classification (Header s) = Tier1Public"
    and "Telemetry s = Some (sanitize_telemetry pe (Normalize t))" and "Command s = None"
proof -
  have cl: "clean (Normalize t)" by (rule normalized_clean [OF assms(1-3)])
  then have cs: "clean (sanitize_telemetry pe (Normalize t))" by (rule sanitize_clean [OF _ assms(4)])
  have "Telemetry (normalized e) = Some (Normalize t)" by (simp add: assms(2))
  from RedactAndSanitize_ok [OF this cl assms(4)] obtain js s where
    js: "Marshal (json_telemetry (sanitize_telemetry pe (Normalize t))) = ok js"
    and s: "RedactAndSanitize pe (Some (normalized e)) = ok s"
    and h: "Header s = \<lparr>Classification = Tier1Public, OriginEnclave = OriginEnclave (Header e) @ ''-CDS-SANITIZED'',
           TimestampNs = TimestampNs (Header e), MessageID = MessageID (Header e) @ ''-sanitized'',
           Digest = digest_of js,
           Caveats = Caveats (Header e) @ [''REDACTED_FROM_TIER2'', ''SANITIZED_BY_CDS'']\<rparr>"
    and st: "Telemetry s = Some (sanitize_telemetry pe (Normalize t))" and c: "Command s = None"
    by (metis SecurityEnvelope.select_convs(1,2,3) normalized_simps(1))
  have n: "normalized s = s" using cs st by (simp add: normalized_def clean_def)
  have he: "check_header L (Header e) = None" "payload_ok (normalized e)"
    using assms(1) by (simp_all add: Validate_ok_iff)
  then have "check_header L (Header s) = None" by (simp add: h check_header_None_iff ValidTiers_def)
  moreover have "payload_ok s"
  proof -
    have names: "VehicleID t \<noteq> ''''" "VehicleType t \<noteq> ''''" "Team t \<noteq> ''''"
      using he(2) physical_floats [OF Normalize_physical [OF assms(3)]]
      by (simp_all add: payload_ok_def assms(2) check_telemetry_iff)
    have "physical (sanitize_telemetry pe (Normalize t))" "in_bounds (sanitize_telemetry pe (Normalize t))"
      using cs by (simp_all add: clean_def del: sanitize_simps)
    then have "check_telemetry (sanitize_telemetry pe (Normalize t)) = None"
      using names physical_floats [of "sanitize_telemetry pe (Normalize t)"]
        check_telemetry_iff [of "sanitize_telemetry pe (Normalize t)"] by simp
    then show ?thesis by (simp add: payload_ok_def st)
  qed
  moreover have "Marshal (payload_json s) = ok js" by (simp add: payload_json_def st js)
  ultimately have "fst (Validate L (Some s)) = ok ()" by (simp add: Validate_ok_iff n h EqualFold_refl)
  then have "Validate L (Some s) = (ok (), Some s)" by (metis Validate_ok_pair n)
  with s h st c show ?thesis using that by simp
qed

section \<open>Properties\<close>

text \<open>C10. The decision is fail-closed: \<^verbatim>\<open>Evaluate\<close> never panics; it lets a packet pass
  exactly when it validates and is TIER-1, asks for redaction exactly when it validates and is
  TIER-2, and quarantines everything else, TIER-3 in particular, with an error text.\<close>

theorem Evaluate_fail_closed:
  "\<exists>action reason err env'. Evaluate L env = (Some (action, reason, err), env') \<and>
     (action = ActionPass \<longleftrightarrow>
        (\<exists>e. env = Some e \<and> fst (Validate L env) = ok () \<and> Classification (Header e) = Tier1Public)) \<and>
     (action = ActionRedactPass \<longleftrightarrow>
        (\<exists>e. env = Some e \<and> fst (Validate L env) = ok () \<and> Classification (Header e) = Tier2Restricted)) \<and>
     (action = ActionQuarantine \<longrightarrow> err \<noteq> None) \<and>
     (action \<noteq> ActionQuarantine \<longrightarrow> env' = map_option normalized env)"
proof (cases env)
  case None
  then show ?thesis by (simp add: Evaluate_def)
next
  case (Some e)
  show ?thesis
    by (cases rule: Evaluate_cases [of L e]) (auto simp: Some tier_defs)
qed

theorem Evaluate_fail_closed_witness:
  "\<forall>L. \<exists>e env' err. Telemetry e = Some (Normalize sample) \<and>
     Evaluate L (Some e) = (Some (ActionQuarantine, err), env') \<and> snd err \<noteq> None"
proof
  fix L
  obtain e :: SecurityEnvelope where e: "Telemetry e = Some (Normalize sample)" "Classification (Header e) = Tier3Critical"
    by (rule sample_envelope [of Tier3Critical L "[]"]) (simp_all add: ValidTiers_def)
  from Evaluate_fail_closed [of L "Some e"] obtain action reason err env' where
    ev: "Evaluate L (Some e) = (Some (action, reason, err), env')"
    and p: "action = ActionPass \<longleftrightarrow>
        (\<exists>e'. Some e = Some e' \<and> fst (Validate L (Some e)) = ok () \<and> Classification (Header e') = Tier1Public)"
    and r: "action = ActionRedactPass \<longleftrightarrow>
        (\<exists>e'. Some e = Some e' \<and> fst (Validate L (Some e)) = ok () \<and> Classification (Header e') = Tier2Restricted)"
    and q: "action = ActionQuarantine \<longrightarrow> err \<noteq> None" by blast
  have "action \<noteq> ActionPass" "action \<noteq> ActionRedactPass" unfolding p r using e(2) by (simp_all add: tier_defs)
  then have "action = ActionQuarantine" by (cases action) simp_all
  with ev q e(1) show "\<exists>e env' err. Telemetry e = Some (Normalize sample) \<and>
     Evaluate L (Some e) = (Some (ActionQuarantine, err), env') \<and> snd err \<noteq> None"
    by (intro exI [of _ e] exI [of _ env'] exI [of _ "(reason, err)"]) simp
qed

text \<open>C15. Redaction is sound: for a validated telemetry envelope of a physical magnitude and a
  precision of at most 12 decimals, \<^verbatim>\<open>RedactAndSanitize\<close> succeeds; its result is TIER-1, is
  accepted by \<^verbatim>\<open>Validate\<close> unchanged, keeps identity, battery, velocity, heading and
  sequence, has its position on the coarsened grid within the legal range, its altitude a multiple of
  50 m not more than 50 m below the original, no command, and of the mission payload nothing but the
  redaction marker.\<close>

theorem RedactAndSanitize_sound:
  assumes "fst (Validate L (Some e)) = ok ()" and "Telemetry e = Some t" and "physical t"
    and "GPSCoarsenDecimals pe \<le> 12"
  shows "\<exists>s u n. RedactAndSanitize pe (Some (normalized e)) = ok s \<and>
    Classification (Header s) = Tier1Public \<and> Validate L (Some s) = (ok (), Some s) \<and>
    Telemetry s = Some u \<and> Command s = None \<and>
    VehicleID u = VehicleID t \<and> VehicleType u = VehicleType t \<and> Team u = Team t \<and>
    BatteryPct u = BatteryPct (Normalize t) \<and> Vel u = Vel (Normalize t) \<and>
    HeadingDeg u = HeadingDeg (Normalize t) \<and> Sequence u = Sequence t \<and>
    on_grid (GPSCoarsenDecimals pe) 90 (Latitude (Coords u)) \<and>
    on_grid (GPSCoarsenDecimals pe) 180 (Longitude (Coords u)) \<and>
    val (AltitudeM (Coords u)) = 50 * of_int n \<and>
    50 * of_int n \<le> val (AltitudeM (Coords (Normalize t))) + 1 / 10 ^ 6 \<and>
    val (AltitudeM (Coords (Normalize t))) < 50 * of_int n + 50 + 1 / 10 ^ 6 \<and>
    (MissionPayload u = None \<or>
     MissionPayload u = Some [(''status'', JStr ''[REDACTED_BY_CDS]''), (''sanitized'', JBool True)])"
proof -
  obtain s where s: "RedactAndSanitize pe (Some (normalized e)) = ok s"
    "Classification (Header s) = Tier1Public" "Validate L (Some s) = (ok (), Some s)"
    "Telemetry s = Some (sanitize_telemetry pe (Normalize t))" "Command s = None"
    by (rule redaction_validates [OF assms]) blast
  have cl: "clean (Normalize t)" by (rule normalized_clean [OF assms(1-3)])
  then have lat: "sized 90 (Latitude (Coords (Normalize t)))" and lon: "sized 180 (Longitude (Coords (Normalize t)))"
    and alt: "sized (10 ^ 9) (AltitudeM (Coords (Normalize t)))"
    by (simp_all add: clean_def in_bounds_def physical_def)
  obtain n where n: "val (quantize (AltitudeM (Coords (Normalize t)))) = 50 * of_int n"
    "50 * of_int n \<le> val (AltitudeM (Coords (Normalize t))) + 1 / 10 ^ 6"
    "val (AltitudeM (Coords (Normalize t))) < 50 * of_int n + 50 + 1 / 10 ^ 6"
    by (rule quantize_spec [OF alt])
  show ?thesis
    by (intro exI [of _ s] exI [of _ "sanitize_telemetry pe (Normalize t)"] exI [of _ n])
      (use s n RoundFloat_grid [OF lat assms(4)] RoundFloat_grid [OF lon assms(4)] in simp)
qed

theorem RedactAndSanitize_sound_witness:
  "\<forall>L. \<exists>e s u. RedactAndSanitize (NewPolicyEngine 2) (Some (normalized e)) = ok s \<and>
     Telemetry e = Some (Normalize sample) \<and> Telemetry s = Some u \<and> Validate L (Some s) = (ok (), Some s) \<and>
     on_grid 2 90 (Latitude (Coords u))"
proof
  fix L
  obtain e where e: "Validate L (Some e) = (ok (), Some e)" "Telemetry e = Some (Normalize sample)"
    by (rule sample_envelope [of Tier2Restricted L "[]"]) (simp_all add: ValidTiers_def)
  with RedactAndSanitize_sound [of L e "Normalize sample" "NewPolicyEngine 2"]
  show "\<exists>e s u. RedactAndSanitize (NewPolicyEngine 2) (Some (normalized e)) = ok s \<and>
     Telemetry e = Some (Normalize sample) \<and> Telemetry s = Some u \<and> Validate L (Some s) = (ok (), Some s) \<and>
     on_grid 2 90 (Latitude (Coords u))"
    by (auto simp: NewPolicyEngine_def Normalize_physical)
qed

text \<open>The rejection reason is read off the error text, which quotes the sender's digest: an
  envelope whose only fault is a digest that does not match is reported as an unauthorised tier if
  the digest text contains that word, instead of as compromised integrity.\<close>

theorem digest_text_steers_reason:
  assumes "check_header L (Header e) = None" and "payload_ok (normalized e)"
    and "Marshal (payload_json (normalized e)) = ok s"
    and "\<not> EqualFold L (Digest (Header e)) (digest_of s)"
    and "Contains (Digest (Header e)) ''unauthorized''"
  shows "\<exists>err env'. Evaluate L (Some e) = (Some (ActionQuarantine, ReasonUnauthorizedTier, Some err), env')"
proof -
  have cd: "check_digest L (Digest (Header e)) (payload_json (normalized e)) =
      fail (''cryptographic digest mismatch: header has '' @ Digest (Header e) @ '', computed '' @ digest_of s)"
    using assms(3,4) by (simp add: check_digest_def ComputePayloadDigest_Some)
  then have "fst (Validate L (Some e)) =
      fail (''cryptographic digest mismatch: header has '' @ Digest (Header e) @ '', computed '' @ digest_of s)"
    using assms(1,2) by (auto simp: Validate_def payload_ok_def payload_json_def Let_def split: option.splits)
  moreover have "classify (''cryptographic digest mismatch: header has '' @ Digest (Header e) @ '', computed '' @ digest_of s)
      = ReasonUnauthorizedTier"
    unfolding classify_def using Contains_middle [OF assms(5)] by (simp only: if_True)
  ultimately show ?thesis using Evaluate_refused by metis
qed


theorem digest_text_steers_reason_witness:
  "\<forall>L. \<exists>e err env'. Telemetry e = Some (Normalize sample) \<and>
     Evaluate L (Some e) = (Some (ActionQuarantine, ReasonUnauthorizedTier, Some err), env')"
proof
  fix L
  obtain s where s: "Marshal (json_telemetry (Normalize sample)) = ok s"
    using Marshal_ok_iff [of "json_telemetry (Normalize sample)"]
      physical_finite [OF Normalize_physical, of sample] by auto
  define e where "e = \<lparr>Header = \<lparr>Classification = Tier1Public, OriginEnclave = ''edge'', TimestampNs = 6,
      MessageID = '''', Digest = ''unauthorized'', Caveats = []\<rparr>, Telemetry = Some (Normalize sample), Command = None\<rparr>"
  have n: "normalized e = e" by (simp add: normalized_def e_def Normalize_idem)
  have "length (map lower_char ''unauthorized'') \<noteq> length (digest_of s)" by simp
  then have "map lower_char ''unauthorized'' \<noteq> digest_of s" by metis
  then have ne: "\<not> EqualFold L ''unauthorized'' (digest_of s)"
    by (subst EqualFold_digest) (simp_all add: is_ascii_def)
  have "\<exists>err env'. Evaluate L (Some e) = (Some (ActionQuarantine, ReasonUnauthorizedTier, Some err), env')"
  proof (rule digest_text_steers_reason)
    show "check_header L (Header e) = None" by (simp add: e_def check_header_None_iff ValidTiers_def)
    show "payload_ok (normalized e)" unfolding n by (simp add: payload_ok_def e_def check_telemetry_physical)
    show "Marshal (payload_json (normalized e)) = ok s" unfolding n by (simp add: payload_json_def e_def s)
    show "\<not> EqualFold L (Digest (Header e)) (digest_of s)" using ne by (simp add: e_def)
    show "Contains (Digest (Header e)) ''unauthorized''" by (simp add: e_def)
  qed
  then show "\<exists>e err env'. Telemetry e = Some (Normalize sample) \<and>
     Evaluate L (Some e) = (Some (ActionQuarantine, ReasonUnauthorizedTier, Some err), env')"
    by (intro exI [of _ e]) (simp add: e_def)
qed


end
