(* ===== verification/Fifo.thy ===== *)
theory Fifo
  imports Prelude
begin

text \<open>
  The contract the program's bounded buffers share (the dead-letter queue, the data mule's spool, the
  breadcrumbs of a vehicle): a first-in-first-out list with a capacity, whose insertion evicts the
  oldest item when it is full. The locale states the contract of one insertion; its lemmas say what
  any number of insertions leaves: exactly the newest items, in order.
\<close>

definition newest :: "nat \<Rightarrow> 'a list \<Rightarrow> 'a list" where
  "newest n xs = drop (length xs - n) xs"

lemma length_newest [simp]: "length (newest n xs) = min n (length xs)"
  by (simp add: newest_def)

lemma newest_all [simp]: "length xs \<le> n \<Longrightarrow> newest n xs = xs"
  by (simp add: newest_def)

lemma newest_newest [simp]: "newest m (newest n xs) = newest (min m n) xs"
  by (cases "length xs \<le> n"; cases "m \<le> n") (auto simp: newest_def min_def)

lemma newest_snoc: "0 < n \<Longrightarrow> newest n (xs @ [x]) = newest (n - 1) xs @ [x]"
  by (cases n) (simp_all add: newest_def Suc_diff_le)

lemma newest_append_newest: "newest n (newest n xs @ ys) = newest n (xs @ ys)"
  by (cases "length xs \<le> n") (simp_all add: newest_def add.commute)

lemma set_newest: "set (newest n xs) \<subseteq> set xs"
  by (auto simp: newest_def dest: in_set_dropD)

locale bounded_fifo =
  fixes push :: "'q \<Rightarrow> 'x \<Rightarrow> 'q" and items :: "'q \<Rightarrow> 'x list" and capacity :: "'q \<Rightarrow> nat"
  assumes capacity_push: "capacity (push q x) = capacity q"
    and items_push: "0 < capacity q \<Longrightarrow> length (items q) \<le> capacity q \<Longrightarrow>
      items (push q x) = newest (capacity q) (items q @ [x])"
begin

definition well_formed :: "'q \<Rightarrow> bool" where
  "well_formed q \<longleftrightarrow> 0 < capacity q \<and> length (items q) \<le> capacity q"

lemma well_formed_push: "well_formed q \<Longrightarrow> well_formed (push q x)"
  by (simp add: well_formed_def capacity_push items_push)

lemma well_formed_pushes: "well_formed q \<Longrightarrow> well_formed (foldl push q xs)"
  by (induction xs arbitrary: q) (simp_all add: well_formed_push)

lemma capacity_pushes: "capacity (foldl push q xs) = capacity q"
  by (induction xs arbitrary: q) (simp_all add: capacity_push)

text \<open>After any insertions the buffer holds the newest items, in the order they came.\<close>

lemma items_pushes: "well_formed q \<Longrightarrow> items (foldl push q xs) = newest (capacity q) (items q @ xs)"
proof (induction xs arbitrary: q)
  case Nil
  then show ?case by (simp add: well_formed_def)
next
  case (Cons x xs)
  then have "items (foldl push (push q x) xs) = newest (capacity q) (items (push q x) @ xs)"
    by (simp add: well_formed_push capacity_push)
  also have "\<dots> = newest (capacity q) (items q @ x # xs)"
    using Cons.prems by (simp add: capacity_push items_push well_formed_def newest_append_newest)
  finally show ?case by simp
qed

text \<open>Nothing is lost before the buffer is full.\<close>

lemma no_eviction:
  "well_formed q \<Longrightarrow> length (items q) + length xs \<le> capacity q \<Longrightarrow> items (foldl push q xs) = items q @ xs"
  by (simp add: items_pushes)

end

end
