(* ===== verification/Log_File.thy ===== *)
theory Log_File
  imports Go_Text
begin

text \<open>
  A file open for writing, as the audit log of \<^verbatim>\<open>pkg/policy/dlq.go\<close> and the spool of
  \<^verbatim>\<open>pkg/zenohutil/datamule.go\<close> use one. Both write a line at a time and ignore the
  error: a write to a closed file does nothing, and a write that fails (a full disk, say) leaves the bytes
  it got through before the failure. How many bytes each coming write gets through is part of the file,
  the environment's choice; when the list is used up every write is complete. \<^verbatim>\<open>Sync\<close>
  changes nothing a later operation of the program can observe: whether the bytes survive a crash of the
  machine is not modelled.
\<close>

record log_file =
  lf_open :: bool
  lf_writes :: "nat list"
  lf_chunks :: "string list"

fun written :: "nat list \<Rightarrow> string \<Rightarrow> string" where
  "written [] s = s"
| "written (n # ns) s = take n s"

definition write_log :: "log_file \<Rightarrow> string \<Rightarrow> log_file" where
  "write_log f s =
     (if lf_open f
      then f\<lparr>lf_chunks := lf_chunks f @ [written (lf_writes f) s], lf_writes := drop 1 (lf_writes f)\<rparr>
      else f)"

definition close_log :: "log_file \<Rightarrow> log_file" where
  "close_log f = f\<lparr>lf_open := False\<rparr>"

definition newline :: string where
  "newline = [CHR 0x0A]"

lemma write_log_open [simp]: "lf_open (write_log f s) = lf_open f"
  by (simp add: write_log_def)

lemma write_log_closed [simp]: "\<not> lf_open f \<Longrightarrow> write_log f s = f"
  by (simp add: write_log_def)

text \<open>A run of writes: each adds the part of its text that the write got through.\<close>

lemma fold_write_log:
  assumes "lf_open f" and "f' = fold (\<lambda>s f. write_log f s) ss f"
  shows "\<exists>cs. lf_chunks f' = lf_chunks f @ cs \<and> length cs = length ss \<and>
    (\<forall>i < length ss. cs ! i = written (drop i (lf_writes f)) (ss ! i))"
  using assms
proof (induction ss arbitrary: f f')
  case Nil
  then show ?case by simp
next
  case (Cons s ss)
  have "lf_open (write_log f s)" using Cons.prems(1) by simp
  from Cons.IH [OF this refl] obtain cs where
    cs: "lf_chunks f' = lf_chunks (write_log f s) @ cs" "length cs = length ss"
      "\<forall>i < length ss. cs ! i = written (drop i (lf_writes (write_log f s))) (ss ! i)"
    using Cons.prems(2) by auto
  have "\<forall>i < length (s # ss). (written (lf_writes f) s # cs) ! i = written (drop i (lf_writes f)) ((s # ss) ! i)"
    using cs(3) Cons.prems(1) by (auto simp: write_log_def nth_Cons split: nat.splits)
  then show ?case
    using cs(1,2) Cons.prems(1) by (intro exI [of _ "written (lf_writes f) s # cs"]) (simp add: write_log_def)
qed

lemma written_drop:
  "written (drop i ns) s = (if i < length ns then take (ns ! i) s else s)"
  by (cases "i < length ns") (simp_all add: Cons_nth_drop_Suc [symmetric])

end
