(* ===== verification/Dlq.thy ===== *)
theory Dlq
  imports Policy Fifo Log_File
begin

text \<open>
  \<^verbatim>\<open>pkg/policy/dlq.go\<close>: the dead-letter queue of quarantined packets. The records in memory
  are a bounded FIFO; the audit log is a \<open>log_file\<close>, whose writes may fail part of the way, which the
  code ignores. Locking is not modelled: every operation holds the queue's lock from beginning to end, so
  operations are atomic.
\<close>

section \<open>Model\<close>

record DLQRecord =
  rec_RecordID :: string
  rec_Timestamp :: int
  rec_SourceTopic :: string
  rec_RejectionReason :: CDSRejectionReason
  rec_ErrorDetails :: string
  rec_SourceEnclave :: string
  rec_Classification :: string
  rec_RawPayload :: string

record DeadLetterQueue =
  dq_records :: "DLQRecord list"
  dq_maxCapacity :: nat
  dq_auditFilePath :: string
  dq_auditFile :: "log_file option"

definition json_record :: "golib \<Rightarrow> DLQRecord \<Rightarrow> json" where
  "json_record L r =
     JObj [(''record_id'', JStr (rec_RecordID r)),
           (''timestamp'', JRaw ([CHR 0x22] @ fmt_time L (rec_Timestamp r) @ [CHR 0x22])),
           (''source_topic'', JStr (rec_SourceTopic r)),
           (''rejection_reason'', JStr (reason_text (rec_RejectionReason r))),
           (''error_details'', JStr (rec_ErrorDetails r)),
           (''source_enclave'', JStr (rec_SourceEnclave r)),
           (''classification'', JStr (rec_Classification r)),
           (''raw_payload'', JStr (rec_RawPayload r))]"

text \<open>\<open>open_file\<close> is \<^verbatim>\<open>os.OpenFile\<close> of the cleaned path in append mode: an error, or
  the file.\<close>

definition NewDeadLetterQueue ::
  "golib \<Rightarrow> (string \<Rightarrow> string + log_file) \<Rightarrow> int \<Rightarrow> string \<Rightarrow> DeadLetterQueue go" where
  "NewDeadLetterQueue L open_file maxCapacity auditFilePath =
     (let cap = (if maxCapacity \<le> 0 then 1000 else nat maxCapacity);
          dlq = \<lparr>dq_records = [], dq_maxCapacity = cap, dq_auditFilePath = auditFilePath, dq_auditFile = None\<rparr>
      in if auditFilePath \<noteq> ''''
         then (case open_file auditFilePath of
                 Inl err \<Rightarrow> fail (''opening audit log file '' @ fmt_q L auditFilePath @ '': '' @ err)
               | Inr f \<Rightarrow> ok (dlq\<lparr>dq_auditFile := Some (f\<lparr>lf_open := True\<rparr>)\<rparr>))
         else ok dlq)"

text \<open>The insertion into the bounded list.\<close>

definition store_record :: "DeadLetterQueue \<Rightarrow> DLQRecord \<Rightarrow> DeadLetterQueue" where
  "store_record q r =
     (let q = (if length (dq_records q) \<ge> dq_maxCapacity q
               then q\<lparr>dq_records := drop 1 (dq_records q)\<rparr> else q)
      in q\<lparr>dq_records := dq_records q @ [r]\<rparr>)"

definition audit :: "golib \<Rightarrow> DLQRecord \<Rightarrow> DeadLetterQueue \<Rightarrow> DeadLetterQueue" where
  "audit L r q =
     (case dq_auditFile q of
        None \<Rightarrow> q
      | Some f \<Rightarrow>
          (case Marshal (json_record L r) of
             Some (Inr line) \<Rightarrow> q\<lparr>dq_auditFile := Some (write_log f (line @ newline))\<rparr>
           | _ \<Rightarrow> q))"

definition make_record ::
  "int \<Rightarrow> int \<Rightarrow> nat \<Rightarrow> string \<Rightarrow> CDSRejectionReason \<Rightarrow> string \<Rightarrow> string \<Rightarrow> string \<Rightarrow> string \<Rightarrow> DLQRecord" where
  "make_record now1 now2 n sourceTopic reason errDetails enclave classification rawPayload =
     \<lparr>rec_RecordID = ''dlq-'' @ fmt_d now1 @ ''-'' @ fmt_nat (n + 1), rec_Timestamp = now2,
      rec_SourceTopic = sourceTopic, rec_RejectionReason = reason, rec_ErrorDetails = errDetails,
      rec_SourceEnclave = enclave, rec_Classification = classification, rec_RawPayload = rawPayload\<rparr>"

definition Quarantine ::
  "golib \<Rightarrow> int \<Rightarrow> int \<Rightarrow> DeadLetterQueue \<Rightarrow> string \<Rightarrow> CDSRejectionReason \<Rightarrow> string \<Rightarrow> string \<Rightarrow> string \<Rightarrow> string
     \<Rightarrow> DeadLetterQueue \<times> DLQRecord" where
  "Quarantine L now1 now2 q sourceTopic reason errDetails enclave classification rawPayload =
     (let r = make_record now1 now2 (length (dq_records q)) sourceTopic reason errDetails enclave
                classification rawPayload
      in (audit L r (store_record q r), r))"

definition GetRecords :: "DeadLetterQueue \<Rightarrow> int \<Rightarrow> DLQRecord list" where
  "GetRecords q limit =
     (let n = length (dq_records q);
          limit = (if limit \<le> 0 \<or> limit > int n then n else nat limit)
      in drop (n - limit) (dq_records q))"

definition Count :: "DeadLetterQueue \<Rightarrow> nat" where
  "Count q = length (dq_records q)"

definition Close_dlq :: "DeadLetterQueue \<Rightarrow> DeadLetterQueue" where
  "Close_dlq q = q\<lparr>dq_auditFile := map_option close_log (dq_auditFile q)\<rparr>"

section \<open>Lemmas\<close>

lemma audit_simps [simp]:
  "dq_records (audit L r q) = dq_records q" "dq_maxCapacity (audit L r q) = dq_maxCapacity q"
  by (auto simp: audit_def split: option.splits sum.splits)

lemma store_record_simps [simp]:
  "dq_maxCapacity (store_record q r) = dq_maxCapacity q" "dq_auditFile (store_record q r) = dq_auditFile q"
  by (simp_all add: store_record_def)

lemma Marshal_record: "\<exists>line. Marshal (json_record L r) = ok line"
  by (simp add: Marshal_ok_iff json_record_def)

definition record_line :: "golib \<Rightarrow> DLQRecord \<Rightarrow> string" where
  "record_line L r = (case Marshal (json_record L r) of Some (Inr line) \<Rightarrow> line | _ \<Rightarrow> '''')"

lemma audit_writes:
  "dq_auditFile q = Some f \<Longrightarrow>
     dq_auditFile (audit L r q) = Some (write_log f (record_line L r @ newline))"
  using Marshal_record [of L r] by (auto simp: audit_def record_line_def ok_def)

interpretation dlq: bounded_fifo store_record dq_records dq_maxCapacity
proof
  fix q :: DeadLetterQueue and r
  show "dq_maxCapacity (store_record q r) = dq_maxCapacity q" by simp
  assume "0 < dq_maxCapacity q" "length (dq_records q) \<le> dq_maxCapacity q"
  then show "dq_records (store_record q r) = newest (dq_maxCapacity q) (dq_records q @ [r])"
    by (cases "dq_records q") (auto simp: store_record_def newest_def)
qed

text \<open>A run of quarantines: what each call was given.\<close>

type_synonym quarantine_call = "int \<times> int \<times> string \<times> CDSRejectionReason \<times> string \<times> string \<times> string \<times> string"

fun call_raw :: "quarantine_call \<Rightarrow> string" where
  "call_raw (n1, n2, topic, reason, err, enclave, cls, raw) = raw"

fun quarantines :: "golib \<Rightarrow> DeadLetterQueue \<Rightarrow> quarantine_call list \<Rightarrow> DeadLetterQueue \<times> DLQRecord list" where
  "quarantines L q [] = (q, [])"
| "quarantines L q ((n1, n2, topic, reason, err, enclave, cls, raw) # cs) =
     (let (q, r) = Quarantine L n1 n2 q topic reason err enclave cls raw;
          (q, rs) = quarantines L q cs
      in (q, r # rs))"

lemma dq_records_audit_pushes:
  "dq_records q' = dq_records q \<Longrightarrow> dq_maxCapacity q' = dq_maxCapacity q \<Longrightarrow>
   dq_records (store_record q' r) = dq_records (store_record q r)"
  by (simp add: store_record_def)

lemma quarantines_records:
  assumes "dlq.well_formed q" and "quarantines L q cs = (q', rs)"
  shows "dq_records q' = newest (dq_maxCapacity q) (dq_records q @ rs) \<and> dq_maxCapacity q' = dq_maxCapacity q \<and>
    length rs = length cs"
  using assms
proof (induction cs arbitrary: q q' rs)
  case Nil
  then show ?case by (simp add: dlq.well_formed_def)
next
  case (Cons c cs)
  obtain n1 n2 topic reason err enclave cls raw where c: "c = (n1, n2, topic, reason, err, enclave, cls, raw)"
    by (cases c rule: call_raw.cases)
  obtain q1 r where q1: "Quarantine L n1 n2 q topic reason err enclave cls raw = (q1, r)" by fastforce
  obtain q2 rs2 where q2: "quarantines L q1 cs = (q2, rs2)" by fastforce
  from Cons.prems(2) q1 q2 have e: "q' = q2" "rs = r # rs2" by (simp_all add: c)
  have d: "dq_records q1 = newest (dq_maxCapacity q) (dq_records q @ [r])" "dq_maxCapacity q1 = dq_maxCapacity q"
    using q1 dlq.items_push [of q r] Cons.prems(1) by (auto simp: Quarantine_def Let_def dlq.well_formed_def)
  then have "dlq.well_formed q1" using Cons.prems(1) by (simp add: dlq.well_formed_def)
  from Cons.IH [OF this q2] show ?case by (simp add: e d newest_append_newest)
qed

lemma quarantines_audit:
  assumes "dq_auditFile q = Some f" and "quarantines L q cs = (q', rs)"
  shows "dq_auditFile q' = Some (fold (\<lambda>s f. write_log f s) (map (\<lambda>r. record_line L r @ newline) rs) f)"
  using assms
proof (induction cs arbitrary: q f q' rs)
  case Nil
  then show ?case by simp
next
  case (Cons c cs)
  obtain n1 n2 topic reason err enclave cls raw where c: "c = (n1, n2, topic, reason, err, enclave, cls, raw)"
    by (cases c rule: call_raw.cases)
  obtain q1 r where q1: "Quarantine L n1 n2 q topic reason err enclave cls raw = (q1, r)" by fastforce
  obtain q2 rs2 where q2: "quarantines L q1 cs = (q2, rs2)" by fastforce
  from Cons.prems(2) q1 q2 have e: "q' = q2" "rs = r # rs2" by (simp_all add: c)
  have "dq_auditFile q1 = Some (write_log f (record_line L r @ newline))"
    using q1 audit_writes [of "store_record q r" f L r] Cons.prems by (auto simp: Quarantine_def Let_def)
  from Cons.IH [OF this q2] show ?case by (simp add: e)
qed

lemma GetRecords_newest: "0 < limit \<Longrightarrow> GetRecords q limit = newest (nat limit) (dq_records q)"
  by (auto simp: GetRecords_def newest_def Let_def)

text \<open>One line per quarantine, the JSON text of its record, as far as the write gets.\<close>

lemma audit_log_complete:
  assumes "dq_auditFile q = Some f" and "lf_open f" and "quarantines L q cs = (q', rs)"
  shows "\<exists>f' ls. dq_auditFile q' = Some f' \<and> lf_chunks f' = lf_chunks f @ ls \<and> length ls = length cs \<and>
    (\<forall>i < length cs. \<exists>line. Marshal (json_record L (rs ! i)) = ok line \<and>
       ls ! i = (if i < length (lf_writes f) then take (lf_writes f ! i) (line @ newline) else line @ newline) \<and>
       rec_RawPayload (rs ! i) = call_raw (cs ! i))"
proof -
  have raw: "quarantines L q cs = (q', rs) \<Longrightarrow> length rs = length cs \<and>
      (\<forall>i < length cs. rec_RawPayload (rs ! i) = call_raw (cs ! i))" for q q' rs
    by (induction cs arbitrary: q q' rs)
      (auto simp: Quarantine_def Let_def make_record_def nth_Cons' split: prod.splits)
  have line: "Marshal (json_record L r) = ok (record_line L r)" for r
    using Marshal_record [of L r] by (auto simp: record_line_def ok_def)
  obtain ls where ls: "lf_chunks (fold (\<lambda>s f. write_log f s) (map (\<lambda>r. record_line L r @ newline) rs) f) = lf_chunks f @ ls"
    "length ls = length rs"
    "\<forall>i < length rs. ls ! i = written (drop i (lf_writes f)) (record_line L (rs ! i) @ newline)"
    using fold_write_log [OF assms(2) refl, of "map (\<lambda>r. record_line L r @ newline) rs"] by auto
  show ?thesis
    using quarantines_audit [OF assms(1,3)] raw [OF assms(3)] ls by (simp add: line written_drop)
qed

section \<open>Properties\<close>

text \<open>C32. The dead-letter queue loses only the oldest records, and no quarantine goes unwritten while the audit
  log is open: after any run of quarantines the queue holds the newest \<^verbatim>\<open>maxCapacity\<close> records
  in order, and \<^verbatim>\<open>GetRecords(limit)\<close> returns the newest \<open>limit\<close> of them, all of them for a limit of 0,
  whatever becomes of the file; and every quarantine writes its line to the open file, the JSON text of its
  record with the packet it was given, also for records the memory has evicted. The \<open>i\<close>-th line reaches the
  file in full unless that write fails, and then as far as the write got: the code neither retries nor reports
  the failure, and the lines after it are written as if nothing had happened.\<close>

theorem quarantine_record_keeping:
  assumes "length (dq_records q) \<le> dq_maxCapacity q" and "0 < dq_maxCapacity q"
    and "quarantines L q cs = (q', rs)"
  shows "dq_records q' = newest (dq_maxCapacity q) (dq_records q @ rs) \<and> length rs = length cs \<and>
    Count q' \<le> dq_maxCapacity q \<and> GetRecords q' 0 = dq_records q' \<and>
    (\<forall>limit > 0. GetRecords q' limit = newest (min (nat limit) (dq_maxCapacity q)) (dq_records q @ rs)) \<and>
    (\<forall>f. dq_auditFile q = Some f \<and> lf_open f \<longrightarrow>
       (\<exists>f' ls. dq_auditFile q' = Some f' \<and> lf_chunks f' = lf_chunks f @ ls \<and> length ls = length cs \<and>
          (\<forall>i < length cs. \<exists>line. Marshal (json_record L (rs ! i)) = ok line \<and>
             ls ! i = (if i < length (lf_writes f) then take (lf_writes f ! i) (line @ newline)
                       else line @ newline) \<and>
             rec_RawPayload (rs ! i) = call_raw (cs ! i))))"
proof -
  have "dlq.well_formed q" using assms(1,2) by (simp add: dlq.well_formed_def)
  from quarantines_records [OF this assms(3)]
  have "dq_records q' = newest (dq_maxCapacity q) (dq_records q @ rs) \<and> length rs = length cs \<and>
    Count q' \<le> dq_maxCapacity q \<and> GetRecords q' 0 = dq_records q' \<and>
    (\<forall>limit > 0. GetRecords q' limit = newest (min (nat limit) (dq_maxCapacity q)) (dq_records q @ rs))"
    by (simp add: Count_def GetRecords_newest) (simp add: GetRecords_def)
  with audit_log_complete [OF _ _ assms(3)] show ?thesis by blast
qed

text \<open>The first write gets nothing through: its line is lost, the second line is complete.\<close>

theorem quarantine_record_keeping_witness:
  "\<forall>L. \<exists>q' rs f' line. quarantines L
      \<lparr>dq_records = [], dq_maxCapacity = 1, dq_auditFilePath = ''f'',
       dq_auditFile = Some \<lparr>lf_open = True, lf_writes = [0], lf_chunks = []\<rparr>\<rparr>
      [(1, 2, ''k'', ReasonMalformedJSON, ''e'', ''unknown'', ''UNKNOWN'', ''a''),
       (3, 4, ''k'', ReasonMalformedJSON, ''e'', ''unknown'', ''UNKNOWN'', ''b'')] = (q', rs) \<and>
    length rs = 2 \<and> dq_records q' = newest 1 rs \<and> Count q' \<le> 1 \<and> rec_RawPayload (rs ! 1) = ''b'' \<and>
    dq_auditFile q' = Some f' \<and> Marshal (json_record L (rs ! 1)) = ok line \<and>
    lf_chunks f' = [[], line @ newline]"
proof
  fix L
  let ?f = "\<lparr>lf_open = True, lf_writes = [0], lf_chunks = []\<rparr>"
  let ?q = "\<lparr>dq_records = [], dq_maxCapacity = 1, dq_auditFilePath = ''f'', dq_auditFile = Some ?f\<rparr>"
  let ?cs = "[(1, 2, ''k'', ReasonMalformedJSON, ''e'', ''unknown'', ''UNKNOWN'', ''a''),
       (3, 4, ''k'', ReasonMalformedJSON, ''e'', ''unknown'', ''UNKNOWN'', ''b'')] :: quarantine_call list"
  obtain q' rs where r: "quarantines L ?q ?cs = (q', rs)" by (meson surj_pair)
  have q: "length (dq_records ?q) \<le> dq_maxCapacity ?q" "0 < dq_maxCapacity ?q" by simp_all
  note p = quarantine_record_keeping [OF q r]
  have d: "length rs = 2 \<and> dq_records q' = newest 1 rs \<and> Count q' \<le> 1"
    using p by (simp del: quarantines.simps)
  have o: "dq_auditFile ?q = Some ?f \<and> lf_open ?f" by simp
  from p [THEN conjunct2, THEN conjunct2, THEN conjunct2, THEN conjunct2, THEN conjunct2,
      THEN spec, THEN mp, OF o]
  obtain f' ls where "dq_auditFile q' = Some f'" "lf_chunks f' = lf_chunks ?f @ ls" "length ls = length ?cs"
    and l: "\<And>i. i < length ?cs \<Longrightarrow> \<exists>line. Marshal (json_record L (rs ! i)) = ok line \<and>
         ls ! i = (if i < length (lf_writes ?f) then take (lf_writes ?f ! i) (line @ newline)
                   else line @ newline) \<and> rec_RawPayload (rs ! i) = call_raw (?cs ! i)" by blast
  then have f: "dq_auditFile q' = Some f'" "lf_chunks f' = ls" "length ls = 2" by simp_all
  have "ls ! 0 = []" using l [of 0] by auto
  moreover obtain line where "Marshal (json_record L (rs ! 1)) = ok line" "ls ! 1 = line @ newline"
    "rec_RawPayload (rs ! 1) = ''b''" using l [of 1] by auto
  moreover have "ls = [ls ! 0, ls ! 1]" using f(3) by (cases ls; cases "tl ls") auto
  ultimately show "\<exists>q' rs f' line. quarantines L ?q ?cs = (q', rs) \<and> length rs = 2 \<and>
    dq_records q' = newest 1 rs \<and> Count q' \<le> 1 \<and> rec_RawPayload (rs ! 1) = ''b'' \<and>
    dq_auditFile q' = Some f' \<and> Marshal (json_record L (rs ! 1)) = ok line \<and>
    lf_chunks f' = [[], line @ newline]"
    using r d f by metis
qed

end
