(* ===== verification/Cds_Guard.thy ===== *)
theory Cds_Guard
  imports Bus Dlq
begin

text \<open>
  \<^verbatim>\<open>cmd/cds-guard/main.go\<close>: the cross-domain guard. Every packet of the mesh that is neither
  sanitised nor a command is parsed, evaluated, and passed on, redacted or quarantined. The model takes
  the decoder of envelopes, the publish function of the bus and the clock readings as arguments; a
  result \<open>None\<close> is a run-time panic, which ends the process. The HTTP server, flags and signals of
  \<^verbatim>\<open>main\<close> are not modelled; what it builds, its subscription and its two handlers are.
\<close>

section \<open>Model\<close>

record CDSStats =
  cs_IngressTotal :: u64
  cs_Passed :: u64
  cs_Redacted :: u64
  cs_Quarantined :: u64

record CDSGuard =
  cg_engine :: PolicyEngine
  cg_dlq :: DeadLetterQueue
  cg_stats :: CDSStats

definition NewCDSGuard :: "DeadLetterQueue \<Rightarrow> int \<Rightarrow> CDSGuard" where
  "NewCDSGuard dlq gpsDecimals =
     \<lparr>cg_engine = NewPolicyEngine gpsDecimals, cg_dlq = dlq,
      cg_stats = \<lparr>cs_IngressTotal = 0, cs_Passed = 0, cs_Redacted = 0, cs_Quarantined = 0\<rparr>\<rparr>"

definition count_ingress :: "CDSGuard \<Rightarrow> CDSGuard" where
  "count_ingress g = g\<lparr>cg_stats := (cg_stats g)\<lparr>cs_IngressTotal := cs_IngressTotal (cg_stats g) + 1\<rparr>\<rparr>"

definition count_passed :: "CDSGuard \<Rightarrow> CDSGuard" where
  "count_passed g = g\<lparr>cg_stats := (cg_stats g)\<lparr>cs_Passed := cs_Passed (cg_stats g) + 1\<rparr>\<rparr>"

definition count_redacted :: "CDSGuard \<Rightarrow> CDSGuard" where
  "count_redacted g = g\<lparr>cg_stats := (cg_stats g)\<lparr>cs_Redacted := cs_Redacted (cg_stats g) + 1\<rparr>\<rparr>"

text \<open>The counter and the dead-letter record of a refusal.\<close>

definition refuse ::
  "golib \<Rightarrow> int \<Rightarrow> int \<Rightarrow> CDSGuard \<Rightarrow> string \<Rightarrow> CDSRejectionReason \<Rightarrow> string \<Rightarrow> string \<Rightarrow> string \<Rightarrow> string
     \<Rightarrow> CDSGuard" where
  "refuse L n1 n2 g sourceKey reason err enclave cls raw =
     g\<lparr>cg_stats := (cg_stats g)\<lparr>cs_Quarantined := cs_Quarantined (cg_stats g) + 1\<rparr>,
       cg_dlq := fst (Quarantine L n1 n2 (cg_dlq g) sourceKey reason err enclave cls raw)\<rparr>"

text \<open>\<^verbatim>\<open>%v\<close> of an error\<close>

definition fmt_err :: "string option \<Rightarrow> string" where
  "fmt_err err = (case err of None \<Rightarrow> ''<nil>'' | Some e \<Rightarrow> e)"

definition egress_key :: "golib \<Rightarrow> string \<Rightarrow> TelemetryPayload \<Rightarrow> string" where
  "egress_key L sourceKey t =
     (case ParseKey L sourceKey of
        Some (Inr i) \<Rightarrow> BuildKey L ''tier1'' (ti_VehicleType i) (ti_Team i) (ti_UnitID i) (ti_StreamType i)
      | _ \<Rightarrow> ''sec/tier1/redacted/'' @ VehicleID t)"

definition ProcessPacket ::
  "('b \<Rightarrow> string \<Rightarrow> string \<Rightarrow> 'b \<times> string option) \<Rightarrow> (string \<Rightarrow> string + SecurityEnvelope) \<Rightarrow> golib
     \<Rightarrow> int \<Rightarrow> int \<Rightarrow> CDSGuard \<Rightarrow> 'b \<Rightarrow> string \<Rightarrow> string \<Rightarrow> (CDSGuard \<times> 'b) option" where
  "ProcessPacket pub unmarshal L n1 n2 g b sourceKey raw =
     (let g = count_ingress g
      in (case ParseJSONEnvelope unmarshal raw of
            Inl err \<Rightarrow>
              Some (refuse L n1 n2 g sourceKey ReasonMalformedJSON (''JSON unmarshal error: '' @ err)
                      ''unknown'' ''UNKNOWN'' raw, b)
          | Inr env \<Rightarrow>
              (case Evaluate L (Some env) of
                 (Some (action, reason, err), Some env) \<Rightarrow>
                   (case action of
                      ActionQuarantine \<Rightarrow>
                        Some (refuse L n1 n2 g sourceKey reason (''Policy violation: '' @ fmt_err err)
                                (OriginEnclave (Header env)) (Classification (Header env)) raw, b)
                    | ActionPass \<Rightarrow>
                        (let g = count_passed g
                         in (case Telemetry env of
                               None \<Rightarrow> None
                             | Some t \<Rightarrow> Some (g, fst (pub b sourceKey raw))))
                    | ActionRedactPass \<Rightarrow>
                        (let g = count_redacted g
                         in (case RedactAndSanitize (cg_engine g) (Some env) of
                               None \<Rightarrow> None
                             | Some (Inl err) \<Rightarrow>
                                 Some (refuse L n1 n2 g sourceKey ReasonUnknownPolicyViolation err
                                         (OriginEnclave (Header env)) (Classification (Header env)) raw, b)
                             | Some (Inr sanitizedEnv) \<Rightarrow>
                                 (case Marshal (json_envelope sanitizedEnv) of
                                    None \<Rightarrow> None
                                  | Some (Inl err) \<Rightarrow> Some (g, b)
                                  | Some (Inr sanitizedBytes) \<Rightarrow>
                                      (case Telemetry env of
                                         None \<Rightarrow> None
                                       | Some t \<Rightarrow>
                                           Some (g, fst (pub b (egress_key L sourceKey t) sanitizedBytes)))))))
               | _ \<Rightarrow> None)))"

text \<open>The handler \<^verbatim>\<open>main\<close> subscribes, and the key expression it subscribes to.\<close>

definition ingressSelector :: string where
  "ingressSelector = ''sec/**''"

definition skip_ingress :: "string \<Rightarrow> bool" where
  "skip_ingress key \<longleftrightarrow> HasPrefix key ''sec/tier1/'' \<or> HasSuffix key ''/command''"

definition on_ingress ::
  "('b \<Rightarrow> string \<Rightarrow> string \<Rightarrow> 'b \<times> string option) \<Rightarrow> (string \<Rightarrow> string + SecurityEnvelope) \<Rightarrow> golib
     \<Rightarrow> int \<Rightarrow> int \<Rightarrow> CDSGuard \<Rightarrow> 'b \<Rightarrow> string \<Rightarrow> string \<Rightarrow> (CDSGuard \<times> 'b) option" where
  "on_ingress pub unmarshal L n1 n2 g b key payload =
     (if skip_ingress key then Some (g, b) else ProcessPacket pub unmarshal L n1 n2 g b key payload)"

text \<open>What \<^verbatim>\<open>main\<close> sets up: the queue, the bus (in memory or REST), the guard, and the
  subscription of its handler \<open>h\<close>, which is \<open>on_ingress\<close>, to the ingress selector. Each error is fatal. The
  REST client's \<^verbatim>\<open>Subscribe\<close> only starts its goroutine (\<open>Subscribe_rest\<close>) and cannot fail.\<close>

definition start_guard ::
  "golib \<Rightarrow> (string \<Rightarrow> string option) \<Rightarrow> (string \<Rightarrow> string) \<Rightarrow> (string \<Rightarrow> string + log_file) \<Rightarrow>
     string \<Rightarrow> bool \<Rightarrow> string \<Rightarrow> int \<Rightarrow> 'h \<Rightarrow> (CDSGuard \<times> ('h MemoryBus + RESTClient)) go" where
  "start_guard L mkdir dir open_file auditPath mockBus routerURL gpsDecimals h =
     (case mkdir (dir auditPath) of
        Some err \<Rightarrow> fail (''creating audit log directory: '' @ err)
      | None \<Rightarrow>
          try_go (NewDeadLetterQueue L open_file 500 auditPath) (\<lambda>err. ''initializing DLQ: '' @ err)
            (\<lambda>dlq. let bus = (if mockBus then Inl NewMemoryBus else Inr (NewRESTClient routerURL));
                       guard = NewCDSGuard dlq gpsDecimals
                   in (case bus of
                         Inl m \<Rightarrow>
                           (case Subscribe m ingressSelector h of
                              Inl err \<Rightarrow> fail (''subscribing to ingress: '' @ err)
                            | Inr m \<Rightarrow> ok (guard, Inl m))
                       | Inr r \<Rightarrow> ok (guard, Inr r))))"

definition json_stats :: "CDSStats \<Rightarrow> json" where
  "json_stats s =
     JObj [(''ingress_total'', JInt (uint (cs_IngressTotal s))), (''passed'', JInt (uint (cs_Passed s))),
           (''redacted'', JInt (uint (cs_Redacted s))), (''quarantined'', JInt (uint (cs_Quarantined s)))]"

definition health :: "CDSGuard \<Rightarrow> json" where
  "health g = JMap [(''status'', JStr ''HEALTHY''), (''stats'', json_stats (cg_stats g))]"

definition dlq_page :: "golib \<Rightarrow> CDSGuard \<Rightarrow> json" where
  "dlq_page L g = JArr (map (json_record L) (GetRecords (cg_dlq g) 50))"

section \<open>The five outcomes\<close>

lemma guard_counts [simp]:
  "cg_engine (count_ingress g) = cg_engine g" "cg_engine (count_passed g) = cg_engine g"
  "cg_engine (count_redacted g) = cg_engine g" "cg_engine (refuse L n1 n2 g key reason err enclave cls raw) = cg_engine g"
  "cg_dlq (count_ingress g) = cg_dlq g" "cg_dlq (count_passed g) = cg_dlq g" "cg_dlq (count_redacted g) = cg_dlq g"
  by (simp_all add: count_ingress_def count_passed_def count_redacted_def refuse_def)

lemma RedactAndSanitize_total: "RedactAndSanitize pe env \<noteq> None"
proof (cases env)
  case None
  then show ?thesis by (simp add: RedactAndSanitize_def)
next
  case (Some e)
  show ?thesis
  proof (cases "Telemetry e")
    case None
    with Some show ?thesis by (simp add: RedactAndSanitize_def)
  next
    case (Some t)
    with \<open>env = Some e\<close> show ?thesis
      by (cases rule: Marshal_cases [of "json_telemetry (sanitize_telemetry pe t)"])
        (simp_all add: RedactAndSanitize_def ComputePayloadDigest_Some Let_def del: not_None_eq)
  qed
qed

lemma RedactAndSanitize_result:
  assumes "RedactAndSanitize pe (Some e) = ok s"
  obtains t bs where "Telemetry e = Some t" and "Telemetry s = Some (sanitize_telemetry pe t)"
    and "Classification (Header s) = Tier1Public" and "Command s = None" and "Marshal (json_envelope s) = ok bs"
proof (cases "Telemetry e")
  case None
  with assms show ?thesis by (simp add: RedactAndSanitize_def)
next
  case (Some t)
  show ?thesis
  proof (cases rule: Marshal_cases [of "json_telemetry (sanitize_telemetry pe t)"])
    case (ok js)
    with assms Some have s: "Telemetry s = Some (sanitize_telemetry pe t)" "Classification (Header s) = Tier1Public"
      "Command s = None" by (auto simp: RedactAndSanitize_def Let_def ComputePayloadDigest_Some)
    then have "finite_json (json_envelope s)" using ok by (simp add: finite_json_envelope)
    then obtain bs where "Marshal (json_envelope s) = Prelude.ok bs" using Marshal_ok_iff by blast
    with that Some s show ?thesis by blast
  next
    case (error err)
    with assms Some show ?thesis by (simp add: RedactAndSanitize_def Let_def ComputePayloadDigest_Some)
  qed
qed

text \<open>One packet ends in exactly one way: refused, passed on, redacted, or a panic.\<close>

definition accepted_as :: "(string \<Rightarrow> string + SecurityEnvelope) \<Rightarrow> golib \<Rightarrow> string \<Rightarrow> string \<Rightarrow> SecurityEnvelope \<Rightarrow> bool" where
  "accepted_as unmarshal L raw tier e \<longleftrightarrow>
     unmarshal raw = Inr e \<and> fst (Validate L (Some e)) = ok () \<and> Classification (Header e) = tier"

lemma ProcessPacket_cases:
  obtains (refused) g1 reason err enclave cls where
      "ProcessPacket pub unmarshal L n1 n2 g b key raw = Some (refuse L n1 n2 g1 key reason err enclave cls raw, b)"
      "g1 = count_ingress g \<or> g1 = count_redacted (count_ingress g)"
  | (passed) e where "accepted_as unmarshal L raw Tier1Public e" "Telemetry e \<noteq> None"
      "ProcessPacket pub unmarshal L n1 n2 g b key raw = Some (count_passed (count_ingress g), fst (pub b key raw))"
  | (redacted) e t s bs where "accepted_as unmarshal L raw Tier2Restricted e" "Telemetry e = Some t"
      "RedactAndSanitize (cg_engine g) (Some (normalized e)) = ok s" "Marshal (json_envelope s) = ok bs"
      "ProcessPacket pub unmarshal L n1 n2 g b key raw =
         Some (count_redacted (count_ingress g), fst (pub b (egress_key L key (Normalize t)) bs))"
  | (panic) e where "accepted_as unmarshal L raw Tier1Public e" "Telemetry e = None"
      "ProcessPacket pub unmarshal L n1 n2 g b key raw = None"
proof (cases "unmarshal raw")
  case (Inl err)
  then show ?thesis by (intro refused) (auto simp: ProcessPacket_def ParseJSONEnvelope_def Let_def)
next
  case (Inr e)
  have p: "ParseJSONEnvelope unmarshal raw = Inr e" by (simp add: ParseJSONEnvelope_def Inr)
  show ?thesis
  proof (cases rule: Evaluate_cases [of L e])
    case pass
    with p Inr show ?thesis
      by (cases "Telemetry e")
        (auto simp: ProcessPacket_def Let_def accepted_as_def intro: passed panic)
  next
    case redact
    show ?thesis
    proof (cases "RedactAndSanitize (cg_engine g) (Some (normalized e))" rule: go_cases)
      case panic
      then show ?thesis using RedactAndSanitize_total by blast
    next
      case (error err)
      with redact p show ?thesis
        by (intro refused [of "count_redacted (count_ingress g)"])
          (auto simp: ProcessPacket_def Let_def fail_def)
    next
      case (result s)
      then obtain t0 bs where t0: "Telemetry (normalized e) = Some t0" "Marshal (json_envelope s) = ok bs"
        by (rule RedactAndSanitize_result)
      then obtain t where "Telemetry e = Some t" by auto
      with result redact p Inr t0 show ?thesis
        by (intro redacted [of e t s bs]) (auto simp: ProcessPacket_def Let_def accepted_as_def ok_def)
    qed
  next
    case (quarantine reason err env')
    with p show ?thesis by (intro refused) (auto simp: ProcessPacket_def Let_def)
  qed
qed

lemma egress_key_prefix: "HasPrefix (egress_key L key t) ''sec/tier1/''"
proof -
  have "ToLower L ''tier1'' = ''tier1''" by (simp add: ToLower_def is_ascii_def) code_simp
  then have "HasPrefix (BuildKey L ''tier1'' v m u s) ''sec/tier1/''" for v m u s
    using BuildKey_prefix [of L "''tier1''" v m u s] by simp
  then show ?thesis by (auto simp: egress_key_def HasPrefix_def split: option.splits sum.splits)
qed

lemma egress_key_skipped: "skip_ingress (egress_key L key t)"
  by (simp add: skip_ingress_def egress_key_prefix)

lemma refused_record:
  assumes "dlq.well_formed (cg_dlq g)"
  shows "\<exists>r. last (dq_records (cg_dlq (refuse L n1 n2 g key reason err enclave cls raw))) = r \<and>
    rec_RawPayload r = raw \<and> rec_SourceTopic r = key"
  by (simp add: refuse_def Quarantine_def Let_def store_record_def make_record_def)

section \<open>A run over any bus\<close>

fun guard_run ::
  "('b \<Rightarrow> string \<Rightarrow> string \<Rightarrow> 'b \<times> string option) \<Rightarrow> (string \<Rightarrow> string + SecurityEnvelope) \<Rightarrow> golib
     \<Rightarrow> CDSGuard \<times> 'b \<Rightarrow> (int \<times> int \<times> string \<times> string) list \<Rightarrow> (CDSGuard \<times> 'b) option" where
  "guard_run pub unmarshal L s [] = Some s"
| "guard_run pub unmarshal L (g, b) ((n1, n2, key, raw) # ps) =
     (case on_ingress pub unmarshal L n1 n2 g b key raw of
        None \<Rightarrow> None
      | Some s \<Rightarrow> guard_run pub unmarshal L s ps)"

text \<open>A publication that a packet justifies.\<close>

definition justified ::
  "(string \<Rightarrow> string + SecurityEnvelope) \<Rightarrow> golib \<Rightarrow> PolicyEngine \<Rightarrow> string \<Rightarrow> string \<Rightarrow> string \<times> string \<Rightarrow> bool" where
  "justified unmarshal L pe key raw out \<longleftrightarrow>
     (\<exists>e. accepted_as unmarshal L raw Tier1Public e \<and> Telemetry e \<noteq> None \<and> out = (key, raw)) \<or>
     (\<exists>e t s. accepted_as unmarshal L raw Tier2Restricted e \<and> Telemetry e = Some t \<and>
        RedactAndSanitize pe (Some (normalized e)) = ok s \<and> Classification (Header s) = Tier1Public \<and>
        Marshal (json_envelope s) = ok (snd out) \<and> HasPrefix (fst out) ''sec/tier1/'')"

context message_bus
begin

lemma on_ingress_accepted:
  assumes "on_ingress pub unmarshal L n1 n2 g b key raw = Some (g', b')"
  shows "cg_engine g' = cg_engine g \<and> (\<exists>new. accepted b' = accepted b @ new \<and> length new \<le> 1 \<and>
    (\<forall>out \<in> set new. \<not> skip_ingress key \<and> justified unmarshal L (cg_engine g) key raw out))"
proof (cases "skip_ingress key")
  case True
  with assms show ?thesis by (simp add: on_ingress_def)
next
  case False
  with assms have p: "ProcessPacket pub unmarshal L n1 n2 g b key raw = Some (g', b')" by (simp add: on_ingress_def)
  show ?thesis
  proof (cases rule: ProcessPacket_cases [of pub unmarshal L n1 n2 g b key raw])
    case (refused g1 reason err enclave cls)
    with p show ?thesis by auto
  next
    case (passed e)
    with p False pub_accepted [of b key raw] show ?thesis by (auto simp: justified_def)
  next
    case (redacted e t s bs)
    have "Classification (Header s) = Tier1Public" by (rule RedactAndSanitize_result [OF redacted(3)])
    with redacted p False pub_accepted [of b "egress_key L key (Normalize t)" bs] show ?thesis
      by (auto simp: justified_def egress_key_prefix)
  next
    case (panic e)
    with p show ?thesis by simp
  qed
qed

lemma guard_run_accepted:
  assumes "guard_run pub unmarshal L (g, b) ps = Some (g', b')"
  shows "\<exists>new. accepted b' = accepted b @ new \<and> length new \<le> length ps \<and>
    (\<forall>out \<in> set new. \<exists>n1 n2 key raw. (n1, n2, key, raw) \<in> set ps \<and> \<not> skip_ingress key \<and>
       justified unmarshal L (cg_engine g) key raw out)"
  using assms
proof (induction ps arbitrary: g b)
  case Nil
  then show ?case by simp
next
  case (Cons x ps)
  obtain n1 n2 key raw where x: "x = (n1, n2, key, raw)" by (metis prod_cases4)
  with Cons.prems obtain g1 b1 where
    s: "on_ingress pub unmarshal L n1 n2 g b key raw = Some (g1, b1)" "guard_run pub unmarshal L (g1, b1) ps = Some (g', b')"
    by (auto split: option.splits)
  from on_ingress_accepted [OF s(1)] obtain new1 where
    1: "cg_engine g1 = cg_engine g" "accepted b1 = accepted b @ new1" "length new1 \<le> 1"
      "\<forall>out \<in> set new1. \<not> skip_ingress key \<and> justified unmarshal L (cg_engine g) key raw out" by blast
  from Cons.IH [OF s(2)] obtain new2 where
    2: "accepted b' = accepted b1 @ new2" "length new2 \<le> length ps"
      "\<forall>out \<in> set new2. \<exists>n1 n2 key raw. (n1, n2, key, raw) \<in> set ps \<and> \<not> skip_ingress key \<and>
         justified unmarshal L (cg_engine g1) key raw out" by blast
  show ?case
    by (intro exI [of _ "new1 @ new2"]) (use 1 2 in \<open>auto simp: x; metis\<close>)
qed

end

section \<open>Delivery on the in-memory bus\<close>

text \<open>
  The guard subscribed to the bus it publishes on: a step takes one pending call and runs the handler,
  whose publications start further calls.
\<close>

inductive deliver ::
  "(string \<Rightarrow> string + SecurityEnvelope) \<Rightarrow> golib \<Rightarrow> CDSGuard \<times> unit bus_state \<Rightarrow> CDSGuard \<times> unit bus_state \<Rightarrow> bool"
  for unmarshal L where
  handler_call:
    "(h, key, payload) \<in># bs_calls b \<Longrightarrow>
     on_ingress publish_memory unmarshal L n1 n2 g (b\<lparr>bs_calls := bs_calls b - {#(h, key, payload)#}\<rparr>) key payload
       = Some s \<Longrightarrow>
     deliver unmarshal L (g, b) s"

inductive_simps deliver_iff: "deliver unmarshal L (g, b) s"

definition guarded_bus :: "(string \<times> string) list \<Rightarrow> (string \<times> string) list \<Rightarrow> unit bus_state" where
  "guarded_bus taken pending =
     \<lparr>bs_bus = \<lparr>mb_subscribers = [(ingressSelector, [()])], mb_closed = False\<rparr>,
      bs_accepted = taken, bs_calls = mset (map (\<lambda>(k, p). ((), k, p)) pending)\<rparr>"

lemma sec_selected: "HasPrefix key ''sec/'' \<Longrightarrow> MatchesSelector ingressSelector key"
proof -
  assume "HasPrefix key ''sec/''"
  then obtain r where k: "key = ''sec'' @ slash # r" by (auto simp: HasPrefix_def prefix_def)
  have "split_on slash key = ''sec'' # split_on slash r" unfolding k by (rule split_on_append) simp
  moreover have "split_on slash ingressSelector = [''sec'', ''**'']" by (simp add: ingressSelector_def)
  moreover have "split_on slash r \<noteq> []" by simp
  ultimately show ?thesis
    unfolding MatchesSelector_def by (cases "split_on slash r") simp_all
qed

lemma publish_guarded:
  "HasPrefix key ''sec/'' \<Longrightarrow>
     publish_memory (guarded_bus taken pending) key p = (guarded_bus (taken @ [(key, p)]) (pending @ [(key, p)]), None)"
  by (simp add: publish_memory_def guarded_bus_def Publish_def sec_selected)

lemma take_call:
  "bs_calls (guarded_bus taken [(key, p)]) = {#((), key, p)#}"
  "(guarded_bus taken [(key, p)])\<lparr>bs_calls := {#}\<rparr> = guarded_bus taken []"
  by (simp_all add: guarded_bus_def)

lemma deliver_single:
  "deliver unmarshal L (g, guarded_bus taken [(key, p)]) s \<longleftrightarrow>
     (\<exists>n1 n2. on_ingress publish_memory unmarshal L n1 n2 g (guarded_bus taken []) key p = Some s)"
  by (auto simp: deliver_iff take_call)

lemma deliver_idle: "\<not> deliver unmarshal L (g, guarded_bus taken []) s"
  by (simp add: deliver_iff guarded_bus_def)

lemma deliver_passed:
  assumes "accepted_as unmarshal L raw Tier1Public e" and "Telemetry e \<noteq> None" and "\<not> skip_ingress key"
    and "HasPrefix key ''sec/''"
  shows "deliver unmarshal L (g, guarded_bus taken [(key, raw)]) s \<longleftrightarrow>
    s = (count_passed (count_ingress g), guarded_bus (taken @ [(key, raw)]) [(key, raw)])"
proof -
  have "on_ingress publish_memory unmarshal L n1 n2 g (guarded_bus taken []) key raw =
    Some (count_passed (count_ingress g), guarded_bus (taken @ [(key, raw)]) [(key, raw)])" for n1 n2
  proof -
    have v: "unmarshal raw = Inr e" "fst (Validate L (Some e)) = ok ()" "Classification (Header e) = Tier1Public"
      using assms(1) by (simp_all add: accepted_as_def)
    obtain t where "Telemetry e = Some t" using assms(2) by blast
    with v assms(3) show ?thesis
      by (simp add: on_ingress_def ProcessPacket_def ParseJSONEnvelope_def Evaluate_accepted publish_guarded [OF assms(4)]
          Let_def)
  qed
  then show ?thesis unfolding deliver_single by auto
qed

lemma on_ingress_redacted:
  assumes "accepted_as unmarshal L raw Tier2Restricted e" and "Telemetry e = Some t"
    and "RedactAndSanitize (cg_engine g) (Some (normalized e)) = ok s" and "Marshal (json_envelope s) = ok bs"
    and "\<not> skip_ingress key"
  shows "on_ingress pub unmarshal L n1 n2 g b key raw =
    Some (count_redacted (count_ingress g), fst (pub b (egress_key L key (Normalize t)) bs))"
proof -
  have v: "unmarshal raw = Inr e" "fst (Validate L (Some e)) = ok ()" "Classification (Header e) = Tier2Restricted"
    using assms(1) by (simp_all add: accepted_as_def)
  then have "Evaluate L (Some e) = (Some (ActionRedactPass, ReasonNone, None), Some (normalized e))"
    by (simp add: Evaluate_accepted tier_defs)
  with v assms(2-5) show ?thesis
    by (simp add: on_ingress_def ProcessPacket_def ParseJSONEnvelope_def Let_def ok_def)
qed

lemma deliver_redacted:
  assumes "accepted_as unmarshal L raw Tier2Restricted e" and "Telemetry e = Some t"
    and "RedactAndSanitize (cg_engine g) (Some (normalized e)) = ok s" and "Marshal (json_envelope s) = ok bs"
    and "\<not> skip_ingress key"
  shows "deliver unmarshal L (g, guarded_bus taken [(key, raw)]) s' \<longleftrightarrow>
    s' = (count_redacted (count_ingress g),
          guarded_bus (taken @ [(egress_key L key (Normalize t), bs)]) [(egress_key L key (Normalize t), bs)])"
proof -
  let ?k = "egress_key L key (Normalize t)"
  have k: "HasPrefix ?k ''sec/''" using egress_key_prefix [of L key] by (auto simp: HasPrefix_def prefix_def)
  have "on_ingress publish_memory unmarshal L n1 n2 g (guarded_bus taken []) key raw =
    Some (count_redacted (count_ingress g), guarded_bus (taken @ [(?k, bs)]) [(?k, bs)])" for n1 n2
    by (simp add: on_ingress_redacted [OF assms] publish_guarded [OF k])
  then show ?thesis unfolding deliver_single by auto
qed

lemma deliver_skipped:
  "skip_ingress key \<Longrightarrow> deliver unmarshal L (g, guarded_bus taken [(key, raw)]) s \<longleftrightarrow> s = (g, guarded_bus taken [])"
  by (auto simp: deliver_single on_ingress_def)

section \<open>Properties\<close>

definition decode_only :: "SecurityEnvelope \<Rightarrow> string \<Rightarrow> string + SecurityEnvelope" where
  "decode_only e raw = (if raw = ''p'' then Inr e else Inl ''unexpected end of JSON input'')"

definition sample_guard :: CDSGuard where
  "sample_guard = NewCDSGuard \<lparr>dq_records = [], dq_maxCapacity = 500, dq_auditFilePath = '''', dq_auditFile = None\<rparr> 2"

lemma sample_accepted:
  assumes "ValidTiers c"
  obtains e where "accepted_as (decode_only e) L ''p'' c e" and "Telemetry e = Some (Normalize sample)"
proof (rule sample_envelope [OF assms, of L "[]"])
  fix e s
  assume "Validate L (Some e) = (ok (), Some e)" "Telemetry e = Some (Normalize sample)"
    "Header e = \<lparr>Classification = c, OriginEnclave = ''edge'', TimestampNs = 6,
          MessageID = ''msg-'' @ fmt_d 5 @ ''-'' @ VehicleID sample, Digest = digest_of s, Caveats = []\<rparr>"
  then show thesis using that [of e] by (simp add: accepted_as_def decode_only_def)
qed

lemma sample_skip [simp]: "\<not> skip_ingress ''sec/tier2/drone/blue/alpha/telemetry''"
  "\<not> skip_ingress ''sec/tier3/drone/blue/alpha/telemetry''"
  "HasPrefix ''sec/tier2/drone/blue/alpha/telemetry'' ''sec/''"
  by (simp_all add: skip_ingress_def HasPrefix_def HasSuffix_def suffix_def prefix_def)

text \<open>C5. Egress is fail-closed: whatever packets reach the guard, everything the router accepts from
  it is either an unchanged packet that validates as TIER-1 telemetry, on the key it came on, or, under
  \<^verbatim>\<open>sec/tier1/\<close>, the JSON text of the sanitised TIER-1 form of a packet that validates as
  TIER-2 telemetry; no packet yields two publications.\<close>

theorem guard_egress_fail_closed:
  assumes "guard_run publish_rest unmarshal L (g, r) ps = Some (g', r')"
  shows "\<exists>new. rs_accepted r' = rs_accepted r @ new \<and> length new \<le> length ps \<and>
    (\<forall>out \<in> set new. \<exists>n1 n2 key raw. (n1, n2, key, raw) \<in> set ps \<and> \<not> skip_ingress key \<and>
       justified unmarshal L (cg_engine g) key raw out)"
  by (rule rest.guard_run_accepted [OF assms])

text \<open>A valid TIER-2 packet and one that does not parse: one sanitised packet comes out.\<close>

theorem guard_egress_fail_closed_witness:
  "\<forall>L. \<exists>e g' r' key bs. accepted_as (decode_only e) L ''p'' Tier2Restricted e \<and>
     guard_run publish_rest (decode_only e) L
       (sample_guard, \<lparr>rs_client = NewRESTClient ''http://r'', rs_answers = [Inr (200, '''')], rs_accepted = []\<rparr>)
       [(1, 2, ''sec/tier2/drone/blue/alpha/telemetry'', ''p''),
        (3, 4, ''sec/tier2/drone/blue/alpha/telemetry'', ''x'')] = Some (g', r') \<and>
     rs_accepted r' = [(key, bs)] \<and> HasPrefix key ''sec/tier1/''"
proof
  fix L
  let ?r = "\<lparr>rs_client = NewRESTClient ''http://r'', rs_answers = [Inr (200, '''')], rs_accepted = []\<rparr>"
  let ?k = "''sec/tier2/drone/blue/alpha/telemetry''"
  let ?ps = "[(1 :: int, 2 :: int, ?k, ''p''), (3, 4, ?k, ''x'')]"
  obtain e where e: "accepted_as (decode_only e) L ''p'' Tier2Restricted e" "Telemetry e = Some (Normalize sample)"
    by (rule sample_accepted [of Tier2Restricted L]) (simp_all add: ValidTiers_def)
  have d: "GPSCoarsenDecimals (cg_engine sample_guard) \<le> 12" by (simp add: sample_guard_def NewCDSGuard_def NewPolicyEngine_def)
  have "fst (Validate L (Some e)) = ok ()" using e(1) by (simp add: accepted_as_def)
  from redaction_validates [OF this e(2) _ d] obtain s where
    s: "RedactAndSanitize (cg_engine sample_guard) (Some (normalized e)) = ok s" by (auto simp: Normalize_physical)
  then obtain bs where bs: "Marshal (json_envelope s) = ok bs" by (rule RedactAndSanitize_result)
  define key where "key = egress_key L ?k (Normalize (Normalize sample))"
  let ?r1 = "?r\<lparr>rs_answers := [], rs_accepted := [(key, bs)]\<rparr>"
  have "publish_rest ?r key bs = (?r1, None)" by (simp add: publish_rest_def Publish_rest_def Let_def)
  then have "on_ingress publish_rest (decode_only e) L 1 2 sample_guard ?r ?k ''p'' =
      Some (count_redacted (count_ingress sample_guard), ?r1)"
    using on_ingress_redacted [OF e s bs sample_skip(1), of publish_rest 1 2 ?r] by (simp add: key_def)
  moreover obtain g' where "on_ingress publish_rest (decode_only e) L 3 4
      (count_redacted (count_ingress sample_guard)) ?r1 ?k ''x'' = Some (g', ?r1)"
    by (simp add: on_ingress_def ProcessPacket_def ParseJSONEnvelope_def decode_only_def Let_def)
  ultimately have run: "guard_run publish_rest (decode_only e) L (sample_guard, ?r) ?ps = Some (g', ?r1)" by simp
  have "justified (decode_only e) L (cg_engine sample_guard) ?k ''p'' (key, bs) \<or>
      justified (decode_only e) L (cg_engine sample_guard) ?k ''x'' (key, bs)"
    using guard_egress_fail_closed [OF run] by auto
  then have "HasPrefix key ''sec/tier1/''"
    using e(1) by (auto simp: justified_def accepted_as_def decode_only_def tier_defs)
  with e(1) run show "\<exists>e g' r' key bs. accepted_as (decode_only e) L ''p'' Tier2Restricted e \<and>
     guard_run publish_rest (decode_only e) L (sample_guard, ?r) ?ps = Some (g', r') \<and>
     rs_accepted r' = [(key, bs)] \<and> HasPrefix key ''sec/tier1/''"
    by (intro exI conjI) (assumption | simp)+
qed



text \<open>C23. A redacted packet settles: on the bus the guard itself publishes on, a TIER-2 telemetry
  packet is delivered, its sanitised form published once under \<^verbatim>\<open>sec/tier1/\<close> and delivered
  back, and then nothing is pending: no run has a third delivery.\<close>

theorem redacted_packet_settles:
  assumes "accepted_as unmarshal L raw Tier2Restricted e" and "Telemetry e = Some t" and "physical t"
    and "GPSCoarsenDecimals (cg_engine g) \<le> 12" and "\<not> skip_ingress key"
  shows "\<exists>bs. (\<forall>s. (deliver unmarshal L ^^ 2) (g, guarded_bus taken [(key, raw)]) s \<longleftrightarrow>
      s = (count_redacted (count_ingress g), guarded_bus (taken @ [(egress_key L key (Normalize t), bs)]) [])) \<and>
    (\<forall>s. \<not> (deliver unmarshal L ^^ 3) (g, guarded_bus taken [(key, raw)]) s)"
proof -
  have "fst (Validate L (Some e)) = ok ()" using assms(1) by (simp add: accepted_as_def)
  then obtain s where s: "RedactAndSanitize (cg_engine g) (Some (normalized e)) = ok s"
    by (rule redaction_validates [OF _ assms(2-4)])
  then obtain bs where bs: "Marshal (json_envelope s) = ok bs" by (rule RedactAndSanitize_result)
  show ?thesis
    by (intro exI [of _ bs])
      (auto simp: numeral_2_eq_2 numeral_3_eq_3 OO_def deliver_redacted [OF assms(1,2) s bs assms(5)]
        deliver_skipped [OF egress_key_skipped] deliver_idle)
qed

theorem redacted_packet_settles_witness:
  "\<forall>L. \<exists>e s. accepted_as (decode_only e) L ''p'' Tier2Restricted e \<and>
     (deliver (decode_only e) L ^^ 2)
       (sample_guard, guarded_bus [] [(''sec/tier2/drone/blue/alpha/telemetry'', ''p'')]) s \<and> bs_calls (snd s) = {#}"
proof
  fix L
  let ?k = "''sec/tier2/drone/blue/alpha/telemetry''"
  obtain e where e: "accepted_as (decode_only e) L ''p'' Tier2Restricted e" "Telemetry e = Some (Normalize sample)"
    by (rule sample_accepted [of Tier2Restricted L]) (simp_all add: ValidTiers_def)
  have d: "GPSCoarsenDecimals (cg_engine sample_guard) \<le> 12" by (simp add: sample_guard_def NewCDSGuard_def NewPolicyEngine_def)
  from redacted_packet_settles [OF e Normalize_physical d sample_skip(1), of "[]"] obtain bs where
    "(deliver (decode_only e) L ^^ 2) (sample_guard, guarded_bus [] [(?k, ''p'')])
       (count_redacted (count_ingress sample_guard),
        guarded_bus [(egress_key L ?k (Normalize (Normalize sample)), bs)] [])" by auto
  with e(1) show "\<exists>e s. accepted_as (decode_only e) L ''p'' Tier2Restricted e \<and>
     (deliver (decode_only e) L ^^ 2) (sample_guard, guarded_bus [] [(?k, ''p'')]) s \<and> bs_calls (snd s) = {#}"
    by (intro exI [of _ e] exI conjI) (auto simp: guarded_bus_def)
qed

text \<open>A passed packet never settles: valid TIER-1 telemetry on a key outside
  \<^verbatim>\<open>sec/tier1/\<close> is republished on its own key, which the guard subscribes to, so after any
  number of deliveries the same packet is pending again and has been published once more each time.\<close>

theorem tier1_echo_never_settles:
  assumes "accepted_as unmarshal L raw Tier1Public e" and "Telemetry e \<noteq> None" and "\<not> skip_ingress key"
    and "HasPrefix key ''sec/''"
  shows "(deliver unmarshal L ^^ n) (g, guarded_bus taken [(key, raw)]) s \<longleftrightarrow>
    s = (((\<lambda>g. count_passed (count_ingress g)) ^^ n) g, guarded_bus (taken @ replicate n (key, raw)) [(key, raw)])"
proof (induction n arbitrary: s)
  case (Suc n)
  have "(deliver unmarshal L ^^ Suc n) (g, guarded_bus taken [(key, raw)]) s \<longleftrightarrow>
      (\<exists>s1. (deliver unmarshal L ^^ n) (g, guarded_bus taken [(key, raw)]) s1 \<and> deliver unmarshal L s1 s)"
    by (auto simp: OO_def)
  then show ?case
    unfolding Suc by (auto simp: deliver_passed [OF assms] replicate_append_same)
qed auto

theorem tier1_echo_never_settles_witness:
  "\<forall>L. \<exists>e s. accepted_as (decode_only e) L ''p'' Tier1Public e \<and>
     (deliver (decode_only e) L ^^ 1000)
       (sample_guard, guarded_bus [] [(''sec/tier2/drone/blue/alpha/telemetry'', ''p'')]) s \<and>
     length (bs_accepted (snd s)) = 1000"
proof
  fix L
  let ?k = "''sec/tier2/drone/blue/alpha/telemetry''"
  obtain e where e: "accepted_as (decode_only e) L ''p'' Tier1Public e" "Telemetry e = Some (Normalize sample)"
    by (rule sample_accepted [of Tier1Public L]) (simp_all add: ValidTiers_def)
  then have "Telemetry e \<noteq> None" by simp
  from tier1_echo_never_settles [OF e(1) this sample_skip(1,3), of 1000 sample_guard "[]"] e(1)
  show "\<exists>e s. accepted_as (decode_only e) L ''p'' Tier1Public e \<and>
     (deliver (decode_only e) L ^^ 1000) (sample_guard, guarded_bus [] [(?k, ''p'')]) s \<and>
     length (bs_accepted (snd s)) = 1000"
    by (intro exI [of _ e] exI [of _ "(((\<lambda>g. count_passed (count_ingress g)) ^^ 1000) sample_guard,
        guarded_bus (replicate 1000 (?k, ''p'')) [(?k, ''p'')])"]) (simp add: guarded_bus_def)
qed

text \<open>A TIER-1 command stops the guard: a valid command envelope that validates and reaches the
  pipeline (its key not ending in \<^verbatim>\<open>/command\<close>) makes it read the telemetry the envelope does
  not have, which is a run-time panic.\<close>

theorem tier1_command_panics:
  assumes "NewCommandEnvelope L now1 now2 Tier1Public origin cmd caveats = ok e"
    and "command_ok cmd" and "IssuedAtNs cmd \<noteq> 0" and "origin \<noteq> ''''" and "now2 \<noteq> 0"
    and "unmarshal raw = Inr e" and "\<not> skip_ingress key"
  shows "on_ingress pub unmarshal L n1 n2 g b key raw = None"
proof -
  have "ValidTiers Tier1Public" by (simp add: ValidTiers_def)
  then obtain e' s s' where e': "NewCommandEnvelope L now1 now2 Tier1Public origin cmd caveats = ok e'"
    and t: "Telemetry e' = None" and s: "Marshal (json_command cmd) = ok s"
      "Marshal (json_command (if IssuedAtNs cmd = 0 then cmd\<lparr>IssuedAtNs := now1\<rparr> else cmd)) = ok s'"
    and v: "fst (Validate L (Some e')) = ok () \<longleftrightarrow> sha256 (bytes_of s) = sha256 (bytes_of s')"
    by (rule command_envelope_validates_iff [OF _ assms(4,5,2)]) blast
  have e: "e' = e" using e' assms(1) by simp
  have "fst (Validate L (Some e)) = ok ()" using v s assms(3) by (simp add: e)
  moreover have "Classification (Header e) = Tier1Public"
    using assms(1) s(1) NewCommandEnvelope_ok [OF \<open>ValidTiers Tier1Public\<close> s(1), of L now1 now2 origin caveats] by auto
  ultimately have "Evaluate L (Some e) = (Some (ActionPass, ReasonNone, None), Some (normalized e))"
    by (simp add: Evaluate_accepted)
  then show ?thesis
    using assms(6,7) t by (simp add: on_ingress_def ProcessPacket_def ParseJSONEnvelope_def e Let_def)
qed

theorem tier1_command_panics_witness:
  "\<forall>L. \<exists>e. NewCommandEnvelope L 5 6 Tier1Public ''c2'' \<lparr>CommandID = ''c'', TargetVehicle = ''alpha'',
       CommandType = ''RTB'', Parameters = None, IssuedAtNs = 4, Issuer = ''op''\<rparr> [] = ok e \<and>
     on_ingress publish_memory (decode_only e) L 1 2 sample_guard (guarded_bus [] [])
       ''sec/tier3/drone/blue/alpha/telemetry'' ''p'' = None"
proof
  fix L
  let ?c = "\<lparr>CommandID = ''c'', TargetVehicle = ''alpha'', CommandType = ''RTB'', Parameters = None,
       IssuedAtNs = 4, Issuer = ''op''\<rparr>"
  have c: "command_ok ?c" by (simp add: command_ok_def payload_finite_def)
  obtain js where "Marshal (json_command ?c) = ok js"
    using Marshal_ok_iff [of "json_command ?c"] by (auto simp: payload_finite_def)
  from NewCommandEnvelope_ok [OF _ this, of Tier1Public] obtain e where
    e: "NewCommandEnvelope L 5 6 Tier1Public ''c2'' ?c [] = ok e" by (simp add: ValidTiers_def)
  have "on_ingress publish_memory (decode_only e) L 1 2 sample_guard (guarded_bus [] [])
       ''sec/tier3/drone/blue/alpha/telemetry'' ''p'' = None"
    by (rule tier1_command_panics [OF e c]) (simp_all add: decode_only_def)
  with e show "\<exists>e. NewCommandEnvelope L 5 6 Tier1Public ''c2'' ?c [] = ok e \<and>
     on_ingress publish_memory (decode_only e) L 1 2 sample_guard (guarded_bus [] [])
       ''sec/tier3/drone/blue/alpha/telemetry'' ''p'' = None" by blast
qed

end
