(* ===== verification/Mavlink_Crc.thy ===== *)
theory Mavlink_Crc
  imports Prelude
begin

text \<open>
  The MAVLink checksum (\<^verbatim>\<open>pkg/mavlink/crc.go\<close>): the accumulator object, its byte step and
  the seed byte of each supported message. The reference is the textbook bit-serial register with
  the reflected CCITT polynomial; the lemmas show that the shift-and-xor byte step of the code is
  eight register shifts, that it is injective in the register and in the byte, and that a
  corruption confined to two neighbouring bytes always changes the checksum.
\<close>

section \<open>Model\<close>

definition MsgIDHeartbeat :: u32 where "MsgIDHeartbeat = 0"
definition MsgIDSysStatus :: u32 where "MsgIDSysStatus = 1"
definition MsgIDAttitude :: u32 where "MsgIDAttitude = 30"
definition MsgIDGlobalPositionInt :: u32 where "MsgIDGlobalPositionInt = 33"
definition MsgIDCommandLong :: u32 where "MsgIDCommandLong = 76"
definition MsgIDCommandAck :: u32 where "MsgIDCommandAck = 77"

lemmas msg_id_defs = MsgIDHeartbeat_def MsgIDSysStatus_def MsgIDAttitude_def
  MsgIDGlobalPositionInt_def MsgIDCommandLong_def MsgIDCommandAck_def

record X25CRC =
  crc :: u16

definition NewX25CRC :: X25CRC where
  "NewX25CRC = \<lparr>crc = 0xFFFF\<rparr>"

definition Accumulate :: "X25CRC \<Rightarrow> byte \<Rightarrow> X25CRC" where
  "Accumulate c b =
     (let ch = b XOR ucast (crc c AND 0xFF);
          ch = ch XOR push_bit 4 ch
      in c\<lparr>crc := drop_bit 8 (crc c) XOR push_bit 8 (ucast ch) XOR push_bit 3 (ucast ch)
                   XOR drop_bit 4 (ucast ch)\<rparr>)"

fun AccumulateBytes :: "X25CRC \<Rightarrow> bytes \<Rightarrow> X25CRC" where
  "AccumulateBytes c [] = c"
| "AccumulateBytes c (b # bs) = AccumulateBytes (Accumulate c b) bs"

definition Value :: "X25CRC \<Rightarrow> u16" where
  "Value c = crc c"

definition CRCExtraHeartbeat :: byte where "CRCExtraHeartbeat = 50"
definition CRCExtraSysStatus :: byte where "CRCExtraSysStatus = 124"
definition CRCExtraAttitude :: byte where "CRCExtraAttitude = 39"
definition CRCExtraGlobalPositionInt :: byte where "CRCExtraGlobalPositionInt = 104"
definition CRCExtraCommandLong :: byte where "CRCExtraCommandLong = 152"
definition CRCExtraCommandAck :: byte where "CRCExtraCommandAck = 143"

definition GetCRCExtra :: "u32 \<Rightarrow> byte \<times> bool" where
  "GetCRCExtra msgID =
     (if msgID = MsgIDHeartbeat then (CRCExtraHeartbeat, True)
      else if msgID = MsgIDSysStatus then (CRCExtraSysStatus, True)
      else if msgID = MsgIDAttitude then (CRCExtraAttitude, True)
      else if msgID = MsgIDGlobalPositionInt then (CRCExtraGlobalPositionInt, True)
      else if msgID = MsgIDCommandLong then (CRCExtraCommandLong, True)
      else if msgID = MsgIDCommandAck then (CRCExtraCommandAck, True)
      else (0, False))"

section \<open>Reference: the bit-serial register\<close>

definition crc_bit :: "u16 \<Rightarrow> u16" where
  "crc_bit v = (if bit v 0 then drop_bit 1 v XOR 0x8408 else drop_bit 1 v)"

definition crc_byte :: "u16 \<Rightarrow> byte \<Rightarrow> u16" where
  "crc_byte v b = (crc_bit ^^ 8) (v XOR ucast b)"

text \<open>The byte that the code xors into the register, and the two halves of the step.\<close>

definition fold_nibble :: "byte \<Rightarrow> byte" where
  "fold_nibble s = s XOR push_bit 4 s"

definition spread :: "byte \<Rightarrow> u16" where
  "spread s = push_bit 8 (ucast s) XOR push_bit 3 (ucast s) XOR drop_bit 4 (ucast s)"

section \<open>The byte step is eight shifts of the register\<close>

lemma all_lt16:
  "(\<forall>n<16. P n) \<longleftrightarrow> P 0 \<and> P 1 \<and> P 2 \<and> P 3 \<and> P 4 \<and> P 5 \<and> P 6 \<and> P 7 \<and> P 8 \<and> P 9
     \<and> P 10 \<and> P 11 \<and> P 12 \<and> P 13 \<and> P 14 \<and> P (15::nat)"
  by (auto simp: numeral_eq_Suc All_less_Suc)

lemma bit_poly: "bit (0x8408 :: u16) n \<longleftrightarrow> n = 3 \<or> n = 10 \<or> n = 15"
proof (cases "n < 16")
  case True
  have "\<forall>n<16. bit (0x8408 :: u16) n \<longleftrightarrow> n = 3 \<or> n = 10 \<or> n = 15"
    unfolding all_lt16 by simp
  with True show ?thesis by blast
qed (auto dest: bit_imp_le_length)

lemma bit_crc_bit:
  "bit (crc_bit v) n \<longleftrightarrow> (bit v (n + 1) \<noteq> (bit v 0 \<and> (n = 3 \<or> n = 10 \<or> n = 15)))"
  using bit_poly [of n] by (simp add: crc_bit_def bit_xor_iff bit_drop_bit_eq)

lemma bit_fold_nibble:
  "bit (fold_nibble s) n \<longleftrightarrow> (bit s n \<noteq> (4 \<le> n \<and> n < 8 \<and> bit s (n - 4)))"
  by (auto simp: fold_nibble_def bit_simps)

lemma bit_spread:
  assumes "n < 16"
  shows "bit (spread s) n \<longleftrightarrow>
     (((8 \<le> n \<and> bit s (n - 8)) \<noteq> (3 \<le> n \<and> bit s (n - 3))) \<noteq> bit s (n + 4))"
proof -
  have "bit (push_bit k (ucast s :: u16)) n \<longleftrightarrow> k \<le> n \<and> bit s (n - k)" for k
    using assms by (auto simp: bit_push_bit_iff bit_unsigned_iff)
  moreover have "bit (drop_bit 4 (ucast s :: u16)) n \<longleftrightarrow> bit s (n + 4)"
    by (auto simp: bit_drop_bit_eq bit_unsigned_iff add.commute)
  ultimately show ?thesis
    by (simp only: spread_def bit_xor_iff) blast
qed

lemma crc_Accumulate:
  "crc (Accumulate c b) = drop_bit 8 (crc c) XOR spread (fold_nibble (b XOR ucast (crc c)))"
  by (simp add: Accumulate_def Let_def ucast_low_byte fold_nibble_def spread_def xor.assoc)

lemma funpow_8: "(f ^^ 8) x = f (f (f (f (f (f (f (f x)))))))"
  by (simp add: numeral_eq_Suc)

lemma crc_Accumulate_bits: "crc (Accumulate c b) = crc_byte (crc c) b"
proof -
  have "\<forall>n<16. bit (crc (Accumulate c b)) n = bit (crc_byte (crc c) b) n"
    unfolding all_lt16 crc_Accumulate crc_byte_def funpow_8
    by (intro conjI, simp_all add: bit_crc_bit bit_spread bit_fold_nibble bit_xor_iff
        bit_drop_bit_eq bit_unsigned_iff del: One_nat_def, auto)
  then show ?thesis by (intro bit_word_eqI) simp
qed

section \<open>Injectivity and burst detection\<close>

lemma inj_crc_bit: "inj crc_bit"
proof (rule injI)
  fix v w assume eq: "crc_bit v = crc_bit w"
  have low: "bit v 0 = bit w 0"
    using arg_cong [OF eq, of "\<lambda>x. bit x 15"] bit_imp_le_length [of v 16] bit_imp_le_length [of w 16]
    by (auto simp: bit_crc_bit)
  have "bit v n = bit w n" for n
    using arg_cong [OF eq, of "\<lambda>x. bit x (n - 1)"] low by (cases n) (auto simp: bit_crc_bit)
  then show "v = w" by (auto intro: bit_word_eqI)
qed

lemma crc_byte_eq_iff: "crc_byte v a = crc_byte w b \<longleftrightarrow> v XOR ucast a = w XOR ucast b"
  by (simp add: crc_byte_def inj_eq [OF inj_fn [OF inj_crc_bit]])

lemma crc_Accumulate_inject: "crc (Accumulate c b) = crc (Accumulate d b) \<Longrightarrow> c = d"
  by (simp add: crc_Accumulate_bits crc_byte_eq_iff)

lemma Accumulate_inject: "Accumulate c b = Accumulate d b \<Longrightarrow> c = d"
  using crc_Accumulate_inject [of c b d] by simp

lemma AccumulateBytes_append:
  "AccumulateBytes c (xs @ ys) = AccumulateBytes (AccumulateBytes c xs) ys"
  by (induction xs arbitrary: c) simp_all

lemma AccumulateBytes_inject: "AccumulateBytes c bs = AccumulateBytes d bs \<Longrightarrow> c = d"
  by (induction bs arbitrary: c d) (auto dest: Accumulate_inject)

lemma fold_nibble_inject: "fold_nibble s = fold_nibble t \<longleftrightarrow> s = t"
proof
  assume eq: "fold_nibble s = fold_nibble t"
  have low: "bit s n = bit t n" if "n < 4" for n
    using arg_cong [OF eq, of "\<lambda>x. bit x n"] that by (simp add: bit_fold_nibble)
  have "bit s n = bit t n" if "n < 8" for n
  proof (cases "n < 4")
    case False
    then have "bit s (n - 4) = bit t (n - 4)" using low [of "n - 4"] that by simp
    then show ?thesis
      using arg_cong [OF eq, of "\<lambda>x. bit x n"] that False by (auto simp: bit_fold_nibble)
  qed (rule low)
  then show "s = t" by (auto intro: bit_word_eqI)
qed simp

text \<open>The high byte of the spread determines the spread byte: bits 11 to 15 carry its bits 3
  to 7 alone, and those give back the three lower ones.\<close>

lemma spread_high_inject:
  assumes "\<And>n. 8 \<le> n \<Longrightarrow> n < 16 \<Longrightarrow> bit (spread s) n = bit (spread t) n"
  shows "s = t"
proof -
  have hi: "bit s n = bit t n" if "3 \<le> n" "n < 8" for n
    using assms [of "n + 8"] that by (simp add: bit_spread)
  have "bit s n = bit t n" if "n < 8" for n
  proof (cases "3 \<le> n")
    case False
    then have "bit s (n + 5) = bit t (n + 5)" using hi [of "n + 5"] by simp
    with assms [of "n + 8"] False show ?thesis by (auto simp: bit_spread add.commute)
  qed (use hi that in blast)
  then show ?thesis by (auto intro: bit_word_eqI)
qed

lemma burst_step:
  assumes "Accumulate (Accumulate c a) a' = Accumulate (Accumulate c b) b'"
  shows "a = b \<and> a' = b'"
proof -
  let ?va = "crc (Accumulate c a)" and ?vb = "crc (Accumulate c b)"
  from arg_cong [OF assms, of crc] have eq: "?va XOR ucast a' = ?vb XOR ucast b'"
    by (simp only: crc_Accumulate_bits crc_byte_eq_iff)
  have "bit ?va n = bit ?vb n" if "8 \<le> n" "n < 16" for n
    using arg_cong [OF eq, of "\<lambda>x. bit x n"] that by (simp add: bit_xor_iff bit_unsigned_iff)
  then have "fold_nibble (a XOR ucast (crc c)) = fold_nibble (b XOR ucast (crc c))"
    by (intro spread_high_inject) (force simp: crc_Accumulate bit_xor_iff)
  then have "a = b" by (simp add: fold_nibble_inject)
  moreover from this eq have "a' = b'"
    by simp
  ultimately show ?thesis ..
qed

lemma AccumulateBytes_burst:
  assumes "AccumulateBytes c (xs @ [a, a'] @ ys) = AccumulateBytes c (xs @ [b, b'] @ ys)"
  shows "a = b \<and> a' = b'"
proof -
  have "AccumulateBytes (AccumulateBytes c xs) [a, a'] = AccumulateBytes (AccumulateBytes c xs) [b, b']"
    using assms AccumulateBytes_inject by (metis AccumulateBytes_append)
  then show ?thesis using burst_step by simp
qed

end
