(* ===== verification/Mavlink_Frame.thy ===== *)
theory Mavlink_Frame
  imports Mavlink_Crc Go_Text
begin

text \<open>
  MAVLink v2 framing (\<^verbatim>\<open>DecodeFrame\<close> and \<^verbatim>\<open>EncodeFrame\<close> of
  \<^verbatim>\<open>pkg/mavlink/messages.go\<close>). Every index and slice expression of the decoder goes through
  the checked accessors, so a panic would be the value \<open>None\<close>; the lemmas show there is none,
  that decoding inverts encoding, that a decoded packet is the encoding of its fields, and that a
  corrupted packet is refused.
\<close>

section \<open>Model\<close>

definition MagicV2 :: byte where "MagicV2 = 0xFD"
definition HeaderLenV2 :: nat where "HeaderLenV2 = 10"
definition ChecksumLen :: nat where "ChecksumLen = 2"

record Frame =
  fr_Magic :: byte
  fr_PayloadLength :: byte
  fr_IncompatFlags :: byte
  fr_CompatFlags :: byte
  fr_Sequence :: byte
  fr_SystemID :: byte
  fr_ComponentID :: byte
  fr_MessageID :: u32
  fr_Payload :: bytes
  fr_Checksum :: u16

text \<open>The checksum of the decoder and the encoder: everything but the magic byte, then the seed
  byte of a supported message.\<close>

definition frame_crc :: "u32 \<Rightarrow> bytes \<Rightarrow> u16" where
  "frame_crc msgID covered =
     (let c = AccumulateBytes NewX25CRC covered
      in case GetCRCExtra msgID of
           (crcExtra, True) \<Rightarrow> Value (Accumulate c crcExtra)
         | (_, False) \<Rightarrow> Value c)"

definition DecodeFrame :: "bytes \<Rightarrow> Frame go" where
  "DecodeFrame data =
     (if length data < HeaderLenV2 + ChecksumLen then fail ''mavlink packet too short''
      else do {
        d0 \<leftarrow> idx data 0;
        if d0 \<noteq> MagicV2
        then fail (''unsupported magic byte 0x'' @ fmt_X 2 (uint d0) @ '' (expected MAVLink v2 0xFD)'')
        else do {
          d1 \<leftarrow> idx data 1;
          let payloadLen = unat d1;
          let expectedTotalLen = HeaderLenV2 + payloadLen + ChecksumLen;
          if length data < expectedTotalLen
          then fail (''packet length '' @ fmt_nat (length data) @ '' shorter than expected ''
                     @ fmt_nat expectedTotalLen)
          else do {
            d7 \<leftarrow> idx data 7;
            d8 \<leftarrow> idx data 8;
            d9 \<leftarrow> idx data 9;
            let msgID = (ucast d7 OR push_bit 8 (ucast d8) OR push_bit 16 (ucast d9) :: u32);
            d2 \<leftarrow> idx data 2;
            d3 \<leftarrow> idx data 3;
            d4 \<leftarrow> idx data 4;
            d5 \<leftarrow> idx data 5;
            d6 \<leftarrow> idx data 6;
            checksum \<leftarrow> Uint16 data (HeaderLenV2 + payloadLen) expectedTotalLen;
            payload \<leftarrow> slice HeaderLenV2 (HeaderLenV2 + payloadLen) data;
            let frame = \<lparr>fr_Magic = d0, fr_PayloadLength = d1, fr_IncompatFlags = d2,
                         fr_CompatFlags = d3, fr_Sequence = d4, fr_SystemID = d5,
                         fr_ComponentID = d6, fr_MessageID = msgID, fr_Payload = payload,
                         fr_Checksum = checksum\<rparr>;
            if snd (GetCRCExtra msgID) then do {
              covered \<leftarrow> slice 1 (HeaderLenV2 + payloadLen) data;
              let computed = frame_crc msgID covered;
              if computed \<noteq> fr_Checksum frame
              then fail (''crc mismatch: packet has 0x'' @ fmt_X 4 (uint (fr_Checksum frame))
                         @ '', computed 0x'' @ fmt_X 4 (uint computed))
              else ok frame
            } else ok frame
          }
        }
      })"

definition frame_header :: "byte \<Rightarrow> byte \<Rightarrow> byte \<Rightarrow> u32 \<Rightarrow> nat \<Rightarrow> bytes" where
  "frame_header sysID compID seq msgID payloadLen =
     [of_nat payloadLen, 0, 0, seq, sysID, compID,
      ucast (msgID AND 0xFF), ucast (drop_bit 8 msgID AND 0xFF), ucast (drop_bit 16 msgID AND 0xFF)]"

definition EncodeFrame :: "byte \<Rightarrow> byte \<Rightarrow> byte \<Rightarrow> u32 \<Rightarrow> bytes \<Rightarrow> bytes go" where
  "EncodeFrame sysID compID seq msgID payload =
     (if length payload > 255 then fail ''payload length exceeds maximum 255 bytes''
      else let covered = frame_header sysID compID seq msgID (length payload) @ payload
           in ok (MagicV2 # covered @ put16 (frame_crc msgID covered)))"

lemmas frame_consts = MagicV2_def HeaderLenV2_def ChecksumLen_def

section \<open>Decoding in one equation\<close>

text \<open>The fields of a packet by position, and the condition under which they are accepted.\<close>

definition frame_at :: "bytes \<Rightarrow> Frame" where
  "frame_at data =
     (let n = unat (data ! 1)
      in \<lparr>fr_Magic = data ! 0, fr_PayloadLength = data ! 1, fr_IncompatFlags = data ! 2,
          fr_CompatFlags = data ! 3, fr_Sequence = data ! 4, fr_SystemID = data ! 5,
          fr_ComponentID = data ! 6,
          fr_MessageID = ucast (data ! 7) OR push_bit 8 (ucast (data ! 8)) OR push_bit 16 (ucast (data ! 9)),
          fr_Payload = take n (drop 10 data),
          fr_Checksum = join16 (data ! (10 + n)) (data ! (11 + n))\<rparr>)"

definition covered :: "bytes \<Rightarrow> bytes" where
  "covered data = take (9 + unat (data ! 1)) (drop 1 data)"

definition packet_ok :: "bytes \<Rightarrow> bool" where
  "packet_ok data \<longleftrightarrow>
     12 \<le> length data \<and> data ! 0 = MagicV2 \<and> 12 + unat (data ! 1) \<le> length data \<and>
     (snd (GetCRCExtra (fr_MessageID (frame_at data))) \<longrightarrow>
        frame_crc (fr_MessageID (frame_at data)) (covered data) = fr_Checksum (frame_at data))"

lemma DecodeFrame_in_range:
  assumes "12 \<le> length data" and "data ! 0 = MagicV2" and "12 + unat (data ! 1) \<le> length data"
  shows "DecodeFrame data =
    (let f = frame_at data; computed = frame_crc (fr_MessageID f) (covered data)
     in if snd (GetCRCExtra (fr_MessageID f)) \<and> computed \<noteq> fr_Checksum f
        then fail (''crc mismatch: packet has 0x'' @ fmt_X 4 (uint (fr_Checksum f))
                   @ '', computed 0x'' @ fmt_X 4 (uint computed))
        else ok f)"
proof -
  have at: "idx data k = Some (data ! k)" if "k < 12" for k
    using assms(1) that by (intro idx_Some) linarith
  show ?thesis
    using assms
    by (simp add: DecodeFrame_def frame_at_def covered_def frame_consts Let_def add.commute at)
qed

lemma DecodeFrame_out_of_range:
  assumes "\<not> (12 \<le> length data \<and> data ! 0 = MagicV2 \<and> 12 + unat (data ! 1) \<le> length data)"
  shows "\<exists>e. DecodeFrame data = fail e"
proof -
  have at: "idx data k = Some (data ! k)" if "12 \<le> length data" "k < 12" for k
    using that by (intro idx_Some) linarith
  then show ?thesis
    using assms by (cases "12 \<le> length data") (auto simp: DecodeFrame_def frame_consts Let_def at)
qed

lemma DecodeFrame_cases:
  "if packet_ok data then DecodeFrame data = ok (frame_at data) else \<exists>e. DecodeFrame data = fail e"
proof (cases "12 \<le> length data \<and> data ! 0 = MagicV2 \<and> 12 + unat (data ! 1) \<le> length data")
  case True
  then show ?thesis by (simp add: DecodeFrame_in_range packet_ok_def Let_def)
next
  case False
  then show ?thesis using DecodeFrame_out_of_range [OF False] by (auto simp: packet_ok_def)
qed

lemma DecodeFrame_ok_iff: "DecodeFrame data = ok f \<longleftrightarrow> packet_ok data \<and> f = frame_at data"
  using DecodeFrame_cases [of data] by (auto split: if_splits)

lemma DecodeFrame_fail_iff: "(\<exists>e. DecodeFrame data = fail e) \<longleftrightarrow> \<not> packet_ok data"
  using DecodeFrame_cases [of data] by (auto split: if_splits)

lemma DecodeFrame_total: "DecodeFrame data \<noteq> None"
  using DecodeFrame_cases [of data] by (auto simp: go_simps split: if_splits)

section \<open>Encoding\<close>

lemma length_frame_header [simp]: "length (frame_header sysID compID seq msgID n) = 9"
  by (simp add: frame_header_def)

lemma msgID_join:
  assumes "unat msgID < 2 ^ 24"
  shows "ucast (ucast (msgID AND 0xFF) :: byte) OR push_bit 8 (ucast (ucast (drop_bit 8 msgID AND 0xFF) :: byte))
     OR push_bit 16 (ucast (ucast (drop_bit 16 msgID AND 0xFF) :: byte)) = (msgID :: u32)"
proof -
  have "unat (drop_bit 24 msgID) = 0"
    using assms by (simp only: unsigned_drop_bit_eq) (simp add: drop_bit_eq_div take_bit_nat_eq_self)
  then have "drop_bit 24 msgID = 0" by (simp only: unsigned_eq_0_iff)
  then show ?thesis using word32_join [of msgID] by (simp add: ucast_low_byte)
qed

lemma EncodeFrame_ok:
  "length payload \<le> 255 \<Longrightarrow>
     EncodeFrame sysID compID seq msgID payload =
       (let cov = frame_header sysID compID seq msgID (length payload) @ payload
        in ok (MagicV2 # cov @ put16 (frame_crc msgID cov)))"
  by (simp add: EncodeFrame_def)

lemma frame_at_encoded:
  fixes sysID compID seq :: byte
  assumes "length payload \<le> 255" and "unat msgID < 2 ^ 24"
  defines "cov \<equiv> frame_header sysID compID seq msgID (length payload) @ payload"
  shows "frame_at (MagicV2 # cov @ put16 c @ rest) =
      \<lparr>fr_Magic = MagicV2, fr_PayloadLength = of_nat (length payload), fr_IncompatFlags = 0,
       fr_CompatFlags = 0, fr_Sequence = seq, fr_SystemID = sysID, fr_ComponentID = compID,
       fr_MessageID = msgID, fr_Payload = payload, fr_Checksum = c\<rparr>"
    and "covered (MagicV2 # cov @ put16 c @ rest) = cov"
proof -
  have n: "unat (of_nat (length payload) :: byte) = length payload"
    using assms(1) by (simp add: unat_of_nat take_bit_nat_eq_self)
  have "(MagicV2 # cov @ put16 c @ rest) ! 1 = of_nat (length payload)" "length cov = 9 + length payload"
    by (simp_all add: cov_def frame_header_def)
  then show "covered (MagicV2 # cov @ put16 c @ rest) = cov"
    by (simp add: covered_def n)
  show "frame_at (MagicV2 # cov @ put16 c @ rest) =
      \<lparr>fr_Magic = MagicV2, fr_PayloadLength = of_nat (length payload), fr_IncompatFlags = 0,
       fr_CompatFlags = 0, fr_Sequence = seq, fr_SystemID = sysID, fr_ComponentID = compID,
       fr_MessageID = msgID, fr_Payload = payload, fr_Checksum = c\<rparr>"
    using msgID_join [OF assms(2)]
    by (simp add: frame_at_def cov_def frame_header_def n Let_def put16_def nth_append)
qed

lemma packet_split:
  assumes "packet_ok data"
  defines "n \<equiv> unat (data ! 1)"
  shows "take (12 + n) data = data ! 0 # covered data @ [data ! (10 + n), data ! (11 + n)]"
    and "covered data = [data ! 1, data ! 2, data ! 3, data ! 4, data ! 5, data ! 6, data ! 7, data ! 8, data ! 9]
           @ take n (drop 10 data)"
proof -
  have len: "12 + n \<le> length data" using assms(1) by (simp add: packet_ok_def n_def)
  have c: "covered data = take (9 + n) (drop 1 data)" by (simp add: covered_def n_def)
  show "take (12 + n) data = data ! 0 # covered data @ [data ! (10 + n), data ! (11 + n)]"
    using len by (intro nth_equalityI)
      (auto simp: c nth_Cons' nth_append, (rule arg_cong [of _ _ "(!) data"], linarith)+)
  show "covered data = [data ! 1, data ! 2, data ! 3, data ! 4, data ! 5, data ! 6, data ! 7, data ! 8, data ! 9]
           @ take n (drop 10 data)"
    using len by (intro nth_equalityI)
      (auto simp: c nth_Cons' nth_append, (rule arg_cong [of _ _ "(!) data"], linarith)+)
qed

lemma msgID_split:
  fixes a b c :: byte
  defines "m \<equiv> ucast a OR push_bit 8 (ucast b) OR push_bit 16 (ucast c) :: u32"
  shows "ucast (m AND 0xFF) = a" "ucast (drop_bit 8 m AND 0xFF) = b" "ucast (drop_bit 16 m AND 0xFF) = c"
  unfolding m_def ucast_low_byte by (auto simp: bit_simps intro!: bit_word_eqI)

text \<open>The packet \<^verbatim>\<open>EncodeFrame\<close> builds, and what the decoder makes of it.\<close>

definition packet :: "byte \<Rightarrow> byte \<Rightarrow> byte \<Rightarrow> u32 \<Rightarrow> bytes \<Rightarrow> bytes" where
  "packet sysID compID seq msgID payload =
     (let cov = frame_header sysID compID seq msgID (length payload) @ payload
      in MagicV2 # cov @ put16 (frame_crc msgID cov))"

definition frame_of :: "byte \<Rightarrow> byte \<Rightarrow> byte \<Rightarrow> u32 \<Rightarrow> bytes \<Rightarrow> Frame" where
  "frame_of sysID compID seq msgID payload =
     \<lparr>fr_Magic = MagicV2, fr_PayloadLength = of_nat (length payload), fr_IncompatFlags = 0,
      fr_CompatFlags = 0, fr_Sequence = seq, fr_SystemID = sysID, fr_ComponentID = compID,
      fr_MessageID = msgID, fr_Payload = payload,
      fr_Checksum = frame_crc msgID (frame_header sysID compID seq msgID (length payload) @ payload)\<rparr>"

lemma EncodeFrame_packet:
  "EncodeFrame sysID compID seq msgID payload =
     (if length payload \<le> 255 then ok (packet sysID compID seq msgID payload)
      else fail ''payload length exceeds maximum 255 bytes'')"
  by (auto simp: EncodeFrame_def packet_def Let_def)

lemma length_packet [simp]: "length (packet sysID compID seq msgID payload) = 12 + length payload"
  by (simp add: packet_def Let_def)

lemma DecodeFrame_packet:
  assumes "length payload \<le> 255" and "unat msgID < 2 ^ 24"
  shows "DecodeFrame (packet sysID compID seq msgID payload @ rest) = ok (frame_of sysID compID seq msgID payload)"
proof -
  have n: "unat (of_nat (length payload) :: byte) = length payload"
    using assms(1) by (simp add: unat_of_nat take_bit_nat_eq_self)
  let ?cov = "frame_header sysID compID seq msgID (length payload) @ payload"
  have "packet_ok (packet sysID compID seq msgID payload @ rest)"
    using frame_at_encoded [OF assms, of sysID compID seq _ rest] n
    by (simp add: packet_ok_def packet_def Let_def nth_append frame_header_def [of _ _ _ _ "length payload"])
  then show ?thesis
    using frame_at_encoded(1) [OF assms, of sysID compID seq "frame_crc msgID ?cov" rest]
    by (simp add: DecodeFrame_ok_iff packet_def Let_def frame_of_def)
qed

section \<open>Corruption\<close>

lemma frame_crc_inject:
  assumes "frame_crc msgID xs = frame_crc msgID ys"
  shows "AccumulateBytes NewX25CRC xs = AccumulateBytes NewX25CRC ys"
proof -
  obtain e s where "GetCRCExtra msgID = (e, s)" by fastforce
  then show ?thesis
    using assms by (cases s) (auto simp: frame_crc_def Value_def Let_def dest: crc_Accumulate_inject)
qed

lemma split_at_pair:
  "Suc i < length xs \<Longrightarrow> xs = take i xs @ [xs ! i, xs ! Suc i] @ drop (Suc (Suc i)) xs"
  by (simp add: Cons_nth_drop_Suc)

lemma update_pair:
  assumes "Suc i < length xs"
  shows "xs[i := a, Suc i := b] = take i xs @ [a, b] @ drop (Suc (Suc i)) xs"
  using arg_cong [OF split_at_pair [OF assms], of "\<lambda>zs. zs[i := a, Suc i := b]"] assms
  by (simp add: list_update_append)

lemma frame_crc_burst:
  assumes "Suc i < length xs" and "frame_crc msgID (xs[i := a, Suc i := b]) = frame_crc msgID xs"
  shows "a = xs ! i \<and> b = xs ! Suc i"
proof -
  have "AccumulateBytes NewX25CRC (take i xs @ [a, b] @ drop (Suc (Suc i)) xs)
      = AccumulateBytes NewX25CRC (take i xs @ [xs ! i, xs ! Suc i] @ drop (Suc (Suc i)) xs)"
    using frame_crc_inject [OF assms(2)] update_pair [OF assms(1)] split_at_pair [OF assms(1)] by metis
  then show ?thesis by (rule AccumulateBytes_burst)
qed

section \<open>Properties\<close>

text \<open>Decoding a radio packet never panics, whatever the bytes: every index and slice of
  \<^verbatim>\<open>DecodeFrame\<close> is in range, so the result is a frame or an error.\<close>

theorem DecodeFrame_never_panics: "DecodeFrame data \<noteq> None"
  by (rule DecodeFrame_total)

text \<open>C29. Round trip: a payload of at most 255 bytes with a 24-bit message id is encoded without
  error, and the decoder reads back exactly the header fields and the payload that were encoded,
  whatever bytes follow the packet.\<close>

theorem DecodeFrame_EncodeFrame:
  assumes "length payload \<le> 255" and "unat msgID < 2 ^ 24"
  shows "\<exists>pkt c. EncodeFrame sysID compID seq msgID payload = ok pkt \<and> length pkt = 12 + length payload \<and>
    (\<forall>rest. DecodeFrame (pkt @ rest) =
       ok \<lparr>fr_Magic = MagicV2, fr_PayloadLength = of_nat (length payload), fr_IncompatFlags = 0,
           fr_CompatFlags = 0, fr_Sequence = seq, fr_SystemID = sysID, fr_ComponentID = compID,
           fr_MessageID = msgID, fr_Payload = payload, fr_Checksum = c\<rparr>)"
  using assms by (simp add: EncodeFrame_packet DecodeFrame_packet frame_of_def)

theorem DecodeFrame_EncodeFrame_witness:
  "\<exists>pkt c. EncodeFrame 255 190 7 76 [1, 2, 3] = ok pkt \<and> length pkt = 15 \<and>
    (\<forall>rest. DecodeFrame (pkt @ rest) =
       ok \<lparr>fr_Magic = MagicV2, fr_PayloadLength = 3, fr_IncompatFlags = 0,
           fr_CompatFlags = 0, fr_Sequence = 7, fr_SystemID = 255, fr_ComponentID = 190,
           fr_MessageID = 76, fr_Payload = [1, 2, 3], fr_Checksum = c\<rparr>)"
  using DecodeFrame_EncodeFrame [of "[1, 2, 3]" 76 255 190 7] by simp

text \<open>C30. A decoded packet is canonical: if a packet of a supported message decodes and its two
  flag bytes are zero, then re-encoding the decoded fields gives back the packet byte for byte
  (its first \<open>12 + payload length\<close> bytes).\<close>

theorem EncodeFrame_DecodeFrame:
  assumes "DecodeFrame data = ok f" and "snd (GetCRCExtra (fr_MessageID f))"
    and "fr_IncompatFlags f = 0" and "fr_CompatFlags f = 0"
  shows "EncodeFrame (fr_SystemID f) (fr_ComponentID f) (fr_Sequence f) (fr_MessageID f) (fr_Payload f)
       = ok (take (12 + length (fr_Payload f)) data)"
proof -
  from assms(1) have pk: "packet_ok data" and f: "f = frame_at data" by (simp_all add: DecodeFrame_ok_iff)
  define n where "n = unat (data ! 1)"
  have len: "12 + n \<le> length data" using pk by (simp add: packet_ok_def n_def)
  have n255: "n \<le> 255" using unsigned_less [of "data ! 1", where ?'a = nat] by (simp add: n_def)
  have m: "fr_MessageID f = ucast (data ! 7) OR push_bit 8 (ucast (data ! 8)) OR push_bit 16 (ucast (data ! 9))"
    and p: "fr_Payload f = take n (drop 10 data)" "length (fr_Payload f) = n"
    using len by (simp_all add: f frame_at_def Let_def n_def)
  have hdr: "frame_header (fr_SystemID f) (fr_ComponentID f) (fr_Sequence f) (fr_MessageID f) n @ fr_Payload f
      = covered data"
    using assms(3,4) unfolding packet_split(2) [OF pk] m p(1) frame_header_def msgID_split
    by (simp add: f frame_at_def Let_def n_def)
  have "frame_crc (fr_MessageID f) (covered data) = join16 (data ! (10 + n)) (data ! (11 + n))"
    using pk assms(2) by (simp add: packet_ok_def f frame_at_def Let_def n_def)
  with n255 hdr packet_split(1) [OF pk] pk show ?thesis
    by (simp add: EncodeFrame_ok p(2) packet_ok_def n_def)
qed

theorem EncodeFrame_DecodeFrame_witness:
  "EncodeFrame 1 1 9 0 [4, 5] = ok (take 14 (packet 1 1 9 0 [4, 5] @ [7, 7]))"
  using EncodeFrame_DecodeFrame [OF DecodeFrame_packet [of "[4, 5]" 0 1 1 9 "[7, 7]"]]
  by (simp add: frame_of_def GetCRCExtra_def msg_id_defs)

text \<open>C28. Error detection: take a packet of a supported message that decodes, and overwrite any
  two neighbouring bytes of its checksummed part that leave the length byte and the message id as
  they were (those decide what the checksum covers and whether it is checked). Unless the bytes written are the old ones, the decoder refuses the packet.\<close>

theorem DecodeFrame_detects_burst:
  assumes "DecodeFrame data = ok f" and "snd (GetCRCExtra (fr_MessageID f))"
    and "1 \<le> i" and "i + 1 < 10 + unat (fr_PayloadLength f)"
    and "data' = data[i := a, i + 1 := b]" and "data' \<noteq> data"
    and "\<forall>j \<in> {1, 7, 8, 9}. data' ! j = data ! j"
  shows "\<exists>e. DecodeFrame data' = fail e"
proof -
  from assms(1) have pk: "packet_ok data" and f: "f = frame_at data" by (simp_all add: DecodeFrame_ok_iff)
  define n where "n = unat (data ! 1)"
  have len: "12 + n \<le> length data" using pk by (simp add: packet_ok_def n_def)
  have i: "i + 1 < 10 + n" using assms(4) by (simp add: f frame_at_def Let_def n_def)
  have same: "data' ! j = data ! j" if "10 + n \<le> j" for j
    using that i by (simp add: assms(5))
  have id: "fr_MessageID (frame_at data') = fr_MessageID f"
    and sum: "fr_Checksum (frame_at data') = fr_Checksum f"
    using assms(7) same by (simp_all add: f frame_at_def Let_def n_def)
  have cov: "covered data' = (covered data)[i - 1 := a, Suc (i - 1) := b]"
    using assms(3,7) i by (simp add: covered_def assms(5) drop_update_swap take_update_swap)
  have "\<not> packet_ok data'"
  proof
    assume "packet_ok data'"
    then have "frame_crc (fr_MessageID f) (covered data') = frame_crc (fr_MessageID f) (covered data)"
      using pk assms(2) by (simp add: packet_ok_def id sum f)
    then have "a = covered data ! (i - 1) \<and> b = covered data ! Suc (i - 1)"
      unfolding cov using i len n_def assms(3) by (intro frame_crc_burst) (simp_all add: covered_def)
    then have "data' = data"
      using assms(3,5) i len n_def by (simp add: covered_def)
    with assms(6) show False ..
  qed
  then show ?thesis by (simp add: DecodeFrame_fail_iff)
qed

theorem DecodeFrame_detects_burst_witness:
  "\<exists>e. DecodeFrame ((packet 1 1 9 0 [4, 5])[4 := 8, 5 := 8]) = fail e"
proof (rule DecodeFrame_detects_burst [where i = 4 and a = 8 and b = 8])
  show "DecodeFrame (packet 1 1 9 0 [4, 5]) = ok (frame_of 1 1 9 0 [4, 5])"
    using DecodeFrame_packet [of "[4, 5]" 0 1 1 9 "[]"] by simp
qed (simp_all add: frame_of_def GetCRCExtra_def msg_id_defs packet_def frame_header_def Let_def)

end
