(* ===== verification/Mavlink_Messages.thy ===== *)
theory Mavlink_Messages
  imports Mavlink_Frame
begin

text \<open>
  The message payloads of \<^verbatim>\<open>pkg/mavlink/messages.go\<close>: one record per message, its
  packer and its unpacker, field by field at the source's offsets. Signed fields are words of
  their width (the conversions \<^verbatim>\<open>int32(...)\<close> and \<^verbatim>\<open>uint32(...)\<close> keep the bits),
  and \<^verbatim>\<open>float32\<close> fields are their IEEE bit patterns, which is what
  \<^verbatim>\<open>math.Float32bits\<close> and \<^verbatim>\<open>math.Float32frombits\<close> exchange. The interface
  \<open>payload_codec\<close> states what a message codec promises; it is interpreted for each message.
\<close>

section \<open>Model\<close>

definition MavCmdNavReturnToLaunch :: u16 where "MavCmdNavReturnToLaunch = 20"
definition MavCmdDoSetMode :: u16 where "MavCmdDoSetMode = 176"
definition MavCmdComponentArmDisarm :: u16 where "MavCmdComponentArmDisarm = 400"

record Heartbeat =
  hb_CustomMode :: u32
  hb_Type :: byte
  hb_Autopilot :: byte
  hb_BaseMode :: byte
  hb_SystemStatus :: byte
  hb_MavlinkVersion :: byte

definition IsArmed :: "Heartbeat \<Rightarrow> bool" where
  "IsArmed h = ((hb_BaseMode h AND 0x80) \<noteq> 0)"

record GlobalPositionInt =
  gp_TimeBootMs :: u32
  gp_Lat :: i32
  gp_Lon :: i32
  gp_Alt :: i32
  gp_RelativeAlt :: i32
  gp_Vx :: i16
  gp_Vy :: i16
  gp_Vz :: i16
  gp_Hdg :: u16

record SysStatus =
  ss_SensorsPresent :: u32
  ss_SensorsEnabled :: u32
  ss_SensorsHealth :: u32
  ss_Load :: u16
  ss_VoltageBattery :: u16
  ss_CurrentBattery :: i16
  ss_BatteryRemaining :: i8
  ss_DropRateComm :: u16
  ss_ErrorsComm :: u16
  ss_ErrorsCount1 :: u16
  ss_ErrorsCount2 :: u16
  ss_ErrorsCount3 :: u16
  ss_ErrorsCount4 :: u16

type_synonym float32 = u32

record Attitude =
  at_TimeBootMs :: u32
  at_Roll :: float32
  at_Pitch :: float32
  at_Yaw :: float32
  at_RollSpeed :: float32
  at_PitchSpeed :: float32
  at_YawSpeed :: float32

record CommandLong =
  cl_Param1 :: float32
  cl_Param2 :: float32
  cl_Param3 :: float32
  cl_Param4 :: float32
  cl_Param5 :: float32
  cl_Param6 :: float32
  cl_Param7 :: float32
  cl_Command :: u16
  cl_TargetSystem :: byte
  cl_TargetComponent :: byte
  cl_Confirmation :: byte

definition DecodeHeartbeat :: "bytes \<Rightarrow> Heartbeat go" where
  "DecodeHeartbeat payload =
     (if length payload < 9 then fail ''heartbeat payload too short''
      else do {
        customMode \<leftarrow> Uint32 payload 0 4;
        typ \<leftarrow> idx payload 4;
        autopilot \<leftarrow> idx payload 5;
        baseMode \<leftarrow> idx payload 6;
        systemStatus \<leftarrow> idx payload 7;
        version \<leftarrow> idx payload 8;
        ok \<lparr>hb_CustomMode = customMode, hb_Type = typ, hb_Autopilot = autopilot,
            hb_BaseMode = baseMode, hb_SystemStatus = systemStatus, hb_MavlinkVersion = version\<rparr>
      })"

definition EncodeHeartbeat :: "Heartbeat \<Rightarrow> bytes" where
  "EncodeHeartbeat h =
     put32 (hb_CustomMode h) @
     [hb_Type h, hb_Autopilot h, hb_BaseMode h, hb_SystemStatus h, hb_MavlinkVersion h]"

definition DecodeGlobalPositionInt :: "bytes \<Rightarrow> GlobalPositionInt go" where
  "DecodeGlobalPositionInt payload =
     (if length payload < 28 then fail ''global_position_int payload too short''
      else do {
        timeBootMs \<leftarrow> Uint32 payload 0 4;
        lat \<leftarrow> Uint32 payload 4 8;
        lon \<leftarrow> Uint32 payload 8 12;
        alt \<leftarrow> Uint32 payload 12 16;
        relativeAlt \<leftarrow> Uint32 payload 16 20;
        vx \<leftarrow> Uint16 payload 20 22;
        vy \<leftarrow> Uint16 payload 22 24;
        vz \<leftarrow> Uint16 payload 24 26;
        hdg \<leftarrow> Uint16 payload 26 28;
        ok \<lparr>gp_TimeBootMs = timeBootMs, gp_Lat = lat, gp_Lon = lon, gp_Alt = alt,
            gp_RelativeAlt = relativeAlt, gp_Vx = vx, gp_Vy = vy, gp_Vz = vz, gp_Hdg = hdg\<rparr>
      })"

definition EncodeGlobalPositionInt :: "GlobalPositionInt \<Rightarrow> bytes" where
  "EncodeGlobalPositionInt g =
     put32 (gp_TimeBootMs g) @ put32 (gp_Lat g) @ put32 (gp_Lon g) @ put32 (gp_Alt g) @
     put32 (gp_RelativeAlt g) @ put16 (gp_Vx g) @ put16 (gp_Vy g) @ put16 (gp_Vz g) @
     put16 (gp_Hdg g)"

definition DecodeSysStatus :: "bytes \<Rightarrow> SysStatus go" where
  "DecodeSysStatus payload =
     (if length payload < 31 then fail ''sys_status payload too short''
      else do {
        present \<leftarrow> Uint32 payload 0 4;
        enabled \<leftarrow> Uint32 payload 4 8;
        health \<leftarrow> Uint32 payload 8 12;
        load \<leftarrow> Uint16 payload 12 14;
        voltage \<leftarrow> Uint16 payload 14 16;
        current \<leftarrow> Uint16 payload 16 18;
        remaining \<leftarrow> idx payload 18;
        dropRate \<leftarrow> Uint16 payload 19 21;
        errorsComm \<leftarrow> Uint16 payload 21 23;
        count1 \<leftarrow> Uint16 payload 23 25;
        count2 \<leftarrow> Uint16 payload 25 27;
        count3 \<leftarrow> Uint16 payload 27 29;
        count4 \<leftarrow> Uint16 payload 29 31;
        ok \<lparr>ss_SensorsPresent = present, ss_SensorsEnabled = enabled, ss_SensorsHealth = health,
            ss_Load = load, ss_VoltageBattery = voltage, ss_CurrentBattery = current,
            ss_BatteryRemaining = remaining, ss_DropRateComm = dropRate, ss_ErrorsComm = errorsComm,
            ss_ErrorsCount1 = count1, ss_ErrorsCount2 = count2, ss_ErrorsCount3 = count3,
            ss_ErrorsCount4 = count4\<rparr>
      })"

definition EncodeSysStatus :: "SysStatus \<Rightarrow> bytes" where
  "EncodeSysStatus s =
     put32 (ss_SensorsPresent s) @ put32 (ss_SensorsEnabled s) @ put32 (ss_SensorsHealth s) @
     put16 (ss_Load s) @ put16 (ss_VoltageBattery s) @ put16 (ss_CurrentBattery s) @
     [ss_BatteryRemaining s] @ put16 (ss_DropRateComm s) @ put16 (ss_ErrorsComm s) @
     put16 (ss_ErrorsCount1 s) @ put16 (ss_ErrorsCount2 s) @ put16 (ss_ErrorsCount3 s) @
     put16 (ss_ErrorsCount4 s)"

definition DecodeAttitude :: "bytes \<Rightarrow> Attitude go" where
  "DecodeAttitude payload =
     (if length payload < 28 then fail ''attitude payload too short''
      else do {
        timeBootMs \<leftarrow> Uint32 payload 0 4;
        roll \<leftarrow> Uint32 payload 4 8;
        pitch \<leftarrow> Uint32 payload 8 12;
        yaw \<leftarrow> Uint32 payload 12 16;
        rollSpeed \<leftarrow> Uint32 payload 16 20;
        pitchSpeed \<leftarrow> Uint32 payload 20 24;
        yawSpeed \<leftarrow> Uint32 payload 24 28;
        ok \<lparr>at_TimeBootMs = timeBootMs, at_Roll = roll, at_Pitch = pitch, at_Yaw = yaw,
            at_RollSpeed = rollSpeed, at_PitchSpeed = pitchSpeed, at_YawSpeed = yawSpeed\<rparr>
      })"

definition EncodeAttitude :: "Attitude \<Rightarrow> bytes" where
  "EncodeAttitude a =
     put32 (at_TimeBootMs a) @ put32 (at_Roll a) @ put32 (at_Pitch a) @ put32 (at_Yaw a) @
     put32 (at_RollSpeed a) @ put32 (at_PitchSpeed a) @ put32 (at_YawSpeed a)"

definition EncodeCommandLong :: "CommandLong \<Rightarrow> bytes" where
  "EncodeCommandLong c =
     put32 (cl_Param1 c) @ put32 (cl_Param2 c) @ put32 (cl_Param3 c) @ put32 (cl_Param4 c) @
     put32 (cl_Param5 c) @ put32 (cl_Param6 c) @ put32 (cl_Param7 c) @ put16 (cl_Command c) @
     [cl_TargetSystem c, cl_TargetComponent c, cl_Confirmation c]"

section \<open>What a message codec promises\<close>

locale payload_codec =
  fixes enc :: "'m \<Rightarrow> bytes" and dec :: "bytes \<Rightarrow> 'm go" and width :: nat
  assumes length_enc [simp]: "length (enc m) = width"
    and short: "length p < width \<Longrightarrow> \<exists>e. dec p = fail e"
    and dec_enc: "dec (enc m @ rest) = ok m"
    and enc_dec: "width \<le> length p \<Longrightarrow> \<exists>m. dec p = ok m \<and> enc m = take width p"
begin

lemma dec_total: "dec p \<noteq> None"
  using short [of p] enc_dec [of p] by (cases "length p < width") (auto simp: go_simps not_less)

lemma enc_inject: "enc m = enc m' \<longleftrightarrow> m = m'"
  by (metis dec_enc ok_inject)

lemma dec_ok_iff: "dec p = ok m \<longleftrightarrow> (\<exists>rest. p = enc m @ rest)"
proof
  assume ok: "dec p = ok m"
  then have "width \<le> length p" using short [of p] by (auto simp: not_less [symmetric])
  with ok enc_dec [of p] have "enc m = take width p" by auto
  then show "\<exists>rest. p = enc m @ rest" by (metis append_take_drop_id)
qed (auto simp: dec_enc)

text \<open>A message survives the whole trip: packed, framed, sent, unframed and unpacked.\<close>

lemma frame_trip:
  assumes "width \<le> 255" and "unat msgID < 2 ^ 24"
  shows "\<exists>pkt f. EncodeFrame sysID compID seq msgID (enc m) = ok pkt \<and>
    DecodeFrame pkt = ok f \<and> fr_MessageID f = msgID \<and> dec (fr_Payload f) = ok m"
  using assms DecodeFrame_packet [of "enc m" msgID sysID compID seq "[]"] dec_enc [of m "[]"]
  by (auto simp: EncodeFrame_packet frame_of_def)

end

lemma nth_take_drop_list:
  "n \<le> length p \<Longrightarrow> take n p = map ((!) p) [0..<n]"
  by (intro nth_equalityI) auto

interpretation heartbeat: payload_codec EncodeHeartbeat DecodeHeartbeat 9
proof
  fix p :: bytes
  assume "9 \<le> length p"
  then show "\<exists>m. DecodeHeartbeat p = ok m \<and> EncodeHeartbeat m = take 9 p"
    by (simp add: DecodeHeartbeat_def EncodeHeartbeat_def nth_take_drop_list upt_rec) (simp add: numeral_eq_Suc)
qed (simp_all add: DecodeHeartbeat_def EncodeHeartbeat_def codec_simps)

interpretation global_position: payload_codec EncodeGlobalPositionInt DecodeGlobalPositionInt 28
proof
  fix p :: bytes
  assume "28 \<le> length p"
  then show "\<exists>m. DecodeGlobalPositionInt p = ok m \<and> EncodeGlobalPositionInt m = take 28 p"
    by (simp add: DecodeGlobalPositionInt_def EncodeGlobalPositionInt_def nth_take_drop_list upt_rec) (simp add: numeral_eq_Suc)
qed (simp_all add: DecodeGlobalPositionInt_def EncodeGlobalPositionInt_def codec_simps)

interpretation sys_status: payload_codec EncodeSysStatus DecodeSysStatus 31
proof
  fix p :: bytes
  assume "31 \<le> length p"
  then show "\<exists>m. DecodeSysStatus p = ok m \<and> EncodeSysStatus m = take 31 p"
    by (simp add: DecodeSysStatus_def EncodeSysStatus_def nth_take_drop_list upt_rec) (simp add: numeral_eq_Suc)
qed (simp_all add: DecodeSysStatus_def EncodeSysStatus_def codec_simps)

interpretation attitude: payload_codec EncodeAttitude DecodeAttitude 28
proof
  fix p :: bytes
  assume "28 \<le> length p"
  then show "\<exists>m. DecodeAttitude p = ok m \<and> EncodeAttitude m = take 28 p"
    by (simp add: DecodeAttitude_def EncodeAttitude_def nth_take_drop_list upt_rec) (simp add: numeral_eq_Suc)
qed (simp_all add: DecodeAttitude_def EncodeAttitude_def codec_simps)

section \<open>Properties\<close>

text \<open>C34. Round trip of the messages: for each of the four telemetry kinds, unpacking what was packed gives
  the message back, whatever bytes follow; and the whole trip through a frame (pack, encode the frame under
  the message's id, decode it, unpack) returns the message, for any system and component id and sequence
  number.\<close>

theorem message_round_trips:
  "(DecodeHeartbeat (EncodeHeartbeat h @ rest) = ok h \<and>
    (\<exists>pkt f. EncodeFrame sysID compID seq MsgIDHeartbeat (EncodeHeartbeat h) = ok pkt \<and>
      DecodeFrame pkt = ok f \<and> fr_MessageID f = MsgIDHeartbeat \<and> DecodeHeartbeat (fr_Payload f) = ok h)) \<and>
   (DecodeGlobalPositionInt (EncodeGlobalPositionInt g @ rest) = ok g \<and>
    (\<exists>pkt f. EncodeFrame sysID compID seq MsgIDGlobalPositionInt (EncodeGlobalPositionInt g) = ok pkt \<and>
      DecodeFrame pkt = ok f \<and> fr_MessageID f = MsgIDGlobalPositionInt \<and>
      DecodeGlobalPositionInt (fr_Payload f) = ok g)) \<and>
   (DecodeSysStatus (EncodeSysStatus s @ rest) = ok s \<and>
    (\<exists>pkt f. EncodeFrame sysID compID seq MsgIDSysStatus (EncodeSysStatus s) = ok pkt \<and>
      DecodeFrame pkt = ok f \<and> fr_MessageID f = MsgIDSysStatus \<and> DecodeSysStatus (fr_Payload f) = ok s)) \<and>
   (DecodeAttitude (EncodeAttitude a @ rest) = ok a \<and>
    (\<exists>pkt f. EncodeFrame sysID compID seq MsgIDAttitude (EncodeAttitude a) = ok pkt \<and>
      DecodeFrame pkt = ok f \<and> fr_MessageID f = MsgIDAttitude \<and> DecodeAttitude (fr_Payload f) = ok a))"
  by (intro conjI; (rule heartbeat.dec_enc global_position.dec_enc sys_status.dec_enc attitude.dec_enc
      heartbeat.frame_trip global_position.frame_trip sys_status.frame_trip attitude.frame_trip;
      simp add: msg_id_defs))

text \<open>Unpacking never panics and never invents data: on any payload the four decoders return
  an error exactly when the payload is shorter than the message, and otherwise a message whose
  packing is the payload's prefix. A MAVLink 2 sender that trims trailing zero bytes is therefore
  refused.\<close>

theorem message_decoders_total:
  "(if length p < 9 then \<exists>e. DecodeHeartbeat p = fail e
    else \<exists>m. DecodeHeartbeat p = ok m \<and> EncodeHeartbeat m = take 9 p) \<and>
   (if length p < 28 then \<exists>e. DecodeGlobalPositionInt p = fail e
    else \<exists>m. DecodeGlobalPositionInt p = ok m \<and> EncodeGlobalPositionInt m = take 28 p) \<and>
   (if length p < 31 then \<exists>e. DecodeSysStatus p = fail e
    else \<exists>m. DecodeSysStatus p = ok m \<and> EncodeSysStatus m = take 31 p) \<and>
   (if length p < 28 then \<exists>e. DecodeAttitude p = fail e
    else \<exists>m. DecodeAttitude p = ok m \<and> EncodeAttitude m = take 28 p)"
  using heartbeat.short heartbeat.enc_dec global_position.short global_position.enc_dec
    sys_status.short sys_status.enc_dec attitude.short attitude.enc_dec by simp_all

end
