(* ===== verification/Float_Bounds.thy ===== *)
theory Float_Bounds
  imports Schema
begin

text \<open>
  Magnitude arithmetic for the floating-point code of the autopilot bridge and the flight simulation:
  an operation on floats bounded by integers is finite and bounded by the integer the exact operation
  gives (rounding never crosses an integer below \<open>2\<^sup>53\<close>), and integral one-sided bounds survive
  rounding.
\<close>

named_theorems magnitude \<open>bounds of floating-point operations\<close>

lemma fl_sized:
  assumes "\<bar>x\<bar> \<le> of_int C" and "C < 2 ^ 53"
  shows "sized C (fl x)" and "val (fl x) = fl_rat x" and "finite64 (fl x)"
proof -
  have big: "\<bar>x\<bar> \<le> pow2 1023" using assms(1) int_bound_pow2 [OF assms(2)] by linarith
  then show "val (fl x) = fl_rat x" "finite64 (fl x)" by (simp_all add: val_fl finite_fl)
  then show "sized C (fl x)" using repr_int_bound [OF assms] by (simp add: sized_def)
qed

lemma sized_finite: "sized C x \<Longrightarrow> finite64 x"
  by (simp add: sized_def)

lemma sized_iff: "sized C x \<longleftrightarrow> finite64 x \<and> - of_int C \<le> val x \<and> val x \<le> of_int C"
  by (auto simp: sized_def abs_le_iff)

lemma finite_add: "finite64 a \<Longrightarrow> finite64 b \<Longrightarrow> a + b = (if a = NegZero \<and> b = NegZero then NegZero else fl (val a + val b))"
  by (cases a; cases b) (simp_all add: plus_f64_def add64_def)

lemma finite_mult: "finite64 a \<Longrightarrow> finite64 b \<Longrightarrow>
    a * b = (if val a * val b = 0 then zero64 (signbit a \<noteq> signbit b) else fl (val a * val b))"
  by (cases a; cases b) (simp_all add: times_f64_def mul64_def)

lemma neg64_simps [simp]: "val (neg64 x) = - val x" "finite64 (neg64 x) = finite64 x"
  by (cases x; simp)+

lemma uminus_simps [simp]: "val (- x) = - val x" "finite64 (- x) = finite64 x" for x :: f64
  by (simp_all add: uminus_f64_def)

lemma sized_uminus [magnitude]: "sized C (- x) \<longleftrightarrow> sized C x"
  by (simp add: sized_def)

lemma diff_add: "a - b = a + neg64 b" for a b :: f64
  by (simp add: minus_f64_def plus_f64_def)

lemma sized_add [magnitude]:
  assumes "sized A a" and "sized B b" and "A + B < 2 ^ 53"
  shows "sized (A + B) (a + b)" and "val (a + b) = fl_rat (val a + val b)"
proof -
  have f: "finite64 a" "finite64 b" "\<bar>val a\<bar> \<le> of_int A" "\<bar>val b\<bar> \<le> of_int B"
    using assms(1,2) by (simp_all add: sized_def)
  have "\<bar>val a + val b\<bar> \<le> of_int (A + B)" using abs_triangle_ineq [of "val a" "val b"] f(3,4) by simp
  note fl_sized [OF this assms(3)]
  then show "sized (A + B) (a + b)" "val (a + b) = fl_rat (val a + val b)"
    using f assms(1,2) by (auto simp: finite_add sized_def)
qed

lemma sized_diff [magnitude]:
  assumes "sized A a" and "sized B b" and "A + B < 2 ^ 53"
  shows "sized (A + B) (a - b)" and "val (a - b) = fl_rat (val a - val b)"
proof -
  have "sized B (neg64 b)" using assms(2) by (simp add: sized_def)
  from sized_add [OF assms(1) this assms(3)]
  show "sized (A + B) (a - b)" "val (a - b) = fl_rat (val a - val b)" by (simp_all add: diff_add)
qed

lemma sized_mult [magnitude]:
  assumes "sized A a" and "sized B b" and "A * B < 2 ^ 53"
  shows "sized (A * B) (a * b)" and "val (a * b) = fl_rat (val a * val b)"
proof -
  have f: "finite64 a" "finite64 b" and "\<bar>val a\<bar> * \<bar>val b\<bar> \<le> of_int A * of_int B"
    using assms(1,2) sized_nonneg [OF assms(1)] by (auto simp: sized_def intro!: mult_mono)
  then have "\<bar>val a * val b\<bar> \<le> of_int (A * B)" by (simp add: abs_mult)
  note fl_sized [OF this assms(3)]
  then show "sized (A * B) (a * b)" "val (a * b) = fl_rat (val a * val b)"
    using f sized_nonneg [OF assms(1)] sized_nonneg [OF assms(2)] by (auto simp: finite_mult sized_def)
qed

lemma sized_div [magnitude]:
  assumes "sized A a" and "A < 2 ^ 53" and "1 \<le> r"
  shows "sized A (a / Fin r)" and "val (a / Fin r) = fl_rat (val a / r)"
proof -
  have f: "finite64 a" "\<bar>val a\<bar> \<le> of_int A" using assms(1) by (simp_all add: sized_def)
  have "\<bar>val a / r\<bar> \<le> \<bar>val a\<bar> / 1" unfolding abs_divide using assms(3) by (intro frac_le) simp_all
  then have "\<bar>val a / r\<bar> \<le> of_int A" using f(2) by simp
  note fl_sized [OF this assms(2)]
  moreover have "a / Fin r = (if val a = 0 then zero64 (signbit a) else fl (val a / r))"
    using f(1) assms(3) by (cases a) (simp_all add: divide_f64_def div64_def)
  ultimately show "sized A (a / Fin r)" "val (a / Fin r) = fl_rat (val a / r)"
    using sized_nonneg [OF assms(1)] by (auto simp: sized_def)
qed

lemma sized_lit: "\<bar>x\<bar> \<le> of_int C \<Longrightarrow> C < 2 ^ 53 \<Longrightarrow> sized C (lit x)"
  by (rule fl_sized)

lemma of_int64_exact: "\<bar>i\<bar> < 2 ^ 53 \<Longrightarrow> of_int64 i = Fin (of_int i)"
  unfolding of_int64_def by (rule lit_int)

lemma sized_quotient:
  assumes "\<bar>i\<bar> \<le> C * b" and "\<bar>i\<bar> < 2 ^ 53" and "0 < b" and "C < 2 ^ 53"
  shows "sized C (of_int64 i / Fin (of_int b))"
proof -
  have "0 \<le> C * b" using assms(1) by linarith
  then have C: "0 \<le> C" using assms(3) by (simp add: zero_le_mult_iff)
  have "\<bar>of_int i\<bar> \<le> (of_int (C * b) :: rat)" by (rule abs_int_rat_le [OF assms(1)])
  then have "\<bar>of_int i / of_int b :: rat\<bar> \<le> of_int C" using assms(3) by (simp add: pos_divide_le_eq)
  from fl_sized(1) [OF this assms(4)] show ?thesis
    using C assms(3) by (auto simp: of_int64_exact [OF assms(2)] divide_f64_def div64_def sized_def)
qed

text \<open>One-sided integral bounds.\<close>

lemma fl_rat_int_bounds:
  "\<bar>c\<bar> < 2 ^ 53 \<Longrightarrow> of_int c \<le> x \<Longrightarrow> of_int c \<le> fl_rat x"
  "\<bar>c\<bar> < 2 ^ 53 \<Longrightarrow> x \<le> of_int c \<Longrightarrow> fl_rat x \<le> of_int c"
  by (blast intro: fl_rat_bound repr_of_int)+

lemma val_Max:
  "finite64 x \<Longrightarrow> finite64 y \<Longrightarrow> val (Max x y) = max (val x) (val y)"
  "finite64 x \<Longrightarrow> finite64 y \<Longrightarrow> finite64 (Max x y)"
  by (cases x; cases y; auto simp: Max_def eq64_def less_f64_def lt64_def zero_f64_def max_def)+

lemma val_Min:
  "finite64 x \<Longrightarrow> finite64 y \<Longrightarrow> val (Min x y) = min (val x) (val y)"
  "finite64 x \<Longrightarrow> finite64 y \<Longrightarrow> finite64 (Min x y)"
  by (cases x; cases y; auto simp: Min_def eq64_def less_f64_def lt64_def zero_f64_def min_def)+

lemma sized_Max [magnitude]: "sized A x \<Longrightarrow> sized B y \<Longrightarrow> sized (max A B) (Max x y)"
  by (auto simp: sized_def val_Max max_def)

lemma sized_Min [magnitude]: "sized A x \<Longrightarrow> sized B y \<Longrightarrow> sized (max A B) (Min x y)"
  by (auto simp: sized_def val_Min max_def min_def)

text \<open>The square root of a value in \<open>[0, C\<^sup>2]\<close> is in \<open>[0, C]\<close>.\<close>

lemma isqrt_square: "0 \<le> isqrt n \<and> (0 \<le> n \<longrightarrow> isqrt n * isqrt n \<le> n)"
proof (induction n rule: isqrt.induct)
  case (1 n)
  show ?case
  proof (cases "n \<le> 0")
    case True
    then show ?thesis by (subst (1 2 3) isqrt.simps) auto
  next
    case False
    define s where "s = 2 * isqrt (n div 4)"
    from 1 [OF False] False have s: "0 \<le> isqrt (n div 4)" "isqrt (n div 4) * isqrt (n div 4) \<le> n div 4" by simp_all
    then have "s * s \<le> 4 * (n div 4)" "0 \<le> s" by (simp_all add: s_def)
    then have "s * s \<le> n" by linarith
    moreover have "isqrt n = (if (s + 1) * (s + 1) \<le> n then s + 1 else s)"
      using False by (subst isqrt.simps) (simp add: s_def Let_def)
    ultimately show ?thesis using \<open>0 \<le> s\<close> by auto
  qed
qed

lemma Sqrt_sized:
  assumes "finite64 x" and "0 \<le> val x" and "val x \<le> of_int (C * C)" and "0 \<le> C" and "C < 2 ^ 53"
  shows "sized C (Sqrt x)" and "0 \<le> val (Sqrt x)"
proof -
  have "sized C (Sqrt x) \<and> 0 \<le> val (Sqrt x)"
  proof (cases "0 < val x")
    case False
    then show ?thesis using assms by (cases x) (auto simp: Sqrt_def sized_def)
  next
    case True
    then obtain r where x: "x = Fin r" and r: "0 < r" "r \<le> of_int (C * C)" using assms by (cases x) simp_all
    define j where "j = nat (max 0 (60 - flog2 r div 2))"
    define n where "n = r * 4 ^ j"
    define s where "s = isqrt \<lfloor>n\<rfloor>"
    define z :: rat where "z = (2 * of_int s + (if of_int (s * s) = n then 0 else 1)) / 2 ^ Suc j"
    have "0 \<le> n" using r by (simp add: n_def)
    then have s: "0 \<le> s" "s * s \<le> \<lfloor>n\<rfloor>" using isqrt_square [of "\<lfloor>n\<rfloor>"] by (simp_all add: s_def)
    have n: "n \<le> of_int ((C * 2 ^ j) * (C * 2 ^ j))"
      using mult_right_mono [OF r(2), of "4 ^ j"] by (simp add: n_def power_mult_distrib [symmetric] algebra_simps)
    have ss: "of_int (s * s) \<le> n" using s(2) by (simp add: le_floor_iff)
    have C0: "0 \<le> C * 2 ^ j" using assms(4) by simp
    have "2 * s + (if of_int (s * s) = n then 0 else 1) \<le> 2 * (C * 2 ^ j)"
    proof (cases "of_int (s * s) = n")
      case True
      then have "of_int (s * s) \<le> (of_int ((C * 2 ^ j) * (C * 2 ^ j)) :: rat)" using n by simp
      then have "s * s \<le> (C * 2 ^ j) * (C * 2 ^ j)" by (simp only: of_int_le_iff)
      then have "s \<le> C * 2 ^ j" using C0 by (metis abs_le_square_iff abs_of_nonneg power2_eq_square s(1))
      with True show ?thesis by simp
    next
      case False
      with ss n have "of_int (s * s) < (of_int ((C * 2 ^ j) * (C * 2 ^ j)) :: rat)" by linarith
      then have "s * s < (C * 2 ^ j) * (C * 2 ^ j)" by (simp only: of_int_less_iff)
      then have "s < C * 2 ^ j" using C0 s(1) by (metis linorder_not_le mult_mono)
      with False show ?thesis by simp
    qed
    then have "of_int (2 * s + (if of_int (s * s) = n then 0 else 1)) \<le> (of_int (2 * (C * 2 ^ j)) :: rat)"
      by (simp only: of_int_le_iff)
    then have "z \<le> of_int C" by (auto simp: z_def pos_divide_le_eq algebra_simps split: if_splits)
    moreover have z0: "0 \<le> z" using s(1) by (simp add: z_def)
    ultimately have zb: "\<bar>z\<bar> \<le> of_int C" by simp
    have "Sqrt x = fl z" using r by (simp add: x Sqrt_def Let_def z_def s_def n_def j_def)
    then show ?thesis using fl_sized [OF zb assms(5)] fl_rat_nonneg [OF z0] by simp
  qed
  then show "sized C (Sqrt x)" "0 \<le> val (Sqrt x)" by auto
qed

lemma square_nonneg:
  "sized A a \<Longrightarrow> A * A < 2 ^ 53 \<Longrightarrow> 0 \<le> val (a * a)"
  by (simp add: sized_mult fl_rat_nonneg)

text \<open>The planar length of two components.\<close>

lemma hypot_sized:
  assumes "sized A a" and "sized A b" and "A * A + A * A < 2 ^ 53"
  shows "sized (2 * A) (Sqrt (a * a + b * b))" and "0 \<le> val (Sqrt (a * a + b * b))"
proof -
  have A: "0 \<le> A" by (rule sized_nonneg [OF assms(1)])
  then have AA: "A * A < 2 ^ 53" "A \<le> A * A \<or> A = 0" using assms(3) zero_le_square [of A]
    by (linarith, simp add: mult_le_cancel_left1) 
  note m = sized_mult [OF assms(1,1) AA(1)] sized_mult [OF assms(2,2) AA(1)]
  note s = sized_add [OF m(1,3) assms(3)]
  have "0 \<le> val (a * a) + val (b * b)"
    using square_nonneg [OF assms(1) AA(1)] square_nonneg [OF assms(2) AA(1)] by simp
  then have "0 \<le> val (a * a + b * b)" unfolding s(2) by (rule fl_rat_nonneg)
  moreover have "A * A + A * A \<le> (2 * A) * (2 * A)" using zero_le_square [of A] by simp
  then have "of_int (A * A + A * A) \<le> (of_int ((2 * A) * (2 * A)) :: rat)" by (simp only: of_int_le_iff)
  then have "val (a * a + b * b) \<le> of_int ((2 * A) * (2 * A))" using s(1) unfolding sized_iff by linarith
  moreover have "2 * A < 2 ^ 53" using AA(2) assms(3) by auto
  ultimately show "sized (2 * A) (Sqrt (a * a + b * b))" "0 \<le> val (Sqrt (a * a + b * b))"
    using Sqrt_sized [of "a * a + b * b" "2 * A"] s(1) A by (simp_all add: sized_def)
qed

text \<open>The remainder of a division is smaller than the divisor.\<close>

lemma Mod_bound:
  assumes "finite64 x" and "0 < q"
  shows "finite64 (Mod x (Fin q))" and "\<bar>val (Mod x (Fin q))\<bar> < q"
proof -
  define r where "r = \<bar>val x\<bar> - q * of_int \<lfloor>\<bar>val x\<bar> / q\<rfloor>"
  have "of_int \<lfloor>\<bar>val x\<bar> / q\<rfloor> \<le> \<bar>val x\<bar> / q" by (rule of_int_floor_le)
  then have "q * of_int \<lfloor>\<bar>val x\<bar> / q\<rfloor> \<le> \<bar>val x\<bar>"
    using mult_left_mono [of "of_int \<lfloor>\<bar>val x\<bar> / q\<rfloor>" "\<bar>val x\<bar> / q" q] assms(2) by simp
  moreover have "\<bar>val x\<bar> / q < of_int \<lfloor>\<bar>val x\<bar> / q\<rfloor> + 1" by linarith
  then have "\<bar>val x\<bar> < q * of_int \<lfloor>\<bar>val x\<bar> / q\<rfloor> + q" using assms(2) by (simp add: pos_divide_less_eq algebra_simps)
  ultimately have "0 \<le> r" "r < q" by (simp_all add: r_def)
  moreover have "Mod x (Fin q) = (if r = 0 then zero64 (signbit x) else Fin (if val x < 0 then - r else r))"
    using assms by (cases x) (auto simp: Mod_def eq64_def zero_f64_def r_def Let_def)
  ultimately show "finite64 (Mod x (Fin q))" "\<bar>val (Mod x (Fin q))\<bar> < q" using assms(2) by simp_all
qed

lemma Mod_sized:
  assumes "finite64 x" and "0 < m"
  shows "sized m (Mod x (Fin (of_int m)))"
  using Mod_bound [OF assms(1), of "of_int m"] assms(2) by (simp add: sized_def)

end
