(* ===== verification/Vehicle.thy ===== *)
theory Vehicle
  imports Mavlink_Messages Float_Bounds
begin

text \<open>
  \<^verbatim>\<open>pkg/mavlink/bridge.go\<close> and the unit conversions of \<^verbatim>\<open>messages.go\<close>: the
  vehicle state that decoded frames update, and the security envelope built from it. Every operation
  holds the state's lock throughout (\<^verbatim>\<open>BuildSecurityEnvelope\<close> copies under the lock and
  builds from the copy), so operations are atomic.
\<close>

section \<open>Model\<close>

definition LatDegrees :: "GlobalPositionInt \<Rightarrow> f64" where
  "LatDegrees g = of_int64 (sint (gp_Lat g)) / lit (10 ^ 7)"

definition LonDegrees :: "GlobalPositionInt \<Rightarrow> f64" where
  "LonDegrees g = of_int64 (sint (gp_Lon g)) / lit (10 ^ 7)"

definition AltMeters :: "GlobalPositionInt \<Rightarrow> f64" where
  "AltMeters g = of_int64 (sint (gp_RelativeAlt g)) / lit 1000"

definition GroundSpeedMps :: "GlobalPositionInt \<Rightarrow> f64" where
  "GroundSpeedMps g =
     (let vx = of_int64 (sint (gp_Vx g)) / lit 100; vy = of_int64 (sint (gp_Vy g)) / lit 100
      in Sqrt (vx * vx + vy * vy))"

definition HeadingDegrees :: "GlobalPositionInt \<Rightarrow> f64" where
  "HeadingDegrees g = of_int64 (uint (gp_Hdg g)) / lit 100"

record VehicleState =
  vs_unitID :: string
  vs_team :: string
  vs_vehicleType :: string
  vs_tier :: string
  vs_systemID :: byte
  vs_armed :: bool
  vs_status :: string
  vs_lat :: f64
  vs_lon :: f64
  vs_alt :: f64
  vs_vx :: f64
  vs_vy :: f64
  vs_vz :: f64
  vs_speed :: f64
  vs_heading :: f64
  vs_battery :: f64
  vs_roll :: f64
  vs_pitch :: f64
  vs_yaw :: f64
  vs_lastUpdate :: int
  vs_sequence :: u64

definition NewVehicleState :: "string \<Rightarrow> string \<Rightarrow> string \<Rightarrow> string \<Rightarrow> byte \<Rightarrow> VehicleState" where
  "NewVehicleState unitID team vehicleType tier systemID =
     (let tier = (if tier = '''' then Tier2Restricted else tier);
          team = (if team = '''' then ''blue'' else team);
          vehicleType = (if vehicleType = '''' then ''drone'' else vehicleType)
      in \<lparr>vs_unitID = unitID, vs_team = team, vs_vehicleType = vehicleType, vs_tier = tier,
          vs_systemID = systemID, vs_armed = False, vs_status = ''STANDBY'', vs_lat = 0, vs_lon = 0,
          vs_alt = 0, vs_vx = 0, vs_vy = 0, vs_vz = 0, vs_speed = 0, vs_heading = 0,
          vs_battery = lit 100, vs_roll = 0, vs_pitch = 0, vs_yaw = 0, vs_lastUpdate = 0,
          vs_sequence = 0\<rparr>)"

text \<open>\<^verbatim>\<open>roundFloat\<close> of this package, over \<^verbatim>\<open>math.Pow\<close>.\<close>

definition bridge_roundFloat :: "f64 \<Rightarrow> nat \<Rightarrow> f64" where
  "bridge_roundFloat v precision = (let ratio = Pow_10 precision in Round (v * ratio) / ratio)"

definition Pi :: f64 where
  "Pi = lit (3141592653589793238462643383279502884 / 10 ^ 36)"

definition degrees :: "float32 \<Rightarrow> f64" where
  "degrees x = bridge_roundFloat (f64_of_f32 x * lit 180 / Pi) 1"

definition ingest_heartbeat :: "VehicleState \<Rightarrow> Heartbeat \<Rightarrow> VehicleState" where
  "ingest_heartbeat v hb =
     (let v = v\<lparr>vs_armed := IsArmed hb\<rparr>
      in if vs_armed v
         then (if lit 1 < vs_alt v then v\<lparr>vs_status := ''IN_FLIGHT''\<rparr> else v\<lparr>vs_status := ''ARMED''\<rparr>)
         else v\<lparr>vs_status := ''STANDBY''\<rparr>)"

definition ingest_position :: "VehicleState \<Rightarrow> GlobalPositionInt \<Rightarrow> VehicleState" where
  "ingest_position v pos =
     (let v = v\<lparr>vs_lat := bridge_roundFloat (LatDegrees pos) 6,
                vs_lon := bridge_roundFloat (LonDegrees pos) 6,
                vs_alt := bridge_roundFloat (AltMeters pos) 2,
                vs_vx := bridge_roundFloat (of_int64 (sint (gp_Vx pos)) / lit 100) 2,
                vs_vy := bridge_roundFloat (of_int64 (sint (gp_Vy pos)) / lit 100) 2,
                vs_vz := bridge_roundFloat (of_int64 (sint (gp_Vz pos)) / lit 100) 2,
                vs_speed := bridge_roundFloat (GroundSpeedMps pos) 2,
                vs_heading := bridge_roundFloat (HeadingDegrees pos) 1\<rparr>
      in if vs_armed v \<and> lit 1 < vs_alt v then v\<lparr>vs_status := ''IN_FLIGHT''\<rparr> else v)"

definition ingest_system :: "VehicleState \<Rightarrow> SysStatus \<Rightarrow> VehicleState" where
  "ingest_system v sys =
     (if 0 \<le> sint (ss_BatteryRemaining sys) \<and> sint (ss_BatteryRemaining sys) \<le> 100
      then v\<lparr>vs_battery := of_int64 (sint (ss_BatteryRemaining sys))\<rparr> else v)"

definition ingest_attitude :: "VehicleState \<Rightarrow> Attitude \<Rightarrow> VehicleState" where
  "ingest_attitude v att =
     v\<lparr>vs_roll := degrees (at_Roll att), vs_pitch := degrees (at_Pitch att), vs_yaw := degrees (at_Yaw att)\<rparr>"

text \<open>A decoder's error is wrapped and returned; its result is applied.\<close>

definition apply_decoded ::
  "VehicleState \<Rightarrow> 'm go \<Rightarrow> string \<Rightarrow> (VehicleState \<Rightarrow> 'm \<Rightarrow> VehicleState) \<Rightarrow> VehicleState \<times> unit go" where
  "apply_decoded v m what k =
     (case m of
        None \<Rightarrow> (v, None)
      | Some (Inl err) \<Rightarrow> (v, fail (''decoding '' @ what @ '': '' @ err))
      | Some (Inr msg) \<Rightarrow> (k v msg, ok ()))"

definition IngestFrame :: "int \<Rightarrow> VehicleState \<Rightarrow> Frame \<Rightarrow> VehicleState \<times> unit go" where
  "IngestFrame now v frame =
     (let v = v\<lparr>vs_lastUpdate := now\<rparr>; p = fr_Payload frame
      in if fr_MessageID frame = MsgIDHeartbeat
         then apply_decoded v (DecodeHeartbeat p) ''heartbeat'' ingest_heartbeat
         else if fr_MessageID frame = MsgIDGlobalPositionInt
         then apply_decoded v (DecodeGlobalPositionInt p) ''global_position_int'' ingest_position
         else if fr_MessageID frame = MsgIDSysStatus
         then apply_decoded v (DecodeSysStatus p) ''sys_status'' ingest_system
         else if fr_MessageID frame = MsgIDAttitude
         then apply_decoded v (DecodeAttitude p) ''attitude'' ingest_attitude
         else (v, ok ()))"

definition bridge_payload :: "VehicleState \<Rightarrow> TelemetryPayload" where
  "bridge_payload v =
     \<lparr>VehicleID = vs_unitID v, VehicleType = vs_vehicleType v, Team = vs_team v, State = vs_status v,
      BatteryPct = vs_battery v,
      Coords = \<lparr>Latitude = vs_lat v, Longitude = vs_lon v, AltitudeM = vs_alt v\<rparr>,
      Vel = \<lparr>VX = vs_vx v, VY = vs_vy v, VZ = vs_vz v, SpeedMps = vs_speed v\<rparr>,
      HeadingDeg = vs_heading v,
      MissionPayload = Some [(''mavlink_source'', JBool True), (''roll_deg'', JNum (vs_roll v)),
                             (''pitch_deg'', JNum (vs_pitch v)), (''yaw_deg'', JNum (vs_yaw v))],
      Sequence = vs_sequence v\<rparr>"

definition BuildSecurityEnvelope ::
  "golib \<Rightarrow> int \<Rightarrow> int \<Rightarrow> VehicleState \<Rightarrow> VehicleState \<times> SecurityEnvelope go" where
  "BuildSecurityEnvelope L now1 now2 v =
     (let v = v\<lparr>vs_sequence := vs_sequence v + 1\<rparr>
      in (v, NewTelemetryEnvelope L now1 now2 (vs_tier v) (''mavlink-'' @ vs_unitID v) (bridge_payload v) []))"

definition GetStateSnapshot :: "VehicleState \<Rightarrow> f64 \<times> f64 \<times> f64 \<times> f64 \<times> f64 \<times> f64 \<times> bool \<times> string" where
  "GetStateSnapshot v =
     (vs_lat v, vs_lon v, vs_alt v, vs_speed v, vs_heading v, vs_battery v, vs_armed v, vs_status v)"

section \<open>The values a state can hold\<close>

lemma bridge_roundFloat_eq: "d \<le> 22 \<Longrightarrow> bridge_roundFloat v d = roundFloat v d"
  by (simp add: bridge_roundFloat_def roundFloat_def Pow_10_dec Pow10_dec)

lemma lit_scale: "lit (10 ^ 7) = Fin (of_int (10 ^ 7))" "lit 1000 = Fin (of_int 1000)" "lit 100 = Fin (of_int 100)"
  using lit_int [of "10 ^ 7"] lit_int [of 1000] lit_int [of 100] by simp_all

lemma sint_bounds: "\<bar>sint (w :: 32 word)\<bar> \<le> 2 ^ 31" "\<bar>sint (u :: 16 word)\<bar> \<le> 2 ^ 15"
  using sint_lt [of w] sint_ge [of w] sint_lt [of u] sint_ge [of u] by simp_all

lemma conversions_sized:
  "sized 215 (LatDegrees g)" "sized 215 (LonDegrees g)" "sized 2147484 (AltMeters g)"
  "sized 328 (of_int64 (sint (v :: i16)) / lit 100)" "sized 656 (HeadingDegrees g)"
  unfolding LatDegrees_def LonDegrees_def AltMeters_def HeadingDegrees_def lit_scale
  using sint_bounds(1) [of "gp_Lat g"] sint_bounds(1) [of "gp_Lon g"] sint_bounds(1) [of "gp_RelativeAlt g"]
    sint_bounds(2) [of v] uint_lt2p [of "gp_Hdg g"] unsigned_greater_eq [of "gp_Hdg g"]
  by (intro sized_quotient; simp)+

lemma GroundSpeed_sized: "sized 656 (GroundSpeedMps g)"
  using hypot_sized(1) [OF conversions_sized(4) [of "gp_Vx g"] conversions_sized(4) [of "gp_Vy g"]]
  by (simp add: GroundSpeedMps_def Let_def)

text \<open>Every number of the state is on the decimal grid it was rounded to, within its range.\<close>

definition tracked :: "VehicleState \<Rightarrow> bool" where
  "tracked v \<longleftrightarrow>
     on_grid 6 215 (vs_lat v) \<and> on_grid 6 215 (vs_lon v) \<and> on_grid 2 2147484 (vs_alt v) \<and>
     on_grid 2 328 (vs_vx v) \<and> on_grid 2 328 (vs_vy v) \<and> on_grid 2 328 (vs_vz v) \<and>
     on_grid 2 656 (vs_speed v) \<and> on_grid 1 656 (vs_heading v) \<and>
     on_grid 1 100 (vs_battery v) \<and> 0 \<le> val (vs_battery v) \<and>
     (if vs_armed v then vs_status v = ''ARMED'' \<or> vs_status v = ''IN_FLIGHT'' else vs_status v = ''STANDBY'')"

lemma on_grid_Fin_int: "\<bar>n\<bar> \<le> C \<Longrightarrow> C < 2 ^ 53 \<Longrightarrow> on_grid d C (Fin (of_int n))"
  by (rule on_grid_finer [OF int_on_grid]) simp_all

lemma on_grid_zero: "on_grid d C 0"
  by (auto simp: on_grid_def zero_f64_def zero64_def intro: exI [of _ False])

lemma tracked_New: "tracked (NewVehicleState unitID team vehicleType tier systemID)"
  using on_grid_Fin_int [of 100 100 1] by (simp add: tracked_def NewVehicleState_def Let_def on_grid_zero)

lemma tracked_heartbeat: "tracked v \<Longrightarrow> tracked (ingest_heartbeat v hb)"
  by (simp add: ingest_heartbeat_def tracked_def Let_def)

lemma tracked_position: "tracked v \<Longrightarrow> tracked (ingest_position v pos)"
  using roundFloat_grid [OF conversions_sized(1), of 6] roundFloat_grid [OF conversions_sized(2), of 6]
    roundFloat_grid [OF conversions_sized(3), of 2] roundFloat_grid [OF conversions_sized(4), of 2]
    roundFloat_grid [OF conversions_sized(5), of 1] roundFloat_grid [OF GroundSpeed_sized, of 2]
  by (auto simp: ingest_position_def tracked_def Let_def bridge_roundFloat_eq)

lemma tracked_system: "tracked v \<Longrightarrow> tracked (ingest_system v sys)"
proof -
  define k where "k = sint (ss_BatteryRemaining sys)"
  have "ingest_system v sys = (if 0 \<le> k \<and> k \<le> 100 then v\<lparr>vs_battery := Fin (of_int k)\<rparr> else v)"
    by (simp add: ingest_system_def k_def [symmetric] of_int64_exact)
  then show "tracked v \<Longrightarrow> tracked (ingest_system v sys)"
    using on_grid_Fin_int [of k 100 1] by (simp add: tracked_def)
qed

lemma tracked_attitude: "tracked v \<Longrightarrow> tracked (ingest_attitude v att)"
  by (simp add: ingest_attitude_def tracked_def)

lemma tracked_time [simp]: "tracked (v\<lparr>vs_lastUpdate := now\<rparr>) = tracked v" "tracked (v\<lparr>vs_sequence := s\<rparr>) = tracked v"
  by (simp_all add: tracked_def)

lemmas tracked_ingest = tracked_heartbeat tracked_position tracked_system tracked_attitude

text \<open>What a frame can do to the state.\<close>

lemma apply_decoded_induct: "P v \<Longrightarrow> (\<And>msg. P (k v msg)) \<Longrightarrow> P (fst (apply_decoded v m what k))"
  by (simp add: apply_decoded_def split: option.split sum.split)

lemma IngestFrame_induct:
  assumes "P (v\<lparr>vs_lastUpdate := now\<rparr>)"
    and "\<And>msg. P (ingest_heartbeat (v\<lparr>vs_lastUpdate := now\<rparr>) msg)"
    and "\<And>msg. P (ingest_position (v\<lparr>vs_lastUpdate := now\<rparr>) msg)"
    and "\<And>msg. P (ingest_system (v\<lparr>vs_lastUpdate := now\<rparr>) msg)"
    and "\<And>msg. P (ingest_attitude (v\<lparr>vs_lastUpdate := now\<rparr>) msg)"
  shows "P (fst (IngestFrame now v frame))"
  using assms by (simp add: IngestFrame_def Let_def apply_decoded_induct)

lemma tracked_IngestFrame: "tracked v \<Longrightarrow> tracked (fst (IngestFrame now v frame))"
  by (rule IngestFrame_induct) (simp_all add: tracked_ingest)

definition same_vehicle :: "VehicleState \<Rightarrow> VehicleState \<Rightarrow> bool" where
  "same_vehicle v w \<longleftrightarrow> vs_unitID v = vs_unitID w \<and> vs_team v = vs_team w \<and>
     vs_vehicleType v = vs_vehicleType w \<and> vs_tier v = vs_tier w \<and> vs_systemID v = vs_systemID w"

lemma same_vehicle_IngestFrame: "same_vehicle (fst (IngestFrame now v frame)) v"
  by (rule IngestFrame_induct) (simp_all add: same_vehicle_def ingest_heartbeat_def ingest_position_def
      ingest_system_def ingest_attitude_def Let_def)

lemma apply_decoded_total: "m \<noteq> None \<Longrightarrow> snd (apply_decoded v m what k) \<noteq> None"
  by (cases m rule: go_cases) (simp_all add: apply_decoded_def go_simps)

lemma IngestFrame_total: "snd (IngestFrame now v frame) \<noteq> None"
  by (simp add: IngestFrame_def Let_def apply_decoded_total heartbeat.dec_total global_position.dec_total
      sys_status.dec_total attitude.dec_total del: not_None_eq)

text \<open>Ingesting a series of frames, each with the time it came.\<close>

definition ingest_all :: "VehicleState \<Rightarrow> (int \<times> Frame) list \<Rightarrow> VehicleState" where
  "ingest_all = foldl (\<lambda>v (now, frame). fst (IngestFrame now v frame))"

lemma ingest_all_simps [simp]:
  "ingest_all v [] = v" "ingest_all v ((now, f) # fs) = ingest_all (fst (IngestFrame now v f)) fs"
  by (simp_all add: ingest_all_def)

lemma tracked_ingest_all: "tracked v \<Longrightarrow> tracked (ingest_all v fs)"
  by (induction fs arbitrary: v) (auto simp: tracked_IngestFrame)

lemma same_vehicle_ingest_all: "same_vehicle (ingest_all v fs) v"
proof (induction fs arbitrary: v)
  case (Cons x fs)
  obtain now f where "x = (now, f)" by fastforce
  with Cons [of "fst (IngestFrame now v f)"] same_vehicle_IngestFrame [of now v f] show ?case
    by (simp add: same_vehicle_def)
qed (simp add: same_vehicle_def)

section \<open>The envelope\<close>

lemma tracked_sized:
  assumes "tracked v"
  shows "sized 215 (vs_lat v)" "sized 215 (vs_lon v)" "sized 2147484 (vs_alt v)" "sized 328 (vs_vx v)"
    "sized 328 (vs_vy v)" "sized 328 (vs_vz v)" "sized 656 (vs_speed v)" "sized 656 (vs_heading v)"
    "sized 100 (vs_battery v)"
  using assms unfolding tracked_def by (auto intro: on_grid_sized)

lemma tracked_physical: "tracked v \<Longrightarrow> physical (bridge_payload v)"
  using tracked_sized [of v] by (auto simp: physical_def bridge_payload_def intro: sized_mono)

lemma tracked_rounded:
  assumes "tracked v"
  shows "Normalize (bridge_payload v) = bridge_payload v"
proof -
  have "roundFloat (vs_lat v) 6 = vs_lat v" "roundFloat (vs_lon v) 6 = vs_lon v" "roundFloat (vs_alt v) 2 = vs_alt v"
    "roundFloat (vs_vx v) 2 = vs_vx v" "roundFloat (vs_vy v) 2 = vs_vy v" "roundFloat (vs_vz v) 2 = vs_vz v"
    "roundFloat (vs_speed v) 2 = vs_speed v" "roundFloat (vs_heading v) 1 = vs_heading v"
    "roundFloat (vs_battery v) 1 = vs_battery v"
    using assms unfolding tracked_def by (auto intro: roundFloat_fixed)
  then show ?thesis by (simp add: bridge_payload_def normalize_defs)
qed

lemma bridge_payload_finite:
  "payload_finite (MissionPayload (bridge_payload v)) \<longleftrightarrow>
     finite64 (vs_roll v) \<and> finite64 (vs_pitch v) \<and> finite64 (vs_yaw v)"
  by (simp add: payload_finite_def bridge_payload_def)

lemma tracked_in_bounds:
  "tracked v \<Longrightarrow> in_bounds (bridge_payload v) \<longleftrightarrow> sized 90 (vs_lat v) \<and> sized 180 (vs_lon v)"
  using tracked_sized(9) [of v] by (simp add: in_bounds_def bridge_payload_def tracked_def sized_iff)

text \<open>Rounded telemetry of a physical magnitude: the constructor fails exactly on a payload that is
  not finite, and validation accepts the envelope exactly when the values are in bounds.\<close>

lemma NewTelemetryEnvelope_iff:
  assumes "ValidTiers c" and "origin \<noteq> ''''" and "now2 \<noteq> 0"
    and "VehicleID t \<noteq> ''''" "VehicleType t \<noteq> ''''" "Team t \<noteq> ''''"
    and "physical t" and "Normalize t = t"
  shows "if payload_finite (MissionPayload t)
    then \<exists>e. NewTelemetryEnvelope L now1 now2 c origin t caveats = ok e \<and> Telemetry e = Some t \<and>
      Command e = None \<and> Classification (Header e) = c \<and> (fst (Validate L (Some e)) = ok () \<longleftrightarrow> in_bounds t)
    else \<exists>err. NewTelemetryEnvelope L now1 now2 c origin t caveats = fail err"
proof (cases rule: Marshal_cases [of "json_telemetry t"])
  case (ok s)
  then have fin: "payload_finite (MissionPayload t)" by (simp add: finite_json_telemetry_iff)
  define e where "e = \<lparr>Header = \<lparr>Classification = c, OriginEnclave = origin, TimestampNs = now2,
          MessageID = ''msg-'' @ fmt_d now1 @ ''-'' @ VehicleID t, Digest = digest_of s, Caveats = caveats\<rparr>,
        Telemetry = Some t, Command = None\<rparr>"
  have e: "NewTelemetryEnvelope L now1 now2 c origin t caveats = Prelude.ok e"
    unfolding e_def using NewTelemetryEnvelope_ok [OF assms(1), of t s L now1 now2 origin caveats] ok(1) assms(8) by simp
  have h: "Header e = \<lparr>Classification = c, OriginEnclave = origin, TimestampNs = now2,
          MessageID = ''msg-'' @ fmt_d now1 @ ''-'' @ VehicleID t, Digest = digest_of s, Caveats = caveats\<rparr>"
    and t: "Telemetry e = Some t" "Command e = None" by (simp_all add: e_def)
  have n: "normalized e = e" by (simp add: normalized_def t assms(8))
  have "payload_ok e \<longleftrightarrow> in_bounds t"
    using physical_floats [OF assms(7)] assms(4-6) by (simp add: payload_ok_def t check_telemetry_iff)
  moreover have "check_header L (Header e) = None" using assms(1-3) by (simp add: h check_header_None_iff)
  moreover have "Marshal (payload_json e) = Prelude.ok s" by (simp add: payload_json_def t ok(1))
  ultimately have "fst (Validate L (Some e)) = Prelude.ok () \<longleftrightarrow> in_bounds t"
    by (simp add: Validate_ok_iff n h EqualFold_refl)
  with e t h fin show ?thesis by simp
next
  case (error err)
  then have "\<not> payload_finite (MissionPayload t)" using physical_finite [OF assms(7)] by blast
  with error assms(1,8) show ?thesis
    by (simp add: NewTelemetryEnvelope_def ComputePayloadDigest_Some Let_def)
qed

lemma vehicle_named:
  assumes "v = ingest_all (NewVehicleState unitID team vehicleType tier systemID) frames" and "unitID \<noteq> ''''"
  shows "vs_unitID v = unitID" "vs_tier v = (if tier = '''' then Tier2Restricted else tier)"
    "vs_team v \<noteq> ''''" "vs_vehicleType v \<noteq> ''''" "tracked v"
  using same_vehicle_ingest_all [of "NewVehicleState unitID team vehicleType tier systemID" frames] assms
    tracked_ingest_all [OF tracked_New, of unitID team vehicleType tier systemID frames]
  by (auto simp: same_vehicle_def NewVehicleState_def Let_def)

section \<open>Properties\<close>

text \<open>C24. What the bridge publishes: after any frames, from any sender and with any payload bytes,
  the state is well-formed (armed and status agree, battery within 0 to 100) and building an envelope
  advances the sequence; it fails exactly when a reported attitude angle is not finite, and otherwise
  yields an envelope of the configured tier that validation accepts exactly when the last reported
  position is on the globe.\<close>

theorem bridge_envelope:
  assumes "v = ingest_all (NewVehicleState unitID team vehicleType tier systemID) frames"
    and "unitID \<noteq> ''''" and "tier = '''' \<or> ValidTiers tier" and "now2 \<noteq> 0"
  shows "(vs_armed v \<longleftrightarrow> vs_status v \<noteq> ''STANDBY'') \<and> 0 \<le> val (vs_battery v) \<and> val (vs_battery v) \<le> 100 \<and>
    (case BuildSecurityEnvelope L now1 now2 v of (v', r) \<Rightarrow>
       v' = v\<lparr>vs_sequence := vs_sequence v + 1\<rparr> \<and>
       (if finite64 (vs_roll v) \<and> finite64 (vs_pitch v) \<and> finite64 (vs_yaw v)
        then \<exists>e. r = ok e \<and> Telemetry e = Some (bridge_payload v') \<and>
          Classification (Header e) = (if tier = '''' then Tier2Restricted else tier) \<and>
          (fst (Validate L (Some e)) = ok () \<longleftrightarrow> sized 90 (vs_lat v) \<and> sized 180 (vs_lon v))
        else \<exists>err. r = fail err))"
proof -
  note n = vehicle_named [OF assms(1,2)]
  let ?v = "v\<lparr>vs_sequence := vs_sequence v + 1\<rparr>"
  have tr: "tracked ?v" using n(5) by simp
  have vt: "ValidTiers (vs_tier v)" using n(2) assms(3) by (auto simp: ValidTiers_def)
  have p: "VehicleID (bridge_payload ?v) \<noteq> ''''" "VehicleType (bridge_payload ?v) \<noteq> ''''" "Team (bridge_payload ?v) \<noteq> ''''"
    using n assms(2) by (simp_all add: bridge_payload_def)
  have o: "''mavlink-'' @ vs_unitID v \<noteq> ''''" by simp
  have B: "BuildSecurityEnvelope L now1 now2 v =
      (?v, NewTelemetryEnvelope L now1 now2 (vs_tier v) (''mavlink-'' @ vs_unitID v) (bridge_payload ?v) [])"
    by (simp add: BuildSecurityEnvelope_def Let_def)
  have "(vs_armed v \<longleftrightarrow> vs_status v \<noteq> ''STANDBY'') \<and> 0 \<le> val (vs_battery v) \<and> val (vs_battery v) \<le> 100"
    using n(5) tracked_sized(9) [OF n(5)] by (auto simp: tracked_def sized_iff split: if_splits)
  then show ?thesis
    using NewTelemetryEnvelope_iff [OF vt o assms(4) p tracked_physical [OF tr] tracked_rounded [OF tr], of L now1 "[]"]
    unfolding B prod.case bridge_payload_finite tracked_in_bounds [OF tr] n(2) by auto
qed

definition armed_heartbeat :: Frame where
  "armed_heartbeat = frame_of 1 1 0 MsgIDHeartbeat (EncodeHeartbeat
     \<lparr>hb_CustomMode = 0, hb_Type = 2, hb_Autopilot = 12, hb_BaseMode = 0x81, hb_SystemStatus = 4, hb_MavlinkVersion = 3\<rparr>)"

theorem bridge_envelope_witness:
  "\<forall>L. let v = ingest_all (NewVehicleState ''alpha'' '''' '''' '''' 1) [(1, armed_heartbeat)]
    in vs_armed v \<and> vs_status v \<noteq> ''STANDBY'' \<and>
      (\<exists>e. snd (BuildSecurityEnvelope L 5 6 v) = ok e \<and> fst (Validate L (Some e)) = ok ())"
proof
  fix L
  define v where "v = ingest_all (NewVehicleState ''alpha'' '''' '''' '''' 1) [(1, armed_heartbeat)]"
  have hb: "DecodeHeartbeat (fr_Payload armed_heartbeat) =
      ok \<lparr>hb_CustomMode = 0, hb_Type = 2, hb_Autopilot = 12, hb_BaseMode = 0x81, hb_SystemStatus = 4, hb_MavlinkVersion = 3\<rparr>"
    "fr_MessageID armed_heartbeat = MsgIDHeartbeat"
    using heartbeat.dec_enc [where rest = "[]"] by (simp_all add: armed_heartbeat_def frame_of_def)
  then have "v = ingest_heartbeat (NewVehicleState ''alpha'' '''' '''' '''' 1\<lparr>vs_lastUpdate := 1\<rparr>)
      \<lparr>hb_CustomMode = 0, hb_Type = 2, hb_Autopilot = 12, hb_BaseMode = 0x81, hb_SystemStatus = 4, hb_MavlinkVersion = 3\<rparr>"
    by (simp add: v_def IngestFrame_def apply_decoded_def ok_def Let_def)
  then have v: "vs_armed v" "finite64 (vs_roll v)" "finite64 (vs_pitch v)" "finite64 (vs_yaw v)"
    "sized 90 (vs_lat v)" "sized 180 (vs_lon v)"
    by (simp_all add: ingest_heartbeat_def NewVehicleState_def Let_def IsArmed_def zero_f64_def sized_def)
  from bridge_envelope [OF v_def, of 6 L 5] v
  show "let v = ingest_all (NewVehicleState ''alpha'' '''' '''' '''' 1) [(1, armed_heartbeat)]
    in vs_armed v \<and> vs_status v \<noteq> ''STANDBY'' \<and>
      (\<exists>e. snd (BuildSecurityEnvelope L 5 6 v) = ok e \<and> fst (Validate L (Some e)) = ok ())"
    unfolding v_def [symmetric] Let_def by (auto split: prod.splits)
qed

end
