(* ===== verification/Mavlink_Stream.thy ===== *)
theory Mavlink_Stream
  imports Mavlink_Messages
begin

text \<open>
  The stream framer (\<^verbatim>\<open>pkg/mavlink/stream.go\<close>): hunting for the magic byte, peeking
  at the header and the packet, and discarding a packet once it decodes. The
  \<^verbatim>\<open>bufio.Reader\<close> is its buffered bytes together with what the underlying
  \<^verbatim>\<open>io.Reader\<close> will still deliver, a list of events: a chunk of data or an error (running
  out of events is \<^verbatim>\<open>io.EOF\<close>). \<open>fill\<close> is the reader's refill loop; after an error the
  reader keeps its buffered bytes and the next call reads on, as \<^verbatim>\<open>bufio\<close> does. The
  4096-byte buffer never limits a peek, since a packet has at most 267 bytes. A source is taken not to return
  a hundred empty reads in a row, at which \<^verbatim>\<open>bufio\<close> gives up with
  \<^verbatim>\<open>io.ErrNoProgress\<close>; its documentation discourages readers from returning any.
\<close>

section \<open>Model\<close>

datatype ioerr = EOF | IOError string

datatype ioevent = Data bytes | Fail ioerr

record StreamDecoder =
  sd_buf :: bytes
  sd_src :: "ioevent list"

definition NewStreamDecoder :: "ioevent list \<Rightarrow> StreamDecoder" where
  "NewStreamDecoder src = \<lparr>sd_buf = [], sd_src = src\<rparr>"

text \<open>Refill until \<open>n\<close> bytes are buffered or the source reports an error.\<close>

fun fill :: "nat \<Rightarrow> bytes \<Rightarrow> ioevent list \<Rightarrow> bytes \<times> ioevent list \<times> ioerr option" where
  "fill n buf [] = (buf, [], if n \<le> length buf then None else Some EOF)"
| "fill n buf (Data d # src) =
     (if n \<le> length buf then (buf, Data d # src, None) else fill n (buf @ d) src)"
| "fill n buf (Fail e # src) =
     (if n \<le> length buf then (buf, Fail e # src, None) else (buf, src, Some e))"

definition ReadByte :: "StreamDecoder \<Rightarrow> StreamDecoder \<times> (ioerr + byte)" where
  "ReadByte s =
     (case fill 1 (sd_buf s) (sd_src s) of
        (buf, src, Some e) \<Rightarrow> (\<lparr>sd_buf = buf, sd_src = src\<rparr>, Inl e)
      | (buf, src, None) \<Rightarrow> (\<lparr>sd_buf = tl buf, sd_src = src\<rparr>, Inr (hd buf)))"

definition Peek :: "nat \<Rightarrow> StreamDecoder \<Rightarrow> StreamDecoder \<times> (ioerr + bytes)" where
  "Peek n s =
     (case fill n (sd_buf s) (sd_src s) of
        (buf, src, Some e) \<Rightarrow> (\<lparr>sd_buf = buf, sd_src = src\<rparr>, Inl e)
      | (buf, src, None) \<Rightarrow> (\<lparr>sd_buf = buf, sd_src = src\<rparr>, Inr (take n buf)))"

definition Discard :: "nat \<Rightarrow> StreamDecoder \<Rightarrow> StreamDecoder" where
  "Discard n s = s\<lparr>sd_buf := drop n (sd_buf s)\<rparr>"

text \<open>The bytes a decoder can still see.\<close>

fun src_bytes :: "ioevent list \<Rightarrow> bytes" where
  "src_bytes [] = []"
| "src_bytes (Data d # src) = d @ src_bytes src"
| "src_bytes (Fail e # src) = src_bytes src"

definition pending :: "StreamDecoder \<Rightarrow> bytes" where
  "pending s = sd_buf s @ src_bytes (sd_src s)"

lemma fill_pending: "fill n buf src = (buf', src', r) \<Longrightarrow> buf' @ src_bytes src' = buf @ src_bytes src"
  by (induction n buf src rule: fill.induct) (auto split: if_splits)

lemma fill_enough: "fill n buf src = (buf', src', None) \<Longrightarrow> n \<le> length buf'"
  by (induction n buf src rule: fill.induct) (auto split: if_splits)

lemma Peek_pending: "Peek n s = (s', r) \<Longrightarrow> pending s' = pending s"
  by (auto simp: Peek_def pending_def split: prod.splits option.splits dest!: fill_pending)

lemma ReadByte_pending: "ReadByte s = (s', Inr b) \<Longrightarrow> pending s = b # pending s'"
proof -
  assume rb: "ReadByte s = (s', Inr b)"
  obtain buf src r where f: "fill 1 (sd_buf s) (sd_src s) = (buf, src, r)" by (metis prod_cases3)
  with rb have "r = None" "b = hd buf" "s' = \<lparr>sd_buf = tl buf, sd_src = src\<rparr>"
    by (auto simp: ReadByte_def split: option.splits)
  with fill_pending [OF f] fill_enough [of 1 "sd_buf s" "sd_src s" buf src] f show ?thesis
    by (cases buf) (auto simp: pending_def)
qed

text \<open>One pass of the loop of \<^verbatim>\<open>NextFrame\<close>: \<open>Inl\<close> is \<^verbatim>\<open>continue\<close>.\<close>

definition hunt :: "StreamDecoder \<Rightarrow> StreamDecoder \<times> (unit + (ioerr + Frame) option)" where
  "hunt s =
     (case ReadByte s of
        (s, Inl e) \<Rightarrow> (s, Inr (Some (Inl e)))
      | (s, Inr b) \<Rightarrow>
          (if b \<noteq> MagicV2 then (s, Inl ())
           else (case Peek (HeaderLenV2 - 1) s of
             (s, Inl e) \<Rightarrow> (s, Inr (Some (Inl e)))
           | (s, Inr headerRest) \<Rightarrow>
               (case idx headerRest 0 of
                  None \<Rightarrow> (s, Inr None)
                | Some l \<Rightarrow>
                    (let payloadLen = unat l;
                         totalPacketLen = HeaderLenV2 + payloadLen + ChecksumLen;
                         needed = totalPacketLen - 1
                     in (case Peek needed s of
                           (s, Inl e) \<Rightarrow> (s, Inr (Some (Inl e)))
                         | (s, Inr packetRest) \<Rightarrow>
                             (case DecodeFrame (MagicV2 # packetRest) of
                                None \<Rightarrow> (s, Inr None)
                              | Some (Inl err) \<Rightarrow> (s, Inl ())
                              | Some (Inr frame) \<Rightarrow> (Discard needed s, Inr (Some (Inr frame))))))))))"

lemma hunt_progress: "hunt s = (s', Inl ()) \<Longrightarrow> length (pending s') < length (pending s)"
  by (auto simp: hunt_def Let_def split: prod.splits sum.splits if_splits option.splits
      dest!: Peek_pending ReadByte_pending)

text \<open>\<open>None\<close> would be a panic.\<close>

function NextFrame :: "StreamDecoder \<Rightarrow> StreamDecoder \<times> (ioerr + Frame) option" where
  "NextFrame s =
     (case hunt s of
        (s', Inl _) \<Rightarrow> NextFrame s'
      | (s', Inr r) \<Rightarrow> (s', r))"
  by pat_completeness auto
termination
  by (relation "measure (\<lambda>s. length (pending s))") (auto dest: hunt_progress [OF sym])

declare NextFrame.simps [simp del]

definition ReadSingleFrame :: "ioevent list \<Rightarrow> (ioerr + Frame) option" where
  "ReadSingleFrame r = snd (NextFrame (NewStreamDecoder r))"

section \<open>Reference: scanning a byte string\<close>

text \<open>
  What the framer computes, without buffers and refills: skip to a magic byte; if the packet it
  announces is not complete, nothing more can be read; if it decodes, it is the next frame; if not,
  go on right after the magic byte.
\<close>

fun scan :: "bytes \<Rightarrow> (Frame \<times> bytes) option" where
  "scan [] = None"
| "scan (b # bs) =
     (if b \<noteq> MagicV2 then scan bs
      else if 9 \<le> length bs \<and> 11 + unat (bs ! 0) \<le> length bs
      then (case DecodeFrame (MagicV2 # take (11 + unat (bs ! 0)) bs) of
              Some (Inr f) \<Rightarrow> Some (f, drop (11 + unat (bs ! 0)) bs)
            | _ \<Rightarrow> scan bs)
      else None)"

fun no_fail :: "ioevent list \<Rightarrow> bool" where
  "no_fail [] = True"
| "no_fail (Data d # src) = no_fail src"
| "no_fail (Fail e # src) = False"

abbreviation reliable :: "StreamDecoder \<Rightarrow> bool" where
  "reliable s \<equiv> no_fail (sd_src s)"

section \<open>The buffered framer implements the scanner\<close>

lemma fill_reliable:
  assumes "no_fail src"
  shows "\<exists>buf' src'. fill n buf src =
      (buf', src', if n \<le> length (buf @ src_bytes src) then None else Some EOF) \<and> no_fail src'"
  using assms by (induction n buf src rule: fill.induct) auto

lemma Peek_reliable:
  assumes "reliable s"
  obtains s' where "Peek n s = (s', if n \<le> length (pending s) then Inr (take n (pending s)) else Inl EOF)"
    and "pending s' = pending s" and "reliable s'" and "n \<le> length (pending s) \<Longrightarrow> n \<le> length (sd_buf s')"
proof -
  obtain buf src where f: "fill n (sd_buf s) (sd_src s) =
      (buf, src, if n \<le> length (pending s) then None else Some EOF)" and nf: "no_fail src"
    using fill_reliable [OF assms, of n "sd_buf s"] unfolding pending_def by blast
  have p: "buf @ src_bytes src = pending s" using fill_pending [OF f] by (simp add: pending_def)
  show ?thesis
  proof (cases "n \<le> length (pending s)")
    case True
    with f have f': "fill n (sd_buf s) (sd_src s) = (buf, src, None)" by simp
    with fill_enough have n: "n \<le> length buf" by blast
    moreover have "take n (pending s) = take n buf" using n p by (metis take_append diff_is_0_eq take_0 append_Nil2)
    ultimately show ?thesis using f' True nf p
      by (intro that [of "\<lparr>sd_buf = buf, sd_src = src\<rparr>"]) (auto simp: Peek_def pending_def)
  next
    case False
    with f nf p show ?thesis
      by (intro that [of "\<lparr>sd_buf = buf, sd_src = src\<rparr>"]) (auto simp: Peek_def pending_def)
  qed
qed

lemma ReadByte_reliable:
  assumes "reliable s"
  obtains s' where "ReadByte s = (s', if pending s = [] then Inl EOF else Inr (hd (pending s)))"
    and "pending s' = tl (pending s)" and "reliable s'"
proof -
  obtain buf src where f: "fill 1 (sd_buf s) (sd_src s) =
      (buf, src, if pending s \<noteq> [] then None else Some EOF)" and nf: "no_fail src"
    using fill_reliable [OF assms, of 1 "sd_buf s"] unfolding pending_def by (auto simp: Suc_le_eq)
  have p: "buf @ src_bytes src = pending s" using fill_pending [OF f] by (simp add: pending_def)
  have "buf \<noteq> []" if "pending s \<noteq> []"
    using fill_enough [of 1 "sd_buf s" "sd_src s" buf src] f that by auto
  then have "hd (pending s) = hd buf" "tl (pending s) = tl buf @ src_bytes src" if "pending s \<noteq> []"
    using p that by (metis hd_append, metis tl_append2)
  with f nf p show ?thesis
    by (intro that [of "\<lparr>sd_buf = tl buf, sd_src = src\<rparr>"])
      (auto simp: ReadByte_def pending_def [of "\<lparr>sd_buf = _, sd_src = _\<rparr>"] split: if_splits)
qed

lemma needed_eq: "12 + u - Suc 0 = 11 + u"
  by simp

lemma hunt_reliable:
  assumes "reliable s"
  obtains (eof) s' where "hunt s = (s', Inr (Some (Inl EOF)))" "scan (pending s) = None"
  | (skip) s' where "hunt s = (s', Inl ())" "scan (pending s) = scan (pending s')" "reliable s'"
  | (frame) s' f where "hunt s = (s', Inr (Some (Inr f)))" "scan (pending s) = Some (f, pending s')" "reliable s'"
proof -
  obtain s1 where r1: "ReadByte s = (s1, if pending s = [] then Inl EOF else Inr (hd (pending s)))"
    and p1: "pending s1 = tl (pending s)" and "reliable s1" using ReadByte_reliable [OF assms] .
  show ?thesis
  proof (cases "pending s")
    case Nil
    with r1 show ?thesis by (intro eof [of s1]) (simp_all add: hunt_def)
  next
    case (Cons b bs)
    obtain s2 where r2: "Peek 9 s1 = (s2, if 9 \<le> length bs then Inr (take 9 bs) else Inl EOF)"
      and p2: "pending s2 = bs" and "reliable s2"
      using Peek_reliable [OF \<open>reliable s1\<close>, of 9] p1 Cons by auto
    define n where "n = 11 + unat (bs ! 0)"
    obtain s3 where r3: "Peek n s2 = (s3, if n \<le> length bs then Inr (take n bs) else Inl EOF)"
      and p3: "pending s3 = bs" and "reliable s3" and b3: "n \<le> length bs \<Longrightarrow> n \<le> length (sd_buf s3)"
      using Peek_reliable [OF \<open>reliable s2\<close>, of n] p2 by auto
    consider "b \<noteq> MagicV2" | "b = MagicV2" "\<not> (9 \<le> length bs \<and> n \<le> length bs)"
      | "b = MagicV2" "9 \<le> length bs" "n \<le> length bs" by blast
    then show ?thesis
    proof cases
      case 1
      with r1 p1 Cons \<open>reliable s1\<close> show ?thesis by (intro skip [of s1]) (simp_all add: hunt_def)
    next
      case 2
      with r1 r2 r3 Cons show ?thesis
        by (intro eof [of "if 9 \<le> length bs then s3 else s2"])
          (auto simp: hunt_def frame_consts n_def Let_def needed_eq)
    next
      case 3
      then have h: "hunt s = (case DecodeFrame (MagicV2 # take n bs) of
          None \<Rightarrow> (s3, Inr None) | Some (Inl err) \<Rightarrow> (s3, Inl ())
        | Some (Inr frame) \<Rightarrow> (Discard n s3, Inr (Some (Inr frame))))"
        using r1 r2 r3 Cons by (auto simp: hunt_def frame_consts n_def Let_def needed_eq split: option.split sum.split)
      have d: "pending (Discard n s3) = drop n bs" "reliable (Discard n s3)"
        using p3 b3 3 \<open>reliable s3\<close> by (auto simp: Discard_def pending_def)
      show ?thesis
      proof (cases "DecodeFrame (MagicV2 # take n bs)" rule: go_cases)
        case panic
        then show ?thesis using DecodeFrame_total by blast
      next
        case (error e)
        with 3 h Cons p3 \<open>reliable s3\<close> show ?thesis
          by (intro skip [of s3]) (auto simp: n_def fail_def)
      next
        case (result f)
        with 3 h Cons d show ?thesis
          by (intro frame [of "Discard n s3" f]) (auto simp: n_def ok_def)
      qed
    qed
  qed
qed

lemma NextFrame_scan:
  "reliable s \<Longrightarrow>
     (case scan (pending s) of
        None \<Rightarrow> snd (NextFrame s) = Some (Inl EOF)
      | Some (f, rest) \<Rightarrow> \<exists>s'. NextFrame s = (s', Some (Inr f)) \<and> pending s' = rest \<and> reliable s')"
proof (induction s rule: NextFrame.induct)
  case (1 s)
  from "1.prems" show ?case
  proof (cases rule: hunt_reliable)
    case (eof s')
    then show ?thesis by (simp add: NextFrame.simps [of s])
  next
    case (skip s')
    with "1.IH" have "case scan (pending s') of
        None \<Rightarrow> snd (NextFrame s') = Some (Inl EOF)
      | Some (f, rest) \<Rightarrow> \<exists>s''. NextFrame s' = (s'', Some (Inr f)) \<and> pending s'' = rest \<and> reliable s''"
      by auto
    moreover from skip have "NextFrame s = NextFrame s'" by (simp add: NextFrame.simps [of s])
    ultimately show ?thesis using skip by (auto split: option.splits)
  next
    case (frame s' f)
    then show ?thesis by (simp add: NextFrame.simps [of s])
  qed
qed

section \<open>Reading a stream to its end\<close>

lemma hunt_frame_progress: "hunt s = (s', Inr (Some (Inr f))) \<Longrightarrow> length (pending s') < length (pending s)"
  by (auto simp: hunt_def Let_def Discard_def pending_def [of "_\<lparr>sd_buf := _\<rparr>"]
      split: prod.splits sum.splits if_splits option.splits
      dest!: Peek_pending ReadByte_pending) (auto simp: pending_def dest!: arg_cong [of _ _ length])

lemma NextFrame_progress: "NextFrame s = (s', Some (Inr f)) \<Longrightarrow> length (pending s') < length (pending s)"
proof (induction s rule: NextFrame.induct)
  case (1 s)
  obtain t r where h: "hunt s = (t, r)" by fastforce
  show ?case
  proof (cases r)
    case (Inl u)
    with h have "NextFrame s = NextFrame t" by (simp add: NextFrame.simps [of s])
    with "1.prems" "1.IH" h Inl have "length (pending s') < length (pending t)" by auto
    with h Inl hunt_progress [of s t] show ?thesis by simp
  next
    case (Inr x)
    with h "1.prems" have "hunt s = (s', Inr (Some (Inr f)))" by (simp add: NextFrame.simps [of s])
    then show ?thesis by (rule hunt_frame_progress)
  qed
qed

text \<open>The frames successive calls of \<^verbatim>\<open>NextFrame\<close> return until the first error.\<close>

function read_all :: "StreamDecoder \<Rightarrow> Frame list" where
  "read_all s =
     (case NextFrame s of
        (s', Some (Inr f)) \<Rightarrow> f # read_all s'
      | _ \<Rightarrow> [])"
  by pat_completeness auto
termination
  by (relation "measure (\<lambda>s. length (pending s))") (auto dest: NextFrame_progress [OF sym])

declare read_all.simps [simp del]

lemma read_all_scan:
  "reliable s \<Longrightarrow> read_all s =
     (case scan (pending s) of None \<Rightarrow> []
      | Some (f, rest) \<Rightarrow> f # read_all (fst (NextFrame s)))"
  using NextFrame_scan [of s] by (subst read_all.simps) (auto split: option.splits prod.splits sum.splits)

lemma scan_noise: "MagicV2 \<notin> set noise \<Longrightarrow> scan (noise @ bs) = scan bs"
  by (induction noise) auto

lemma scan_packet:
  assumes "length payload \<le> 255" and "unat msgID < 2 ^ 24"
  shows "scan (packet sysID compID seq msgID payload @ rest) = Some (frame_of sysID compID seq msgID payload, rest)"
proof -
  let ?p = "packet sysID compID seq msgID payload"
  have n: "unat (of_nat (length payload) :: byte) = length payload"
    using assms(1) by (simp add: unat_of_nat take_bit_nat_eq_self)
  obtain q where q: "?p = MagicV2 # q" by (simp add: packet_def Let_def)
  then have "q ! 0 = of_nat (length payload)" "length q = 11 + length payload"
    using length_packet [of sysID compID seq msgID payload]
    by (auto simp: packet_def Let_def frame_header_def)
  moreover from this have "(q @ rest) ! 0 = of_nat (length payload)" by (simp add: nth_append)
  ultimately show ?thesis
    using DecodeFrame_packet [OF assms, of sysID compID seq "[]"] q n by (simp add: ok_def)
qed

record msg =
  m_sys :: byte
  m_comp :: byte
  m_seq :: byte
  m_id :: u32
  m_payload :: bytes

definition msg_ok :: "msg \<Rightarrow> bool" where
  "msg_ok m \<longleftrightarrow> length (m_payload m) \<le> 255 \<and> unat (m_id m) < 2 ^ 24"

definition msg_packet :: "msg \<Rightarrow> bytes" where
  "msg_packet m = packet (m_sys m) (m_comp m) (m_seq m) (m_id m) (m_payload m)"

definition msg_frame :: "msg \<Rightarrow> Frame" where
  "msg_frame m = frame_of (m_sys m) (m_comp m) (m_seq m) (m_id m) (m_payload m)"

text \<open>A line that carries packets with noise before each and after the last.\<close>

fun line :: "(bytes \<times> msg) list \<Rightarrow> bytes \<Rightarrow> bytes" where
  "line [] tail = tail"
| "line ((noise, m) # ms) tail = noise @ msg_packet m @ line ms tail"

lemma read_all_line:
  assumes "reliable s" and "pending s = line ms tail"
    and "\<forall>(noise, m) \<in> set ms. MagicV2 \<notin> set noise \<and> msg_ok m" and "MagicV2 \<notin> set tail"
  shows "read_all s = map (msg_frame \<circ> snd) ms"
  using assms
proof (induction ms arbitrary: s)
  case Nil
  then show ?case using scan_noise [of tail "[]"] by (simp add: read_all_scan)
next
  case (Cons nm ms)
  obtain noise m where nm: "nm = (noise, m)" by fastforce
  with Cons.prems have sc: "scan (pending s) = Some (msg_frame m, line ms tail)"
    by (simp add: scan_noise scan_packet msg_packet_def msg_frame_def msg_ok_def)
  with NextFrame_scan [OF Cons.prems(1)] obtain s' where
    "NextFrame s = (s', Some (Inr (msg_frame m)))" "pending s' = line ms tail" "reliable s'" by auto
  with Cons sc nm show ?case by (simp add: read_all_scan)
qed

lemma no_fail_map_Data [simp]: "no_fail (map Data ds)"
  by (induction ds) simp_all

lemma src_bytes_map_Data [simp]: "src_bytes (map Data ds) = concat ds"
  by (induction ds) simp_all

section \<open>Loops over a decoder\<close>

text \<open>
  The two read loops of the program (the stream client and the bench checker) have one shape: take the
  next frame, stop at end of file, go on after any other error. \<open>pump\<close> is that loop over a state
  \<open>st\<close>; \<open>k\<close> counts its passes, so that each can have its own clock reading. It returns because
  every frame consumes bytes and every other error an event of the source.
\<close>

definition remaining :: "StreamDecoder \<Rightarrow> nat" where
  "remaining s = length (pending s) + length (sd_src s)"

lemma fill_src:
  "fill n buf src = (buf', src', r) \<Longrightarrow> length src' \<le> length src \<and> (\<forall>e. r = Some (IOError e) \<longrightarrow> length src' < length src)"
  by (induction n buf src rule: fill.induct) (auto split: if_splits)

lemma Peek_src:
  "Peek n s = (s', r) \<Longrightarrow> pending s' = pending s \<and> length (sd_src s') \<le> length (sd_src s) \<and>
     (\<forall>e. r = Inl (IOError e) \<longrightarrow> length (sd_src s') < length (sd_src s))"
  using Peek_pending [of n s s' r]
  by (auto simp: Peek_def split: prod.splits option.splits dest!: fill_src)

lemma ReadByte_src:
  assumes "ReadByte s = (s', r)"
  shows "length (sd_src s') \<le> length (sd_src s) \<and>
     (\<forall>b. r = Inr b \<longrightarrow> pending s = b # pending s') \<and>
     (\<forall>e. r = Inl (IOError e) \<longrightarrow> length (sd_src s') < length (sd_src s) \<and> pending s' = pending s)"
proof -
  obtain buf src q where f: "fill 1 (sd_buf s) (sd_src s) = (buf, src, q)" by (metis prod_cases3)
  show ?thesis
    using fill_src [OF f] fill_pending [OF f] ReadByte_pending [of s s'] assms f
    by (auto simp: ReadByte_def pending_def split: option.splits)
qed

lemma hunt_src:
  "hunt s = (s', r) \<Longrightarrow> length (sd_src s') \<le> length (sd_src s) \<and>
     (\<forall>e. r = Inr (Some (Inl (IOError e))) \<longrightarrow> remaining s' < remaining s)"
  unfolding hunt_def remaining_def
  by (auto simp: Let_def Discard_def split: prod.splits sum.splits if_splits option.splits
      dest!: Peek_src ReadByte_src)

lemma NextFrame_src:
  "NextFrame s = (s', r) \<Longrightarrow> length (sd_src s') \<le> length (sd_src s) \<and>
     (\<forall>e. r = Some (Inl (IOError e)) \<longrightarrow> remaining s' < remaining s)"
proof (induction s rule: NextFrame.induct)
  case (1 s)
  obtain t q where h: "hunt s = (t, q)" by fastforce
  show ?case
  proof (cases q)
    case (Inl u)
    with h have n: "NextFrame s = NextFrame t" by (simp add: NextFrame.simps [of s])
    with "1.prems" "1.IH" h Inl have "length (sd_src s') \<le> length (sd_src t) \<and>
      (\<forall>e. r = Some (Inl (IOError e)) \<longrightarrow> remaining s' < remaining t)" by auto
    with hunt_src [OF h] hunt_progress [of s t] h Inl show ?thesis
      by (auto simp: remaining_def)
  next
    case (Inr x)
    with h "1.prems" have "hunt s = (s', Inr r)" by (simp add: NextFrame.simps [of s])
    then show ?thesis using hunt_src by blast
  qed
qed

lemma NextFrame_remaining:
  "NextFrame s = (s', Some (Inr f)) \<Longrightarrow> remaining s' < remaining s"
  "NextFrame s = (s', Some (Inl (IOError e))) \<Longrightarrow> remaining s' < remaining s"
  using NextFrame_progress [of s s' f] NextFrame_src [of s s'] by (auto simp: remaining_def)

function pump ::
  "(nat \<Rightarrow> 's \<Rightarrow> Frame \<Rightarrow> 's) \<Rightarrow> ('s \<Rightarrow> 's) \<Rightarrow> nat \<Rightarrow> StreamDecoder \<Rightarrow> 's \<Rightarrow> (StreamDecoder \<times> 's) option" where
  "pump on_frame on_error k s st =
     (case NextFrame s of
        (s', None) \<Rightarrow> None
      | (s', Some (Inr frame)) \<Rightarrow> pump on_frame on_error (k + 1) s' (on_frame k st frame)
      | (s', Some (Inl EOF)) \<Rightarrow> Some (s', st)
      | (s', Some (Inl (IOError e))) \<Rightarrow> pump on_frame on_error (k + 1) s' (on_error st))"
  by pat_completeness auto
termination
  by (relation "measure (\<lambda>(_, _, _, s, _). remaining s)") (auto dest: NextFrame_remaining [OF sym])

declare pump.simps [simp del]

text \<open>On a source without errors the loop applies the frames in order and returns.\<close>

fun apply_frames :: "(nat \<Rightarrow> 's \<Rightarrow> Frame \<Rightarrow> 's) \<Rightarrow> nat \<Rightarrow> 's \<Rightarrow> Frame list \<Rightarrow> 's" where
  "apply_frames on_frame k st [] = st"
| "apply_frames on_frame k st (f # fs) = apply_frames on_frame (k + 1) (on_frame k st f) fs"

lemma pump_reliable:
  "reliable s \<Longrightarrow> \<exists>s'. pump on_frame on_error k s st = Some (s', apply_frames on_frame k st (read_all s))"
proof (induction s arbitrary: k st rule: read_all.induct)
  case (1 s)
  from NextFrame_scan [OF "1.prems"] show ?case
  proof (cases "scan (pending s)")
    case None
    with NextFrame_scan [OF "1.prems"] obtain s' where "NextFrame s = (s', Some (Inl EOF))"
      by (cases "NextFrame s") auto
    then show ?thesis by (simp add: pump.simps [of _ _ _ s] read_all.simps [of s])
  next
    case (Some x)
    with NextFrame_scan [OF "1.prems"] obtain f s' where n: "NextFrame s = (s', Some (Inr f))" "reliable s'"
      by (cases x) auto
    from "1.IH" [OF n(1) [symmetric] refl refl n(2), of "k + 1" "on_frame k st f"] n(1)
    show ?thesis by (simp add: pump.simps [of _ _ _ s] read_all.simps [of s])
  qed
qed

section \<open>Properties\<close>

text \<open>C13. Refinement: however the line's bytes are cut into reads, \<^verbatim>\<open>NextFrame\<close> returns what
  the buffer-free scanner finds in their concatenation, leaves exactly the scanner's rest unread,
  never panics, and reports \<^verbatim>\<open>io.EOF\<close> where the scanner finds nothing more.\<close>

theorem NextFrame_refines_scan:
  "case scan (concat chunks) of
     None \<Rightarrow> snd (NextFrame (NewStreamDecoder (map Data chunks))) = Some (Inl EOF)
   | Some (f, rest) \<Rightarrow>
       \<exists>s'. NextFrame (NewStreamDecoder (map Data chunks)) = (s', Some (Inr f)) \<and> pending s' = rest"
  using NextFrame_scan [of "NewStreamDecoder (map Data chunks)"]
  by (auto simp: NewStreamDecoder_def pending_def split: option.splits)

text \<open>C9. Synchronisation: from a line without read errors that carries any number of encoded packets, with
  noise that holds no magic byte (\<^verbatim>\<open>0xFD\<close>) before each of them and after the last, and cut into
  reads in any way, the framer delivers exactly the encoded frames, in order, none lost and none invented.\<close>

theorem read_all_recovers_frames:
  assumes "concat chunks = line ms tail"
    and "\<forall>(noise, m) \<in> set ms. MagicV2 \<notin> set noise \<and> msg_ok m" and "MagicV2 \<notin> set tail"
  shows "read_all (NewStreamDecoder (map Data chunks)) = map (msg_frame \<circ> snd) ms"
  using assms by (intro read_all_line) (simp_all add: NewStreamDecoder_def pending_def)

theorem read_all_recovers_frames_witness:
  "let m = \<lparr>m_sys = 1, m_comp = 1, m_seq = 5, m_id = 0, m_payload = [1, 2]\<rparr>
   in read_all (NewStreamDecoder (map Data [[7, 9] @ msg_packet m, msg_packet m @ [3]]))
      = [msg_frame m, msg_frame m]"
  using read_all_recovers_frames [of "[[7, 9] @ p, p @ [3]]"
      "[([7, 9], \<lparr>m_sys = 1, m_comp = 1, m_seq = 5, m_id = 0, m_payload = [1, 2]\<rparr>),
        ([], \<lparr>m_sys = 1, m_comp = 1, m_seq = 5, m_id = 0, m_payload = [1, 2]\<rparr>)]" "[3]" for p]
  by (simp add: Let_def MagicV2_def msg_ok_def)

text \<open>What the framer does not recover: a stray magic byte followed by a length byte that
  announces more than the line still carries makes the framer report end of file, although a
  complete and valid packet follows the stray byte and is left unread.\<close>

theorem stray_magic_hides_last_packet:
  assumes "msg_ok m" and "length (m_payload m) < 253"
  shows "ReadSingleFrame [Data (MagicV2 # 255 # msg_packet m)] = Some (Inl EOF) \<and>
    scan (msg_packet m) = Some (msg_frame m, [])"
proof
  show "scan (msg_packet m) = Some (msg_frame m, [])"
    using assms(1) scan_packet [of "m_payload m" "m_id m" "m_sys m" "m_comp m" "m_seq m" "[]"]
    by (simp add: msg_ok_def msg_packet_def msg_frame_def)
  have "scan (MagicV2 # 255 # msg_packet m) = None"
    using assms(2) by (simp add: msg_packet_def)
  then show "ReadSingleFrame [Data (MagicV2 # 255 # msg_packet m)] = Some (Inl EOF)"
    using NextFrame_scan [of "NewStreamDecoder [Data (MagicV2 # 255 # msg_packet m)]"]
    by (simp add: ReadSingleFrame_def NewStreamDecoder_def pending_def)
qed

theorem stray_magic_hides_last_packet_witness:
  "ReadSingleFrame [Data (MagicV2 # 255 # msg_packet
      \<lparr>m_sys = 1, m_comp = 1, m_seq = 5, m_id = 0, m_payload = [0, 0, 0, 0, 2, 3, 128, 4, 3]\<rparr>)] = Some (Inl EOF)"
  by (rule stray_magic_hides_last_packet [THEN conjunct1]) (simp_all add: msg_ok_def)

end
