(* ===== verification/Bench_Check.thy ===== *)
theory Bench_Check
  imports Vehicle Mavlink_Stream
begin

text \<open>
  \<^verbatim>\<open>cmd/bench-check/main.go\<close>: the bench checker's ingestion goroutine and its counters. The
  periodic terminal display and the flags are not modelled. Attitude angles are
  computed in \<^verbatim>\<open>float32\<close>; such values are held exactly by the type of 64-bit floats, and
  \<open>fl32\<close> rounds to them.
\<close>

section \<open>Single precision\<close>





section \<open>Model\<close>

record BenchMetrics =
  bk_packetsTotal :: u64
  bk_crcErrors :: u64
  bk_autopilot :: string
  bk_armed :: bool
  bk_systemStatus :: string
  bk_rollDeg :: f64
  bk_pitchDeg :: f64
  bk_yawDeg :: f64
  bk_lat :: f64
  bk_lon :: f64
  bk_altM :: f64
  bk_speedMps :: f64
  bk_batteryV :: f64
  bk_batteryPct :: i8
  bk_lastPacket :: int

definition NewBenchMetrics :: BenchMetrics where
  "NewBenchMetrics =
     \<lparr>bk_packetsTotal = 0, bk_crcErrors = 0, bk_autopilot = '''', bk_armed = False, bk_systemStatus = '''',
      bk_rollDeg = 0, bk_pitchDeg = 0, bk_yawDeg = 0, bk_lat = 0, bk_lon = 0, bk_altM = 0, bk_speedMps = 0,
      bk_batteryV = 0, bk_batteryPct = 0, bk_lastPacket = 0\<rparr>"






text \<open>A message that does not decode is ignored.\<close>

definition if_decoded :: "BenchMetrics \<Rightarrow> 'm go \<Rightarrow> (BenchMetrics \<Rightarrow> 'm \<Rightarrow> BenchMetrics) \<Rightarrow> BenchMetrics" where
  "if_decoded m d k = (case d of Some (Inr msg) \<Rightarrow> k m msg | _ \<Rightarrow> m)"




text \<open>Where the packets come from: a serial port if one is named, else UDP, on 14550 by default. The result
  is the label shown and the opened source; an error ends the program with its text.\<close>

definition open_source ::
  "(string \<Rightarrow> int \<Rightarrow> string + 'r) \<Rightarrow> (string \<Rightarrow> string + 'a) \<Rightarrow> ('a \<Rightarrow> string + 'r) \<Rightarrow> string \<Rightarrow> int \<Rightarrow> string
     \<Rightarrow> string + (string \<times> 'r)" where
  "open_source open_serial resolve listen serialPort baud udpAddr =
     (let udpAddr = (if serialPort = '''' \<and> udpAddr = '''' then '':14550'' else udpAddr)
      in if serialPort \<noteq> ''''
         then (case open_serial serialPort baud of
                 Inl err \<Rightarrow> Inl (''[BENCH-CHECK] Failed to open serial port: '' @ err)
               | Inr sp \<Rightarrow> Inr (''SERIAL '' @ serialPort @ '' @ '' @ fmt_d baud @ '' baud'', sp))
         else (case resolve udpAddr of
                 Inl err \<Rightarrow> Inl (''[BENCH-CHECK] Resolving UDP address '' @ udpAddr @ '': '' @ err)
               | Inr addr \<Rightarrow>
                   (case listen addr of
                      Inl err \<Rightarrow> Inl (''[BENCH-CHECK] Binding UDP socket '' @ udpAddr @ '': '' @ err)
                    | Inr conn \<Rightarrow> Inr (''UDP '' @ udpAddr, conn))))"

text \<open>The counters at the end of a session.\<close>

definition bench_summary :: "BenchMetrics \<Rightarrow> string" where
  "bench_summary m =
     ''  Total Packets: '' @ fmt_d (uint (bk_packetsTotal m)) @ '' | CRC Drops: '' @ fmt_d (uint (bk_crcErrors m))"

section \<open>Counting\<close>

lemma if_decoded_cases:
  obtains "if_decoded m d k = m" | msg where "if_decoded m d k = k m msg"
  by (cases d rule: go_cases) (simp_all add: if_decoded_def go_simps)

lemma if_decoded_counts [simp]:
  assumes "\<And>msg. bk_packetsTotal (k m msg) = bk_packetsTotal m" and "\<And>msg. bk_crcErrors (k m msg) = bk_crcErrors m"
  shows "bk_packetsTotal (if_decoded m d k) = bk_packetsTotal m" and "bk_crcErrors (if_decoded m d k) = bk_crcErrors m"
  by (cases rule: if_decoded_cases [of m d k]; simp add: assms)+



section \<open>Properties\<close>


end
