(* ===== verification/Autopilot.thy ===== *)
theory Autopilot
  imports Vehicle Mavlink_Stream
begin

text \<open>
  \<^verbatim>\<open>pkg/mavlink/udp.go\<close> and \<^verbatim>\<open>stream_client.go\<close>: the two transports to a flight
  controller behind the interface \<^verbatim>\<open>AutopilotClient\<close>. What the interface promises of commands
  is the locale \<open>autopilot_client\<close>, interpreted on both. A transport is a wire that takes writes,
  each with an outcome the environment scripts; the UDP read loop consumes what the socket delivers,
  the stream read loop runs the framer. Callbacks are modelled by the envelopes they are given.
\<close>

section \<open>Model\<close>

text \<open>A wire records the writes that succeeded. A write that fails may have sent part of its bytes, which the
  client does not learn; they are not recorded.\<close>

record wire =
  w_results :: "string option list"
  w_sent :: "(string \<times> bytes) list"

definition write_wire :: "wire \<Rightarrow> string \<Rightarrow> bytes \<Rightarrow> wire \<times> string option" where
  "write_wire w addr pkt =
     (case w_results w of
        Some err # rs \<Rightarrow> (w\<lparr>w_results := rs\<rparr>, Some err)
      | None # rs \<Rightarrow> (w\<lparr>w_results := rs, w_sent := w_sent w @ [(addr, pkt)]\<rparr>, None)
      | [] \<Rightarrow> (w\<lparr>w_sent := w_sent w @ [(addr, pkt)]\<rparr>, None))"

record UDPClient =
  uc_conn :: wire
  uc_remoteAddr :: "string option"
  uc_vehicleState :: VehicleState
  uc_callback :: bool
  uc_cancelled :: bool
  uc_seq :: byte

record StreamClient =
  sc_rwc :: "wire option"
  sc_decoder :: StreamDecoder
  sc_vehicleState :: VehicleState
  sc_callback :: bool
  sc_cancelled :: bool
  sc_seq :: byte

text \<open>\<open>resolve\<close> and \<open>listen\<close> are the functions of \<^verbatim>\<open>net\<close>.\<close>

definition NewUDPClient ::
  "(string \<Rightarrow> string + 'a) \<Rightarrow> ('a \<Rightarrow> string + wire) \<Rightarrow> string \<Rightarrow> VehicleState \<Rightarrow> bool \<Rightarrow> UDPClient go" where
  "NewUDPClient resolve listen listenAddr vState cb =
     (case resolve listenAddr of
        Inl err \<Rightarrow> fail (''resolving udp listen addr '' @ listenAddr @ '': '' @ err)
      | Inr addr \<Rightarrow>
          (case listen addr of
             Inl err \<Rightarrow> fail (''listening on udp '' @ listenAddr @ '': '' @ err)
           | Inr conn \<Rightarrow>
               ok \<lparr>uc_conn = conn, uc_remoteAddr = None, uc_vehicleState = vState, uc_callback = cb,
                   uc_cancelled = False, uc_seq = 0\<rparr>))"

definition NewStreamClient :: "wire option \<Rightarrow> ioevent list \<Rightarrow> VehicleState \<Rightarrow> bool \<Rightarrow> StreamClient" where
  "NewStreamClient rwc src vState cb =
     \<lparr>sc_rwc = rwc, sc_decoder = NewStreamDecoder src, sc_vehicleState = vState, sc_callback = cb,
      sc_cancelled = False, sc_seq = 0\<rparr>"

definition Close_udp :: "UDPClient \<Rightarrow> UDPClient" where
  "Close_udp u = u\<lparr>uc_cancelled := True\<rparr>"

definition Close_stream :: "StreamClient \<Rightarrow> StreamClient" where
  "Close_stream s = s\<lparr>sc_cancelled := True\<rparr>"

text \<open>One pass of the UDP read loop on what \<^verbatim>\<open>ReadFromUDP\<close> returns (at most 2048 bytes), and
  the loop until the client is closed or the socket has nothing more.\<close>

datatype udp_read = Datagram bytes string | Timeout | ReadError string

definition udp_receive :: "int \<Rightarrow> UDPClient \<Rightarrow> udp_read \<Rightarrow> UDPClient option" where
  "udp_receive now u r =
     (case r of
        Timeout \<Rightarrow> Some u
      | ReadError err \<Rightarrow> Some u
      | Datagram buf remoteAddr \<Rightarrow>
          (let u = u\<lparr>uc_remoteAddr := Some remoteAddr\<rparr>
           in (case DecodeFrame buf of
                 None \<Rightarrow> None
               | Some (Inl err) \<Rightarrow> Some u
               | Some (Inr frame) \<Rightarrow>
                   Some (u\<lparr>uc_vehicleState := fst (IngestFrame now (uc_vehicleState u) frame)\<rparr>))))"

fun udp_readLoop :: "UDPClient \<Rightarrow> (int \<times> udp_read) list \<Rightarrow> UDPClient option" where
  "udp_readLoop u [] = Some u"
| "udp_readLoop u ((now, r) # rs) =
     (if uc_cancelled u then Some u
      else case udp_receive now u r of None \<Rightarrow> None | Some u \<Rightarrow> udp_readLoop u rs)"

definition stream_ingest :: "(nat \<Rightarrow> int) \<Rightarrow> nat \<Rightarrow> VehicleState \<Rightarrow> Frame \<Rightarrow> VehicleState" where
  "stream_ingest clock k v frame = fst (IngestFrame (clock k) v frame)"

definition stream_readLoop :: "(nat \<Rightarrow> int) \<Rightarrow> StreamClient \<Rightarrow> StreamClient option" where
  "stream_readLoop clock s =
     (if sc_cancelled s then Some s
      else case pump (stream_ingest clock) id 0 (sc_decoder s) (sc_vehicleState s) of
             None \<Rightarrow> None
           | Some (d, v) \<Rightarrow> Some (s\<lparr>sc_decoder := d, sc_vehicleState := v\<rparr>))"

text \<open>One tick of \<^verbatim>\<open>publishLoop\<close>: the envelope the callback is given, if any.\<close>

definition publish_tick ::
  "golib \<Rightarrow> int \<Rightarrow> int \<Rightarrow> bool \<Rightarrow> VehicleState \<Rightarrow> (VehicleState \<times> SecurityEnvelope option) option" where
  "publish_tick L now1 now2 callback v =
     (if callback
      then (case BuildSecurityEnvelope L now1 now2 v of
              (v, None) \<Rightarrow> None
            | (v, Some (Inl err)) \<Rightarrow> Some (v, None)
            | (v, Some (Inr env)) \<Rightarrow> Some (v, Some env))
      else Some (v, None))"

text \<open>The loop of \<^verbatim>\<open>publishLoop\<close> on the clock readings of its ticks while no frame arrives, and its
  interval in nanoseconds: the envelopes the callback is given.\<close>

definition publish_interval :: "int \<Rightarrow> int" where
  "publish_interval interval = (if interval \<le> 0 then 10 ^ 9 else interval)"

fun publishLoop ::
  "golib \<Rightarrow> bool \<Rightarrow> VehicleState \<Rightarrow> (int \<times> int) list \<Rightarrow> (VehicleState \<times> SecurityEnvelope list) option" where
  "publishLoop L callback v [] = Some (v, [])"
| "publishLoop L callback v ((now1, now2) # ts) =
     (case publish_tick L now1 now2 callback v of
        None \<Rightarrow> None
      | Some (v, e) \<Rightarrow>
          (case publishLoop L callback v ts of
             None \<Rightarrow> None
           | Some (v, es) \<Rightarrow> Some (v, (case e of None \<Rightarrow> [] | Some env \<Rightarrow> [env]) @ es)))"

text \<open>The seven parameters of a command, as IEEE bit patterns; \<open>1.0\<close> is \<open>0x3F800000\<close>.\<close>

type_synonym params = "float32 \<times> float32 \<times> float32 \<times> float32 \<times> float32 \<times> float32 \<times> float32"

fun command_long :: "u16 \<Rightarrow> params \<Rightarrow> CommandLong" where
  "command_long cmd (p1, p2, p3, p4, p5, p6, p7) =
     \<lparr>cl_Param1 = p1, cl_Param2 = p2, cl_Param3 = p3, cl_Param4 = p4, cl_Param5 = p5, cl_Param6 = p6,
      cl_Param7 = p7, cl_Command = cmd, cl_TargetSystem = 1, cl_TargetComponent = 1, cl_Confirmation = 0\<rparr>"

definition command_packet :: "u16 \<Rightarrow> params \<Rightarrow> byte \<Rightarrow> bytes go" where
  "command_packet cmd ps seq = EncodeFrame 255 190 seq MsgIDCommandLong (EncodeCommandLong (command_long cmd ps))"

definition SendCommandLong_udp :: "UDPClient \<Rightarrow> u16 \<Rightarrow> params \<Rightarrow> UDPClient \<times> string option" where
  "SendCommandLong_udp u cmd ps =
     (let rAddr = uc_remoteAddr u; u = u\<lparr>uc_seq := uc_seq u + 1\<rparr>
      in (case rAddr of
            None \<Rightarrow>
              (u, Some ''cannot send command: no remote autopilot packet received yet to determine target address'')
          | Some addr \<Rightarrow>
              (case command_packet cmd ps (uc_seq u) of
                 Some (Inr pkt) \<Rightarrow>
                   (case write_wire (uc_conn u) addr pkt of
                      (w, Some err) \<Rightarrow> (u\<lparr>uc_conn := w\<rparr>, Some (''writing udp command: '' @ err))
                    | (w, None) \<Rightarrow> (u\<lparr>uc_conn := w\<rparr>, None))
               | Some (Inl err) \<Rightarrow> (u, Some (''encoding command frame: '' @ err))
               | None \<Rightarrow> (u, Some ''panic''))))"

definition SendCommandLong_stream :: "StreamClient \<Rightarrow> u16 \<Rightarrow> params \<Rightarrow> StreamClient \<times> string option" where
  "SendCommandLong_stream s cmd ps =
     (let s = s\<lparr>sc_seq := sc_seq s + 1\<rparr>
      in (case command_packet cmd ps (sc_seq s) of
            Some (Inr pkt) \<Rightarrow>
              (case sc_rwc s of
                 None \<Rightarrow> (s, Some ''stream closed'')
               | Some rwc \<Rightarrow>
                   (case write_wire rwc '''' pkt of
                      (w, Some err) \<Rightarrow> (s\<lparr>sc_rwc := Some w\<rparr>, Some (''writing command to stream: '' @ err))
                    | (w, None) \<Rightarrow> (s\<lparr>sc_rwc := Some w\<rparr>, None)))
          | Some (Inl err) \<Rightarrow> (s, Some (''encoding command frame: '' @ err))
          | None \<Rightarrow> (s, Some ''panic'')))"

text \<open>The requests of the interface, over either transport.\<close>

definition no_params :: params where
  "no_params = (0, 0, 0, 0, 0, 0, 0)"

definition ReturnToLaunch :: "('c \<Rightarrow> u16 \<Rightarrow> params \<Rightarrow> 'c \<times> string option) \<Rightarrow> 'c \<Rightarrow> 'c \<times> string option" where
  "ReturnToLaunch send c = send c MavCmdNavReturnToLaunch no_params"

definition SetArmed :: "('c \<Rightarrow> u16 \<Rightarrow> params \<Rightarrow> 'c \<times> string option) \<Rightarrow> 'c \<Rightarrow> bool \<Rightarrow> 'c \<times> string option" where
  "SetArmed send c arm =
     (let v = (if arm then 0x3F800000 else 0)
      in send c MavCmdComponentArmDisarm (v, 0, 0, 0, 0, 0, 0))"

section \<open>The interface\<close>

definition command_bytes :: "u16 \<Rightarrow> params \<Rightarrow> byte \<Rightarrow> bytes" where
  "command_bytes cmd ps seq = packet 255 190 seq MsgIDCommandLong (EncodeCommandLong (command_long cmd ps))"

lemma length_EncodeCommandLong [simp]: "length (EncodeCommandLong c) = 33"
  by (simp add: EncodeCommandLong_def)

lemma command_packet_ok: "command_packet cmd ps seq = ok (command_bytes cmd ps seq)"
  by (simp add: command_packet_def command_bytes_def EncodeFrame_packet)

text \<open>The packets a series of commands puts on the wire: each takes the next sequence number, also the
  ones that fail.\<close>

fun command_log :: "byte \<Rightarrow> (u16 \<times> params) list \<Rightarrow> string option list \<Rightarrow> bytes list" where
  "command_log seq ((cmd, ps) # cs) (r # rs) =
     (if r = None then [command_bytes cmd ps (seq + 1)] else []) @ command_log (seq + 1) cs rs"
| "command_log seq _ _ = []"

locale autopilot_client =
  fixes send :: "'c \<Rightarrow> u16 \<Rightarrow> params \<Rightarrow> 'c \<times> string option"
    and written :: "'c \<Rightarrow> bytes list" and seq :: "'c \<Rightarrow> byte"
  assumes send_seq: "send c cmd ps = (c', r) \<Longrightarrow> seq c' = seq c + 1"
    and send_ok: "send c cmd ps = (c', None) \<Longrightarrow> written c' = written c @ [command_bytes cmd ps (seq c + 1)]"
    and send_fail: "send c cmd ps = (c', Some e) \<Longrightarrow> written c' = written c"
begin

fun send_all :: "'c \<Rightarrow> (u16 \<times> params) list \<Rightarrow> 'c \<times> string option list" where
  "send_all c [] = (c, [])"
| "send_all c ((cmd, ps) # cs) =
     (let (c, r) = send c cmd ps; (c, rs) = send_all c cs in (c, r # rs))"

lemma send_all_written:
  "send_all c cs = (c', rs) \<Longrightarrow>
     written c' = written c @ command_log (seq c) cs rs \<and> seq c' = seq c + of_nat (length cs) \<and> length rs = length cs"
proof (induction cs arbitrary: c c' rs)
  case (Cons x cs)
  obtain cmd ps where x: "x = (cmd, ps)" by (metis surj_pair)
  obtain c1 r where s: "send c cmd ps = (c1, r)" by fastforce
  obtain c2 rs2 where a: "send_all c1 cs = (c2, rs2)" by fastforce
  with Cons.prems x s have e: "c' = c2" "rs = r # rs2" by simp_all
  have "written c1 = written c @ (if r = None then [command_bytes cmd ps (seq c + 1)] else [])"
    using send_ok send_fail s by (cases r) auto
  with Cons.IH [OF a] send_seq [OF s] show ?case by (simp add: e x)
qed simp

end

definition udp_written :: "UDPClient \<Rightarrow> bytes list" where
  "udp_written u = map snd (w_sent (uc_conn u))"

definition stream_written :: "StreamClient \<Rightarrow> bytes list" where
  "stream_written s = (case sc_rwc s of None \<Rightarrow> [] | Some w \<Rightarrow> map snd (w_sent w))"

lemma write_wire_cases:
  obtains (sent) w' where "write_wire w addr p = (w', None)" "w_sent w' = w_sent w @ [(addr, p)]"
  | (failed) w' e where "write_wire w addr p = (w', Some e)" "w_sent w' = w_sent w"
  by (cases "w_results w"; cases "hd (w_results w)") (auto simp: write_wire_def)

interpretation udp: autopilot_client SendCommandLong_udp udp_written uc_seq
proof
  fix u cmd ps u' r
  assume "SendCommandLong_udp u cmd ps = (u', r)"
  then show "uc_seq u' = uc_seq u + 1"
    by (auto simp: SendCommandLong_udp_def Let_def split: option.splits sum.splits prod.splits)
next
  fix u cmd ps u'
  assume s: "SendCommandLong_udp u cmd ps = (u', None)"
  then obtain a where "uc_remoteAddr u = Some a" by (auto simp: SendCommandLong_udp_def Let_def split: option.splits)
  with s show "udp_written u' = udp_written u @ [command_bytes cmd ps (uc_seq u + 1)]"
    by (cases rule: write_wire_cases [of "uc_conn u" a "command_bytes cmd ps (uc_seq u + 1)"])
      (auto simp: SendCommandLong_udp_def Let_def udp_written_def command_packet_ok ok_def)
next
  fix u cmd ps u' e
  assume s: "SendCommandLong_udp u cmd ps = (u', Some e)"
  show "udp_written u' = udp_written u"
  proof (cases "uc_remoteAddr u")
    case None
    with s show ?thesis by (auto simp: SendCommandLong_udp_def Let_def udp_written_def)
  next
    case (Some a)
    with s show ?thesis
      by (cases rule: write_wire_cases [of "uc_conn u" a "command_bytes cmd ps (uc_seq u + 1)"])
        (auto simp: SendCommandLong_udp_def Let_def udp_written_def command_packet_ok ok_def)
  qed
qed

interpretation stream: autopilot_client SendCommandLong_stream stream_written sc_seq
proof
  fix s cmd ps s' r
  assume "SendCommandLong_stream s cmd ps = (s', r)"
  then show "sc_seq s' = sc_seq s + 1"
    by (auto simp: SendCommandLong_stream_def Let_def split: option.splits sum.splits prod.splits)
next
  fix s cmd ps s'
  assume s: "SendCommandLong_stream s cmd ps = (s', None)"
  then obtain w where "sc_rwc s = Some w"
    by (auto simp: SendCommandLong_stream_def Let_def command_packet_ok ok_def split: option.splits)
  with s show "stream_written s' = stream_written s @ [command_bytes cmd ps (sc_seq s + 1)]"
    by (cases rule: write_wire_cases [of w "''''" "command_bytes cmd ps (sc_seq s + 1)"])
      (auto simp: SendCommandLong_stream_def Let_def stream_written_def command_packet_ok ok_def)
next
  fix s cmd ps s' e
  assume s: "SendCommandLong_stream s cmd ps = (s', Some e)"
  show "stream_written s' = stream_written s"
  proof (cases "sc_rwc s")
    case None
    with s show ?thesis by (auto simp: SendCommandLong_stream_def Let_def stream_written_def command_packet_ok ok_def)
  next
    case (Some w)
    with s show ?thesis
      by (cases rule: write_wire_cases [of w "''''" "command_bytes cmd ps (sc_seq s + 1)"])
        (auto simp: SendCommandLong_stream_def Let_def stream_written_def command_packet_ok ok_def)
  qed
qed

lemma command_log_sent:
  "p \<in> set (command_log n cs rs) \<Longrightarrow> \<exists>cmd ps n. (cmd, ps) \<in> set cs \<and> p = command_bytes cmd ps n"
proof (induction n cs rs rule: command_log.induct)
  case (1 seq cmd ps cs r rs)
  from "1.prems" consider "p = command_bytes cmd ps (seq + 1)" | "p \<in> set (command_log (seq + 1) cs rs)"
    by (auto split: if_splits)
  then show ?case
    by cases (use "1.IH" in \<open>metis list.set_intros\<close>)+
qed simp_all

section \<open>Reading\<close>

lemma apply_frames_ingest:
  "apply_frames (stream_ingest clock) k v fs = ingest_all v (zip (map clock [k..<k + length fs]) fs)"
proof (induction fs arbitrary: k v)
  case (Cons f fs)
  have "[k..<k + length (f # fs)] = k # [k + 1..<k + 1 + length fs]" by (simp add: upt_rec)
  with Cons show ?case by (simp add: stream_ingest_def)
qed simp

lemma udp_readLoop_frames:
  assumes "\<not> uc_cancelled u" and "\<forall>m \<in> set ms. msg_ok m" and "length ts = length ms"
  shows "\<exists>u'. udp_readLoop u (zip ts (map (\<lambda>m. Datagram (msg_packet m) addr) ms)) = Some u' \<and>
    uc_vehicleState u' = ingest_all (uc_vehicleState u) (zip ts (map msg_frame ms))"
  using assms
proof (induction ms arbitrary: u ts)
  case (Cons m ms)
  obtain t ts' where ts: "ts = t # ts'" "length ts' = length ms" using Cons.prems(3) by (cases ts) auto
  have d: "DecodeFrame (msg_packet m) = ok (msg_frame m)"
    using DecodeFrame_packet [of "m_payload m" "m_id m" "m_sys m" "m_comp m" "m_seq m" "[]"] Cons.prems(2)
    by (simp add: msg_packet_def msg_frame_def msg_ok_def)
  define u1 where "u1 = u\<lparr>uc_remoteAddr := Some addr, uc_vehicleState := fst (IngestFrame t (uc_vehicleState u) (msg_frame m))\<rparr>"
  have s: "udp_receive t u (Datagram (msg_packet m) addr) = Some u1"
    by (simp add: udp_receive_def d u1_def ok_def Let_def)
  have "\<not> uc_cancelled u1" using Cons.prems(1) by (simp add: u1_def)
  from Cons.IH [OF this _ ts(2)] Cons.prems(1,2) show ?case
    by (simp add: ts s) (simp add: u1_def)
qed simp

section \<open>Properties\<close>

text \<open>C25. Commands on the wire: over either transport a series of commands puts exactly one packet on
  the wire for each command that is reported sent, none for one that is reported failed, in order, and
  takes one sequence number (mod 256) per command; equal sequence counters and outcomes give equal
  bytes on both transports; and every packet decodes to the \<^verbatim>\<open>COMMAND_LONG\<close> of one of the
  commands, from system 255, component 190.\<close>

theorem commands_on_the_wire:
  assumes "udp.send_all u cs = (u', rs)" and "stream.send_all s cs = (s', rs')"
  shows "udp_written u' = udp_written u @ command_log (uc_seq u) cs rs \<and>
    stream_written s' = stream_written s @ command_log (sc_seq s) cs rs' \<and>
    uc_seq u' = uc_seq u + of_nat (length cs) \<and> sc_seq s' = sc_seq s + of_nat (length cs) \<and>
    length rs = length cs \<and> length rs' = length cs \<and>
    (\<forall>p \<in> set (command_log (uc_seq u) cs rs) \<union> set (command_log (sc_seq s) cs rs').
       \<exists>cmd ps n. (cmd, ps) \<in> set cs \<and>
         DecodeFrame p = ok (frame_of 255 190 n MsgIDCommandLong (EncodeCommandLong (command_long cmd ps))))"
proof -
  have d: "DecodeFrame (command_bytes cmd ps n) =
      ok (frame_of 255 190 n MsgIDCommandLong (EncodeCommandLong (command_long cmd ps)))" for cmd ps n
    using DecodeFrame_packet [of "EncodeCommandLong (command_long cmd ps)" MsgIDCommandLong 255 190 n "[]"]
    by (simp add: command_bytes_def msg_id_defs)
  show ?thesis
    using udp.send_all_written [OF assms(1)] stream.send_all_written [OF assms(2)] command_log_sent d by blast
qed

definition sample_udp :: "string option \<Rightarrow> UDPClient" where
  "sample_udp addr =
     \<lparr>uc_conn = \<lparr>w_results = [], w_sent = []\<rparr>, uc_remoteAddr = addr,
      uc_vehicleState = NewVehicleState ''alpha'' '''' '''' '''' 1, uc_callback = True, uc_cancelled = False, uc_seq = 255\<rparr>"

theorem commands_on_the_wire_witness:
  "\<exists>u' rs s' rs'. udp.send_all (sample_udp (Some ''a'')) [(20, no_params)] = (u', rs) \<and>
     stream.send_all (NewStreamClient (Some \<lparr>w_results = [], w_sent = []\<rparr>) [] (NewVehicleState ''alpha'' '''' '''' '''' 1) True\<lparr>sc_seq := 255\<rparr>)
       [(20, no_params)] = (s', rs') \<and>
     udp_written u' = [command_bytes 20 no_params 0] \<and> stream_written s' = [command_bytes 20 no_params 0] \<and> uc_seq u' = 0"
proof -
  let ?s = "NewStreamClient (Some \<lparr>w_results = [], w_sent = []\<rparr>) [] (NewVehicleState ''alpha'' '''' '''' '''' 1) True\<lparr>sc_seq := 255\<rparr>"
  obtain u' where u: "udp.send_all (sample_udp (Some ''a'')) [(20, no_params)] = (u', [None])"
    by (simp add: SendCommandLong_udp_def sample_udp_def command_packet_ok ok_def write_wire_def Let_def)
  obtain s' where s: "stream.send_all ?s [(20, no_params)] = (s', [None])"
    by (simp add: SendCommandLong_stream_def NewStreamClient_def command_packet_ok ok_def write_wire_def Let_def)
  have wrap: "(256 :: byte) = 0" by (simp add: word_eq_iff_unsigned)
  from commands_on_the_wire [OF u s] u s show ?thesis
    by (auto simp: wrap sample_udp_def NewStreamClient_def udp_written_def [of "sample_udp _"] udp_written_def [of "\<lparr>uc_conn = _, uc_remoteAddr = _, uc_vehicleState = _, uc_callback = _, uc_cancelled = _, uc_seq = _\<rparr>"]
        stream_written_def [of "\<lparr>sc_rwc = _, sc_decoder = _, sc_vehicleState = _, sc_callback = _, sc_cancelled = _, sc_seq = _\<rparr>"])
qed

text \<open>C14. The two transports are interchangeable: the stream client, reading a line without read errors whose
  noise holds no magic byte (\<^verbatim>\<open>0xFD\<close>), however it is cut into reads, and the UDP client, given one datagram per packet, both return from their loop
  with the vehicle state that ingesting the encoded frames in order, at the same clock readings,
  gives.\<close>

theorem transports_agree:
  assumes "concat chunks = line ms tail"
    and "\<forall>(noise, m) \<in> set ms. MagicV2 \<notin> set noise \<and> msg_ok m" and "MagicV2 \<notin> set tail"
    and "\<not> uc_cancelled u"
  shows "\<exists>s' u'. stream_readLoop clock (NewStreamClient rwc (map Data chunks) (uc_vehicleState u) cb) = Some s' \<and>
    udp_readLoop u (zip (map clock [0..<length ms]) (map (\<lambda>x. Datagram (msg_packet (snd x)) addr) ms)) = Some u' \<and>
    sc_vehicleState s' = uc_vehicleState u' \<and>
    uc_vehicleState u' = ingest_all (uc_vehicleState u) (zip (map clock [0..<length ms]) (map (msg_frame \<circ> snd) ms))"
proof -
  have r: "read_all (NewStreamDecoder (map Data chunks)) = map (msg_frame \<circ> snd) ms"
    using assms(1-3) by (intro read_all_line) (simp_all add: NewStreamDecoder_def pending_def)
  have "no_fail (sd_src (NewStreamDecoder (map Data chunks)))" by (simp add: NewStreamDecoder_def)
  from pump_reliable [OF this, of "stream_ingest clock" id 0 "uc_vehicleState u"] obtain d where
    "pump (stream_ingest clock) id 0 (NewStreamDecoder (map Data chunks)) (uc_vehicleState u) =
       Some (d, ingest_all (uc_vehicleState u) (zip (map clock [0..<length ms]) (map (msg_frame \<circ> snd) ms)))"
    unfolding r apply_frames_ingest by auto
  moreover have "\<forall>m \<in> set (map snd ms). msg_ok m" using assms(2) by auto
  from udp_readLoop_frames [OF assms(4) this, of "map clock [0..<length ms]" addr] obtain u' where
    "udp_readLoop u (zip (map clock [0..<length ms]) (map (\<lambda>x. Datagram (msg_packet (snd x)) addr) ms)) = Some u' \<and>
     uc_vehicleState u' = ingest_all (uc_vehicleState u) (zip (map clock [0..<length ms]) (map (msg_frame \<circ> snd) ms))"
    by (auto simp: comp_def case_prod_unfold)
  ultimately show ?thesis by (simp add: stream_readLoop_def NewStreamClient_def)
qed

theorem transports_agree_witness:
  "let m = \<lparr>m_sys = 1, m_comp = 1, m_seq = 5, m_id = 0, m_payload = [0, 0, 0, 0, 2, 12, 0x81, 4, 3]\<rparr>
   in \<exists>s'. stream_readLoop int (NewStreamClient None (map Data [[7], msg_packet m]) (uc_vehicleState (sample_udp None)) True) = Some s' \<and>
     sc_vehicleState s' = ingest_all (uc_vehicleState (sample_udp None)) [(0, msg_frame m)]"
  using transports_agree [of "[[7], p]" "[([7], \<lparr>m_sys = 1, m_comp = 1, m_seq = 5, m_id = 0, m_payload = [0, 0, 0, 0, 2, 12, 0x81, 4, 3]\<rparr>)]"
      "[]" "sample_udp None" int None True "''a''" for p]
  by (auto simp: Let_def MagicV2_def msg_ok_def sample_udp_def)

end
