(* ===== verification/Serial.thy ===== *)
theory Serial
  imports Prelude Go_Text
begin

text \<open>
  \<^verbatim>\<open>pkg/mavlink/serial.go\<close> and its two configurations, \<^verbatim>\<open>serial_linux.go\<close> and
  \<^verbatim>\<open>serial_darwin.go\<close>: opening a serial device and putting its line discipline into raw 8N1
  mode. The \<^verbatim>\<open>ioctl\<close> calls are parameters; the constants of package \<^verbatim>\<open>syscall\<close>
  are a record, given for Linux and for Darwin. Other systems refuse.
\<close>

section \<open>Model\<close>

record 'w termios =
  Iflag :: 'w
  Oflag :: 'w
  Cflag :: 'w
  Lflag :: 'w
  Cc :: bytes
  Ispeed :: 'w
  Ospeed :: 'w

record 'w tty_consts =
  ECHO :: 'w
  ECHONL :: 'w
  ICANON :: 'w
  ISIG :: 'w
  IEXTEN :: 'w
  IGNBRK :: 'w
  BRKINT :: 'w
  PARMRK :: 'w
  ISTRIP :: 'w
  INLCR :: 'w
  IGNCR :: 'w
  ICRNL :: 'w
  IXON :: 'w
  OPOST :: 'w
  CSIZE :: 'w
  PARENB :: 'w
  CSTOPB :: 'w
  CS8 :: 'w
  CREAD :: 'w
  CLOCAL :: 'w
  VMIN :: nat
  VTIME :: nat

definition linux_consts :: "u32 tty_consts" where
  "linux_consts =
     \<lparr>ECHO = 0x8, ECHONL = 0x40, ICANON = 0x2, ISIG = 0x1, IEXTEN = 0x8000, IGNBRK = 0x1, BRKINT = 0x2,
      PARMRK = 0x8, ISTRIP = 0x20, INLCR = 0x40, IGNCR = 0x80, ICRNL = 0x100, IXON = 0x400, OPOST = 0x1,
      CSIZE = 0x30, PARENB = 0x100, CSTOPB = 0x40, CS8 = 0x30, CREAD = 0x80, CLOCAL = 0x800,
      VMIN = 6, VTIME = 5\<rparr>"

definition darwin_consts :: "u64 tty_consts" where
  "darwin_consts =
     \<lparr>ECHO = 0x8, ECHONL = 0x10, ICANON = 0x100, ISIG = 0x80, IEXTEN = 0x400, IGNBRK = 0x1, BRKINT = 0x2,
      PARMRK = 0x8, ISTRIP = 0x20, INLCR = 0x40, IGNCR = 0x80, ICRNL = 0x100, IXON = 0x200, OPOST = 0x1,
      CSIZE = 0x300, PARENB = 0x1000, CSTOPB = 0x400, CS8 = 0x300, CREAD = 0x800, CLOCAL = 0x8000,
      VMIN = 16, VTIME = 17\<rparr>"

text \<open>The flags both systems clear and set; \<open>flow\<close> is the hardware flow control Darwin clears too.\<close>

definition raw_8n1 :: "'w::len word tty_consts \<Rightarrow> 'w word \<Rightarrow> 'w word termios \<Rightarrow> 'w word termios" where
  "raw_8n1 k flow t =
     (let t = t\<lparr>Lflag := Lflag t AND NOT (ECHO k OR ECHONL k OR ICANON k OR ISIG k OR IEXTEN k)\<rparr>;
          t = t\<lparr>Iflag := Iflag t AND NOT (IGNBRK k OR BRKINT k OR PARMRK k OR ISTRIP k OR INLCR k OR IGNCR k OR
                                          ICRNL k OR IXON k)\<rparr>;
          t = t\<lparr>Oflag := Oflag t AND NOT (OPOST k)\<rparr>;
          t = t\<lparr>Cflag := Cflag t AND NOT (CSIZE k OR PARENB k OR CSTOPB k OR flow)\<rparr>;
          t = t\<lparr>Cflag := Cflag t OR (CS8 k OR CREAD k OR CLOCAL k)\<rparr>
      in t\<lparr>Cc := (Cc t)[VMIN k := 1, VTIME k := 0]\<rparr>)"

definition cbaudMask :: u32 where "cbaudMask = 0x100F"

text \<open>The speed codes of Linux; an unknown rate is 115200.\<close>

definition baud_code :: "int \<Rightarrow> u32" where
  "baud_code baud =
     (if baud = 9600 then 0xD else if baud = 19200 then 0xE else if baud = 38400 then 0xF
      else if baud = 57600 then 0x1001 else if baud = 115200 then 0x1002 else if baud = 230400 then 0x1003
      else if baud = 460800 then 0x1004 else if baud = 921600 then 0x1007 else 0x1002)"

text \<open>\<open>name\<close> is the file's name; the result is the error, if any, and what was applied.\<close>

definition configureSerialPort_linux ::
  "(string + u32 termios) \<Rightarrow> (u32 termios \<Rightarrow> string option) \<Rightarrow> string \<Rightarrow> int \<Rightarrow> string + u32 termios" where
  "configureSerialPort_linux tcgets tcsets name baud =
     (case tcgets of
        Inl errno \<Rightarrow> Inl (''ioctl TCGETS on '' @ name @ '': '' @ errno)
      | Inr t \<Rightarrow>
          (let t = raw_8n1 linux_consts 0 t;
               t = t\<lparr>Cflag := (Cflag t AND NOT cbaudMask) OR baud_code baud\<rparr>
           in (case tcsets t of
                 Some errno \<Rightarrow> Inl (''ioctl TCSETS on '' @ name @ '': '' @ errno)
               | None \<Rightarrow> Inr t)))"

text \<open>On Darwin the speed constants are the rates themselves, so the switch over them is the number.\<close>

definition configureSerialPort_darwin ::
  "(string + u64 termios) \<Rightarrow> (u64 termios \<Rightarrow> string option) \<Rightarrow> string \<Rightarrow> int \<Rightarrow> string + u64 termios" where
  "configureSerialPort_darwin tiocgeta tiocseta name baud =
     (case tiocgeta of
        Inl errno \<Rightarrow> Inl (''ioctl TIOCGETA on '' @ name @ '': '' @ errno)
      | Inr t \<Rightarrow>
          (let t = raw_8n1 darwin_consts 0x30000 t; speed = of_int baud;
               t = t\<lparr>Ispeed := speed, Ospeed := speed\<rparr>
           in (case tiocseta t of
                 Some errno \<Rightarrow> Inl (''ioctl TIOCSETA on '' @ name @ '': '' @ errno)
               | None \<Rightarrow> Inr t)))"

definition configureSerialPort_other :: "int \<Rightarrow> string + unit" where
  "configureSerialPort_other baud = Inl ''serial port configuration is not supported on this OS''"

record 'f SerialPort =
  sp_file :: "'f option"
  sp_path :: string
  sp_baud :: int

text \<open>\<open>configure\<close> is the configuration of the system on the opened file; the second result is the files
  closed on the way.\<close>

definition OpenSerialPort ::
  "(string \<Rightarrow> string + 'f) \<Rightarrow> ('f \<Rightarrow> int \<Rightarrow> string + 't) \<Rightarrow> string \<Rightarrow> int \<Rightarrow> 'f SerialPort go \<times> 'f list" where
  "OpenSerialPort openSerialFile configure path baud =
     (if path = '''' then (fail ''serial port path cannot be empty'', [])
      else let baud = (if baud \<le> 0 then 115200 else baud)
           in (case openSerialFile path of
                 Inl err \<Rightarrow> (fail (''opening serial port '' @ path @ '': '' @ err), [])
               | Inr f \<Rightarrow>
                   (case configure f baud of
                      Inl err \<Rightarrow>
                        (fail (''configuring serial port '' @ path @ '' at '' @ fmt_d baud @ '' baud: '' @ err), [f])
                    | Inr _ \<Rightarrow> (ok \<lparr>sp_file = Some f, sp_path = path, sp_baud = baud\<rparr>, []))))"

text \<open>Reading and writing go to the file (a nil file is refused by package \<^verbatim>\<open>os\<close>); closing
  a port with no file is no error.\<close>

definition Read_serial :: "('f \<Rightarrow> string + bytes) \<Rightarrow> 'f SerialPort \<Rightarrow> string + bytes" where
  "Read_serial read p = (case sp_file p of None \<Rightarrow> Inl ''invalid argument'' | Some f \<Rightarrow> read f)"

definition Write_serial :: "('f \<Rightarrow> bytes \<Rightarrow> string + int) \<Rightarrow> 'f SerialPort \<Rightarrow> bytes \<Rightarrow> string + int" where
  "Write_serial write p b = (case sp_file p of None \<Rightarrow> Inl ''invalid argument'' | Some f \<Rightarrow> write f b)"

definition Close_serial :: "('f \<Rightarrow> string option) \<Rightarrow> 'f SerialPort \<Rightarrow> string option" where
  "Close_serial close p = (case sp_file p of None \<Rightarrow> None | Some f \<Rightarrow> close f)"

definition Path :: "'f SerialPort \<Rightarrow> string" where
  "Path p = sp_path p"

definition Baud :: "'f SerialPort \<Rightarrow> int" where
  "Baud p = sp_baud p"

section \<open>Flags\<close>

lemma clear_mask: "(x AND NOT m) AND m = (0 :: 'w::len word)"
  by (simp add: and.assoc)

lemma or_and: "(x OR y) AND m = (x AND m) OR (y AND (m :: 'w::len word))"
  by (simp add: bit.conj_disj_distrib2)

lemmas flag_simps = or_and and.assoc clear_mask

lemma baud_code_in_mask: "baud_code baud AND cbaudMask = baud_code baud" "baud_code baud AND 0x970 = 0"
  by (simp_all add: baud_code_def cbaudMask_def)

section \<open>Properties\<close>

text \<open>C40. A configured Linux port is raw 8N1: no echo, canonical or signal processing, no input or
  output translation, 8 data bits, no parity, one stop bit, receiver on, modem lines ignored, reads
  returning with the first byte, and the speed bits hold exactly the code of the requested rate, or of
  115200 when the rate is not one of the eight known ones, although the port then still reports the
  rate that was asked for.\<close>

theorem linux_port_raw_8n1:
  assumes "configureSerialPort_linux (Inr t) tcsets name baud = Inr t'" and "length (Cc t) = 32"
  shows "Lflag t' AND 0x804B = 0 \<and> Iflag t' AND 0x5EB = 0 \<and> Oflag t' AND 1 = 0 \<and>
    Cflag t' AND 0x170 = 0x30 \<and> Cflag t' AND 0x880 = 0x880 \<and> Cflag t' AND cbaudMask = baud_code baud \<and>
    Cc t' ! 6 = 1 \<and> Cc t' ! 5 = 0 \<and>
    (\<forall>path dev. path \<noteq> '''' \<and> 0 < baud \<longrightarrow>
       OpenSerialPort (\<lambda>_. Inr dev) (\<lambda>_. configureSerialPort_linux (Inr t) tcsets name) path baud =
         (ok \<lparr>sp_file = Some dev, sp_path = path, sp_baud = baud\<rparr>, []))"
proof -
  have t': "t' = (let t = raw_8n1 linux_consts 0 t in t\<lparr>Cflag := (Cflag t AND NOT cbaudMask) OR baud_code baud\<rparr>)"
    using assms(1) by (auto simp: configureSerialPort_linux_def Let_def split: option.splits)
  have l: "Lflag t' = Lflag t AND NOT 0x804B" and i: "Iflag t' = Iflag t AND NOT 0x5EB" and o: "Oflag t' = Oflag t AND NOT 1"
    and c: "Cflag t' = (((Cflag t AND NOT 0x170) OR 0x8B0) AND NOT cbaudMask) OR baud_code baud"
    and cc: "Cc t' = (Cc t)[6 := 1, 5 := 0]"
    by (simp_all add: t' raw_8n1_def linux_consts_def Let_def)
  have m: "Cflag t' AND m = (Cflag t AND (NOT 0x170 AND (NOT cbaudMask AND m))) OR (0x8B0 AND (NOT cbaudMask AND m)) OR
      (baud_code baud AND m)" for m
    by (simp only: c or_and and.assoc or.assoc)
  have "Cflag t' AND 0x170 = 0x30" "Cflag t' AND 0x880 = 0x880" "Cflag t' AND cbaudMask = baud_code baud"
    unfolding m by (auto simp: baud_code_def cbaudMask_def)
  moreover have "Lflag t' AND 0x804B = 0" "Iflag t' AND 0x5EB = 0" "Oflag t' AND 1 = 0"
    unfolding l i o by (rule clear_mask)+
  ultimately show ?thesis
    using assms by (simp add: cc OpenSerialPort_def)
qed

theorem linux_port_raw_8n1_witness:
  "\<exists>t'. configureSerialPort_linux
       (Inr \<lparr>Iflag = 0x500, Oflag = 5, Cflag = 0xBF, Lflag = 0x8A3B, Cc = replicate 32 0, Ispeed = 0, Ospeed = 0\<rparr>)
       (\<lambda>_. None) ''tty'' 250000 = Inr t' \<and> Cflag t' AND cbaudMask = 0x1002"
proof -
  obtain t' where t': "configureSerialPort_linux
       (Inr \<lparr>Iflag = 0x500, Oflag = 5, Cflag = 0xBF, Lflag = 0x8A3B, Cc = replicate 32 0, Ispeed = 0, Ospeed = 0\<rparr>)
       (\<lambda>_. None) ''tty'' 250000 = Inr t'" by (simp add: configureSerialPort_linux_def Let_def)
  have "Cflag t' AND cbaudMask = baud_code 250000" using linux_port_raw_8n1 [OF t'] by force
  with t' show ?thesis by (auto simp: baud_code_def)
qed

end
