(* ===== verification/Edge_Agent.thy ===== *)
theory Edge_Agent
  imports Autopilot Serial Bus
begin

text \<open>
  \<^verbatim>\<open>cmd/edge-agent/main.go\<close>: the simulated vehicle (its physics step, the operator's commands,
  the loop that publishes its telemetry) and the relay of operator commands to a MAVLink autopilot. The
  methods of the vehicle hold its lock throughout, so ticks and commands are atomic steps. The
  trigonometric functions of \<^verbatim>\<open>math\<close> are a parameter; where a lemma needs their documented ranges
  they are the hypothesis \<open>trig_ok\<close>. Products and sums are rounded separately, as on
  platforms whose compiler does not fuse them.
\<close>

section \<open>Vehicle simulation\<close>

record trig =
  mSin :: "f64 \<Rightarrow> f64"
  mCos :: "f64 \<Rightarrow> f64"
  mAtan2 :: "f64 \<Rightarrow> f64 \<Rightarrow> f64"

record VehicleSim =
  sim_id :: string
  sim_vehicleType :: string
  sim_team :: string
  sim_state :: string
  batteryPct :: f64
  centerLat :: f64
  centerLon :: f64
  baseLat :: f64
  baseLon :: f64
  currentLat :: f64
  currentLon :: f64
  currentAlt :: f64
  cruiseAlt :: f64
  speedMps :: f64
  cruiseSpeed :: f64
  headingDeg :: f64
  flightAngle :: f64
  orbitRadius :: f64
  sim_sequence :: u64
  originNode :: string
  ewActive :: bool

definition edge_roundFloat :: "f64 \<Rightarrow> nat \<Rightarrow> f64" where
  "edge_roundFloat v decimals = (let pow = Pow10 decimals in Round (v * pow) / pow)"

text \<open>The speed of a vehicle configured with none, and the charge every vehicle starts with.\<close>

definition default_speed :: f64 where "default_speed = lit (145 / 10)"

definition full_battery :: f64 where "full_battery = lit (985 / 10)"

definition NewVehicleSim ::
  "trig \<Rightarrow> string \<Rightarrow> string \<Rightarrow> string \<Rightarrow> f64 \<Rightarrow> f64 \<Rightarrow> f64 \<Rightarrow> f64 \<Rightarrow> f64 \<Rightarrow> VehicleSim" where
  "NewVehicleSim M unitID vType team lat lon alt radius speed =
     (let alt = (if alt \<le> 0 then lit 120 else alt);
          radius = (if radius \<le> 0 then lit (8 / 1000) else radius);
          speed = (if speed \<le> 0 then default_speed else speed);
          startLat = edge_roundFloat (lat + radius * mSin M 0) 6;
          startLon = edge_roundFloat (lon + radius * mCos M 0) 6
      in \<lparr>sim_id = unitID, sim_vehicleType = vType, sim_team = team, sim_state = ''AIRBORNE'',
          batteryPct = full_battery, centerLat = lat, centerLon = lon, baseLat = lat, baseLon = lon,
          currentLat = startLat, currentLon = startLon, currentAlt = alt, cruiseAlt = alt,
          speedMps = speed, cruiseSpeed = speed, headingDeg = lit 90, flightAngle = 0,
          orbitRadius = radius, sim_sequence = 0,
          originNode = ''edge-node-'' @ team @ ''-'' @ unitID, ewActive = False\<rparr>)"

definition SetBase :: "f64 \<Rightarrow> f64 \<Rightarrow> VehicleSim \<Rightarrow> VehicleSim" where
  "SetBase lat lon v = v\<lparr>baseLat := lat, baseLon := lon\<rparr>"

text \<open>Pieces the branches of \<^verbatim>\<open>Step\<close> share: the battery's drain per second, the compass heading
  of a bearing, and the report. \<open>m_per_deg\<close> is the code's scale of a degree.\<close>

definition m_per_deg :: f64 where "m_per_deg = lit 111139"

definition drain :: "rat \<Rightarrow> f64 \<Rightarrow> VehicleSim \<Rightarrow> VehicleSim" where
  "drain rate dt v = v\<lparr>batteryPct := edge_roundFloat (Max (lit 5) (batteryPct v - lit rate * dt)) 1\<rparr>"

definition compass :: "f64 \<Rightarrow> f64" where
  "compass bearingRad = edge_roundFloat (Mod (bearingRad * lit 180 / Pi + lit 360) (lit 360)) 1"

definition report ::
  "VehicleSim \<Rightarrow> string \<Rightarrow> Coordinates \<Rightarrow> Velocity \<Rightarrow> (string \<times> json) list option \<Rightarrow> TelemetryPayload" where
  "report v state coords vel payload =
     \<lparr>VehicleID = sim_id v, VehicleType = sim_vehicleType v, Team = sim_team v, State = state,
      BatteryPct = batteryPct v, Coords = coords, Vel = vel, HeadingDeg = headingDeg v,
      MissionPayload = payload, Sequence = sim_sequence v\<rparr>"

definition recon_payload :: "VehicleSim \<Rightarrow> (string \<times> json) list option" where
  "recon_payload v = Some [(''payload_mode'', JStr ''TACTICAL_RECON''), (''target_tracking'', JBool True),
                           (''ew_emitter_active'', JBool (ewActive v)), (''sensor_temp_c'', JNum (lit (385 / 10)))]"

definition still :: Velocity where
  "still = \<lparr>VX = 0, VY = 0, VZ = 0, SpeedMps = 0\<rparr>"

text \<open>Climb and acceleration towards the cruise values; the second result is the vertical speed.\<close>

definition climb :: "f64 \<Rightarrow> VehicleSim \<Rightarrow> VehicleSim \<times> f64" where
  "climb dt v =
     (let targetAlt = (if cruiseAlt v \<le> 0 then lit 100 else cruiseAlt v); climbRate = lit 10
      in if currentAlt v < targetAlt
         then (v\<lparr>currentAlt := edge_roundFloat (Min targetAlt (currentAlt v + climbRate * dt)) 1\<rparr>, climbRate)
         else (v, 0))"

definition accelerate :: "f64 \<Rightarrow> VehicleSim \<Rightarrow> VehicleSim" where
  "accelerate dt v =
     (let targetSpeed = (if cruiseSpeed v \<le> 0 then default_speed else cruiseSpeed v)
      in if speedMps v < targetSpeed
         then v\<lparr>speedMps := edge_roundFloat (Min targetSpeed (speedMps v + lit 4 * dt)) 2\<rparr>
         else v)"

text \<open>A move of \<open>stepDeg\<close> degrees along a bearing, or onto the target when it is that near.\<close>

definition advance :: "trig \<Rightarrow> f64 \<Rightarrow> f64 \<Rightarrow> f64 \<Rightarrow> f64 \<Rightarrow> f64 \<Rightarrow> VehicleSim \<Rightarrow> VehicleSim" where
  "advance M stepDeg distDeg bearingRad lat lon v =
     (if distDeg \<le> stepDeg then v\<lparr>currentLat := lat, currentLon := lon\<rparr>
      else v\<lparr>currentLat := edge_roundFloat (currentLat v + stepDeg * mCos M bearingRad) 6,
             currentLon := edge_roundFloat (currentLon v + stepDeg * mSin M bearingRad) 6\<rparr>)"

text \<open>Off the orbit: glide towards the entry point.\<close>

definition step_transit ::
  "trig \<Rightarrow> f64 \<Rightarrow> f64 \<Rightarrow> f64 \<Rightarrow> f64 \<Rightarrow> f64 \<Rightarrow> f64 \<Rightarrow> f64 \<Rightarrow> VehicleSim \<Rightarrow> VehicleSim \<times> TelemetryPayload" where
  "step_transit M dt angleFromCenter targetLat targetLon dLatToTarget dLonToTarget distToTargetDeg v =
     (let bearingRad = mAtan2 M dLonToTarget dLatToTarget;
          v = v\<lparr>headingDeg := compass bearingRad\<rparr>;
          (v, vz) = climb dt v;
          v = accelerate dt v;
          stepDeg = (speedMps v * dt) / m_per_deg;
          v = advance M stepDeg distToTargetDeg bearingRad targetLat targetLon v;
          v = (if distToTargetDeg \<le> stepDeg then v\<lparr>flightAngle := angleFromCenter\<rparr> else v);
          v = drain (4 / 100) dt v;
          vx = edge_roundFloat (speedMps v * mSin M bearingRad) 2;
          vy = edge_roundFloat (speedMps v * mCos M bearingRad) 2;
          effectiveState = (if currentAlt v < lit 20 then ''TAKEOFF'' else ''TRANSIT'')
      in (v, report v effectiveState
               \<lparr>Latitude = currentLat v, Longitude = currentLon v, AltitudeM = edge_roundFloat (currentAlt v) 1\<rparr>
               \<lparr>VX = vx, VY = vy, VZ = edge_roundFloat vz 2, SpeedMps = edge_roundFloat (speedMps v) 2\<rparr>
               (recon_payload v)))"

definition turn :: f64 where "turn = lit 2 * Pi"

definition step_orbit :: "trig \<Rightarrow> f64 \<Rightarrow> f64 \<Rightarrow> VehicleSim \<Rightarrow> VehicleSim \<times> TelemetryPayload" where
  "step_orbit M dt angleFromCenter v =
     (let orbitRadiusM = orbitRadius v * m_per_deg;
          angularSpeed = (if 0 < orbitRadiusM \<and> 0 < speedMps v then speedMps v / orbitRadiusM else lit (8 / 100));
          angle = angleFromCenter + angularSpeed * dt;
          angle = (if turn < angle then Mod angle turn else angle);
          angle = (if angle < 0 then angle + turn else angle);
          v = v\<lparr>flightAngle := angle,
                currentLat := edge_roundFloat (centerLat v + orbitRadius v * mSin M angle) 6,
                currentLon := edge_roundFloat (centerLon v + orbitRadius v * mCos M angle) 6\<rparr>;
          tangentRad = mAtan2 M (- mSin M angle) (mCos M angle);
          v = v\<lparr>headingDeg := compass tangentRad\<rparr>;
          v = drain (4 / 100) dt v;
          alt = edge_roundFloat (currentAlt v + lit 5 * mSin M (angle * lit 2)) 2;
          vx = edge_roundFloat (speedMps v * mSin M tangentRad) 2;
          vy = edge_roundFloat (speedMps v * mCos M tangentRad) 2
      in (v, report v (sim_state v)
               \<lparr>Latitude = currentLat v, Longitude = currentLon v, AltitudeM = alt\<rparr>
               \<lparr>VX = vx, VY = vy, VZ = 0, SpeedMps = edge_roundFloat (speedMps v) 2\<rparr>
               (recon_payload v)))"

definition step_patrol :: "trig \<Rightarrow> f64 \<Rightarrow> VehicleSim \<Rightarrow> VehicleSim \<times> TelemetryPayload" where
  "step_patrol M dt v =
     (let dLatCenter = currentLat v - centerLat v; dLonCenter = currentLon v - centerLon v;
          angleFromCenter = mAtan2 M dLatCenter dLonCenter;
          targetLat = edge_roundFloat (centerLat v + orbitRadius v * mSin M angleFromCenter) 6;
          targetLon = edge_roundFloat (centerLon v + orbitRadius v * mCos M angleFromCenter) 6;
          dLatToTarget = targetLat - currentLat v; dLonToTarget = targetLon - currentLon v;
          distToTargetDeg = Sqrt (dLatToTarget * dLatToTarget + dLonToTarget * dLonToTarget);
          distToTargetM = distToTargetDeg * m_per_deg
      in if Max (lit 8) (speedMps v * dt) < distToTargetM
         then step_transit M dt angleFromCenter targetLat targetLon dLatToTarget dLonToTarget distToTargetDeg v
         else step_orbit M dt angleFromCenter v)"

definition step_hover :: "f64 \<Rightarrow> VehicleSim \<Rightarrow> VehicleSim \<times> TelemetryPayload" where
  "step_hover dt v =
     (let v = drain (2 / 100) dt v
      in (v, report v ''HOVER''
               \<lparr>Latitude = currentLat v, Longitude = currentLon v, AltitudeM = edge_roundFloat (currentAlt v) 1\<rparr>
               still None))"

definition step_return ::
  "trig \<Rightarrow> f64 \<Rightarrow> f64 \<Rightarrow> f64 \<Rightarrow> f64 \<Rightarrow> f64 \<Rightarrow> VehicleSim \<Rightarrow> VehicleSim \<times> TelemetryPayload" where
  "step_return M dt dLat dLon distDeg distM v =
     (let bearingRad = mAtan2 M dLon dLat;
          v = v\<lparr>headingDeg := compass bearingRad\<rparr>;
          stepDeg = (speedMps v * dt) / m_per_deg;
          v = advance M stepDeg distDeg bearingRad (baseLat v) (baseLon v) v;
          v = (if distM < lit 200 \<and> lit 15 < currentAlt v
               then v\<lparr>currentAlt := Max (lit 15) (currentAlt v - lit 6 * dt)\<rparr> else v);
          vx = edge_roundFloat (speedMps v * mSin M bearingRad) 2;
          vy = edge_roundFloat (speedMps v * mCos M bearingRad) 2
      in (v, report v ''RTB''
               \<lparr>Latitude = currentLat v, Longitude = currentLon v, AltitudeM = edge_roundFloat (currentAlt v) 1\<rparr>
               \<lparr>VX = vx, VY = vy, VZ = lit (- 1), SpeedMps = edge_roundFloat (speedMps v) 1\<rparr>
               None))"

definition step_touchdown :: "f64 \<Rightarrow> VehicleSim \<Rightarrow> VehicleSim \<times> TelemetryPayload" where
  "step_touchdown dt v =
     (let v = v\<lparr>speedMps := 0, currentAlt := Max 0 (currentAlt v - lit 10 * dt)\<rparr>;
          v = (if currentAlt v \<le> lit 5
               then v\<lparr>sim_state := ''LANDED'', currentAlt := 0, currentLat := baseLat v, currentLon := baseLon v\<rparr>
               else v)
      in (v, report v (sim_state v)
               \<lparr>Latitude = baseLat v, Longitude = baseLon v, AltitudeM = edge_roundFloat (currentAlt v) 1\<rparr>
               \<lparr>VX = 0, VY = 0, VZ = lit (- 2), SpeedMps = 0\<rparr>
               None))"

definition step_rtb :: "trig \<Rightarrow> f64 \<Rightarrow> VehicleSim \<Rightarrow> VehicleSim \<times> TelemetryPayload" where
  "step_rtb M dt v =
     (let dLat = baseLat v - currentLat v; dLon = baseLon v - currentLon v;
          distDeg = Sqrt (dLat * dLat + dLon * dLon);
          distM = distDeg * m_per_deg;
          v = drain (3 / 100) dt v
      in if lit 10 < distM then step_return M dt dLat dLon distDeg distM v else step_touchdown dt v)"

definition step_landed :: "VehicleSim \<Rightarrow> VehicleSim \<times> TelemetryPayload" where
  "step_landed v =
     (let v = v\<lparr>currentAlt := 0, speedMps := 0\<rparr>
      in (v, report v ''LANDED'' \<lparr>Latitude = currentLat v, Longitude = currentLon v, AltitudeM = 0\<rparr> still None))"

definition step_other :: "VehicleSim \<Rightarrow> VehicleSim \<times> TelemetryPayload" where
  "step_other v =
     (v, (report v (sim_state v) \<lparr>Latitude = currentLat v, Longitude = currentLon v, AltitudeM = 0\<rparr> still None)
           \<lparr>BatteryPct := Round (batteryPct v * lit 10) / lit 10, HeadingDeg := 0\<rparr>)"

definition Step :: "trig \<Rightarrow> f64 \<Rightarrow> VehicleSim \<Rightarrow> VehicleSim \<times> TelemetryPayload" where
  "Step M dt v =
     (let v = v\<lparr>sim_sequence := sim_sequence v + 1\<rparr>
      in if sim_state v = ''AIRBORNE'' \<or> sim_state v = ''PATROL'' then step_patrol M dt v
         else if sim_state v = ''HOVER'' then step_hover dt v
         else if sim_state v = ''RTB'' then step_rtb M dt v
         else if sim_state v = ''LANDED'' then step_landed v
         else step_other v)"

section \<open>Commands\<close>

text \<open>The addressing test of \<^verbatim>\<open>HandleCommand\<close>: what remains of a name without team prefixes.\<close>

definition stripped :: "golib \<Rightarrow> string \<Rightarrow> string" where
  "stripped L s = TrimPrefix (TrimPrefix (ToLower L s) ''blue-'') ''red-''"

definition obeys :: "golib \<Rightarrow> VehicleSim \<Rightarrow> string \<Rightarrow> bool" where
  "obeys L v target \<longleftrightarrow>
     (if target \<noteq> '''' \<and> \<not> EqualFold L target (sim_id v) then stripped L target = stripped L (sim_id v) else True)"

definition execute :: "string \<Rightarrow> VehicleSim \<Rightarrow> VehicleSim" where
  "execute command v =
     (if command = ''RETURN_TO_BASE'' then v\<lparr>sim_state := ''RTB'', speedMps := default_speed\<rparr>
      else if command = ''HOVER'' then v\<lparr>sim_state := ''HOVER'', speedMps := 0\<rparr>
      else if command = ''PATROL''
      then (let v = v\<lparr>sim_state := ''PATROL''\<rparr>;
                v = (if cruiseSpeed v \<le> 0 then v\<lparr>cruiseSpeed := default_speed\<rparr> else v)
            in if currentAlt v \<le> lit 5 \<or> speedMps v \<le> 0 then v\<lparr>speedMps := 0\<rparr>
               else v\<lparr>speedMps := cruiseSpeed v\<rparr>)
      else if command = ''ARM''
      then (if sim_state v = ''LANDED''
            then v\<lparr>sim_state := ''AIRBORNE'', currentAlt := lit 100, speedMps := default_speed\<rparr> else v)
      else if command = ''DISARM'' then v\<lparr>sim_state := ''LANDED'', currentAlt := 0, speedMps := 0\<rparr>
      else if command = ''TOGGLE_EW'' then v\<lparr>ewActive := \<not> ewActive v\<rparr>
      else v)"

definition HandleCommand :: "golib \<Rightarrow> CommandPayload \<Rightarrow> VehicleSim \<Rightarrow> VehicleSim" where
  "HandleCommand L cmd v = (if obeys L v (TargetVehicle cmd) then execute (CommandType cmd) v else v)"

section \<open>Instances\<close>

text \<open>The handler a simulated vehicle subscribes on its command topic.\<close>

definition sim_cmdTopic :: "golib \<Rightarrow> VehicleSim \<Rightarrow> string" where
  "sim_cmdTopic L v = BuildKey L ''tier2'' (sim_vehicleType v) (sim_team v) (sim_id v) ''command''"

definition on_command ::
  "(string \<Rightarrow> string + SecurityEnvelope) \<Rightarrow> golib \<Rightarrow> string \<Rightarrow> VehicleSim \<Rightarrow> string \<Rightarrow> string \<Rightarrow> VehicleSim" where
  "on_command unmarshal L cmdTopic v key payload =
     (if \<not> MatchesSelector cmdTopic key then v
      else (case ParseJSONEnvelope unmarshal payload of
              Inl err \<Rightarrow> v
            | Inr env \<Rightarrow> (case Command env of None \<Rightarrow> v | Some cmd \<Rightarrow> HandleCommand L cmd v)))"

text \<open>The tick interval in nanoseconds. The language defines the conversion to an integer, which drops the
  fraction, only for values in range; outside it the result is the machine's, \<open>conv\<close>. A ticker panics,
  which is \<open>None\<close>, unless its interval is positive.\<close>

definition truncated :: "rat \<Rightarrow> int" where
  "truncated x = (if x < 0 then - \<lfloor>- x\<rfloor> else \<lfloor>x\<rfloor>)"

definition tick_interval :: "(f64 \<Rightarrow> int) \<Rightarrow> f64 \<Rightarrow> int option" where
  "tick_interval conv rateHz =
     (let x = lit (10 ^ 9) / rateHz;
          interval = (if finite64 x \<and> - (2 ^ 63) \<le> val x \<and> val x < 2 ^ 63 then truncated (val x) else conv x)
      in if 0 < interval then Some interval else None)"

definition Seconds :: "int \<Rightarrow> f64" where
  "Seconds ns = of_int64 (ns div 10 ^ 9) + of_int64 (ns mod 10 ^ 9) / lit (10 ^ 9)"

text \<open>One tick of the publishing loop; the counter is the number of the tick. \<open>None\<close> is a panic.\<close>

definition drone_tick ::
  "('b \<Rightarrow> string \<Rightarrow> string \<Rightarrow> 'b \<times> string option) \<Rightarrow> golib \<Rightarrow> trig \<Rightarrow> int \<Rightarrow> int \<Rightarrow> bool \<Rightarrow> f64
     \<Rightarrow> int \<times> VehicleSim \<times> 'b \<Rightarrow> (int \<times> VehicleSim \<times> 'b) option" where
  "drone_tick pub L M now1 now2 emitTier3Periodic dt s =
     (case s of
        (n, v, b) \<Rightarrow>
          (let n = n + 1;
               (v, telem) = Step M dt v;
               tier = (if emitTier3Periodic \<and> n mod 15 = 0 then Tier3Critical else Tier2Restricted);
               pubKey = (if tier = Tier3Critical
                         then BuildKey L ''tier3'' (sim_vehicleType v) (sim_team v) (sim_id v) ''telemetry''
                         else BuildKey L ''tier2'' (sim_vehicleType v) (sim_team v) (sim_id v) ''telemetry'')
           in (case NewTelemetryEnvelope L now1 now2 tier (originNode v) telem [] of
                 None \<Rightarrow> None
               | Some (Inl err) \<Rightarrow> Some (n, v, b)
               | Some (Inr env) \<Rightarrow>
                   (case Marshal (json_envelope env) of
                      None \<Rightarrow> None
                    | Some (Inl err) \<Rightarrow> Some (n, v, b)
                    | Some (Inr data) \<Rightarrow> Some (n, v, fst (pub b pubKey data))))))"

text \<open>A vehicle's loop: its ticks and the messages its subscription delivers, in the order they take the
  vehicle's lock. The instance sets up the ticker, then loops with the counter at zero. \<open>None\<close> is a
  panic, of the ticker or in a tick.\<close>

datatype drone_event = Tick int int | Message string string

fun drone_loop ::
  "('b \<Rightarrow> string \<Rightarrow> string \<Rightarrow> 'b \<times> string option) \<Rightarrow> (string \<Rightarrow> string + SecurityEnvelope) \<Rightarrow> golib \<Rightarrow> trig
     \<Rightarrow> bool \<Rightarrow> f64 \<Rightarrow> int \<times> VehicleSim \<times> 'b \<Rightarrow> drone_event list \<Rightarrow> (int \<times> VehicleSim \<times> 'b) option" where
  "drone_loop pub unmarshal L M emit dt s [] = Some s"
| "drone_loop pub unmarshal L M emit dt s (Tick now1 now2 # es) =
     (case drone_tick pub L M now1 now2 emit dt s of
        None \<Rightarrow> None
      | Some s \<Rightarrow> drone_loop pub unmarshal L M emit dt s es)"
| "drone_loop pub unmarshal L M emit dt (n, v, b) (Message key payload # es) =
     drone_loop pub unmarshal L M emit dt (n, on_command unmarshal L (sim_cmdTopic L v) v key payload, b) es"

definition runDroneInstance ::
  "('b \<Rightarrow> string \<Rightarrow> string \<Rightarrow> 'b \<times> string option) \<Rightarrow> (string \<Rightarrow> string + SecurityEnvelope) \<Rightarrow> golib \<Rightarrow> trig
     \<Rightarrow> (f64 \<Rightarrow> int) \<Rightarrow> f64 \<Rightarrow> bool \<Rightarrow> VehicleSim \<Rightarrow> 'b \<Rightarrow> drone_event list \<Rightarrow> (int \<times> VehicleSim \<times> 'b) option" where
  "runDroneInstance pub unmarshal L M conv rateHz emitTier3Periodic sim b events =
     (case tick_interval conv rateHz of
        None \<Rightarrow> None
      | Some interval \<Rightarrow>
          drone_loop pub unmarshal L M emitTier3Periodic (Seconds interval) (0, sim, b) events)"

text \<open>The relay to an autopilot: each command of the operator becomes a request to the client, whose
  transport is \<open>send\<close>. \<open>4.0\<close> and \<open>3.0\<close> are \<open>0x40800000\<close> and \<open>0x40400000\<close>.\<close>

definition relay_command :: "('k \<Rightarrow> u16 \<Rightarrow> params \<Rightarrow> 'k \<times> string option) \<Rightarrow> string \<Rightarrow> 'k \<Rightarrow> 'k" where
  "relay_command send command c =
     (if command = ''RETURN_TO_BASE'' then fst (ReturnToLaunch send c)
      else if command = ''ARM'' then fst (SetArmed send c True)
      else if command = ''DISARM'' then fst (SetArmed send c False)
      else if command = ''HOVER''
      then fst (send c MavCmdDoSetMode (0x40800000, 0x40400000, 0, 0, 0, 0, 0))
      else c)"

definition on_relay ::
  "('k \<Rightarrow> u16 \<Rightarrow> params \<Rightarrow> 'k \<times> string option) \<Rightarrow> (string \<Rightarrow> string + SecurityEnvelope) \<Rightarrow> string \<Rightarrow> 'k
     \<Rightarrow> string \<Rightarrow> string \<Rightarrow> 'k" where
  "on_relay send unmarshal cmdTopic c key payload =
     (if \<not> MatchesSelector cmdTopic key then c
      else (case ParseJSONEnvelope unmarshal payload of
              Inl err \<Rightarrow> c
            | Inr env \<Rightarrow> (case Command env of None \<Rightarrow> c | Some cmd \<Rightarrow> relay_command send (CommandType cmd) c)))"

text \<open>The telemetry callback of a bridged autopilot.\<close>

definition telemCb ::
  "('b \<Rightarrow> string \<Rightarrow> string \<Rightarrow> 'b \<times> string option) \<Rightarrow> string \<Rightarrow> 'b \<Rightarrow> SecurityEnvelope \<Rightarrow> 'b option" where
  "telemCb pub telemTopic b env =
     (case Marshal (json_envelope env) of
        None \<Rightarrow> None
      | Some (Inl err) \<Rightarrow> Some b
      | Some (Inr data) \<Rightarrow> Some (fst (pub b telemTopic data)))"

text \<open>What a bridge sets up before it starts its client: the serial device, of which \<open>dev\<close> is what is
  written to and what arrives, or else the UDP socket. On an error it gives up.\<close>

datatype autopilot = ViaSerial StreamClient | ViaUDP UDPClient

definition connect_autopilot ::
  "(string \<Rightarrow> string + wire \<times> ioevent list) \<Rightarrow> (wire \<times> ioevent list \<Rightarrow> int \<Rightarrow> string + 't)
     \<Rightarrow> (string \<Rightarrow> string + 'a) \<Rightarrow> ('a \<Rightarrow> string + wire)
     \<Rightarrow> string \<Rightarrow> string \<Rightarrow> string \<Rightarrow> string \<Rightarrow> string \<Rightarrow> int \<Rightarrow> autopilot go" where
  "connect_autopilot openSerialFile configure resolve listen unitID team vType udpAddr serialPort baud =
     (let vState = NewVehicleState unitID team vType Tier2Restricted 1
      in if serialPort \<noteq> ''''
         then try_go (fst (OpenSerialPort openSerialFile configure serialPort baud)) (\<lambda>err. err)
                (\<lambda>sp. ok (ViaSerial (NewStreamClient (map_option fst (sp_file sp))
                                      (case sp_file sp of None \<Rightarrow> [] | Some dev \<Rightarrow> snd dev) vState True)))
         else try_go (NewUDPClient resolve listen udpAddr vState True) (\<lambda>err. err) (\<lambda>udp. ok (ViaUDP udp)))"

section \<open>Swarm\<close>

definition blueCallsigns :: "string list" where
  "blueCallsigns = [''alpha'', ''bravo'', ''charlie'', ''delta'', ''echo'', ''foxtrot'', ''golf'']"

definition at_step :: "rat \<Rightarrow> int \<Rightarrow> rat \<Rightarrow> f64" where
  "at_step start i step = lit start + of_int64 i * lit step"

definition blue_callsign :: "nat \<Rightarrow> string" where
  "blue_callsign i =
     (if i < length blueCallsigns then ''blue-'' @ blueCallsigns ! i else ''blue-'' @ fmt_nat (i + 1))"

definition blue_sim :: "trig \<Rightarrow> nat \<Rightarrow> VehicleSim" where
  "blue_sim M i =
     (let n = int i;
          lat = at_step (3162 / 100) n (6 / 1000);
          lon = lit (- 808 / 100) - of_int64 n * lit (5 / 1000);
          alt = at_step 100 n 15;
          radius = at_step (6 / 1000) n (2 / 1000);
          speed = at_step 13 n (12 / 10);
          padLat = at_step (31612 / 1000) n (2 / 1000);
          padLon = lit (- 8085 / 1000) - of_int64 n * lit (2 / 1000)
      in SetBase padLat padLon (NewVehicleSim M (blue_callsign i) ''drone'' ''blue'' lat lon alt radius speed))"

definition red_sim :: "trig \<Rightarrow> nat \<Rightarrow> VehicleSim" where
  "red_sim M i =
     (let n = int i;
          callsign = ''red-'' @ fmt_nat (i + 1);
          lat = at_step (31645 / 1000) n (6 / 1000);
          lon = at_step (- 7945 / 1000) n (5 / 1000);
          alt = at_step 110 n 15;
          radius = at_step (7 / 1000) n (2 / 1000);
          speed = at_step 14 n (15 / 10);
          padLat = at_step (31645 / 1000) n (2 / 1000);
          padLon = at_step (- 793 / 100) n (2 / 1000)
      in SetBase padLat padLon (NewVehicleSim M callsign ''drone'' ''red'' lat lon alt radius speed))"

definition swarm :: "trig \<Rightarrow> nat \<Rightarrow> nat \<Rightarrow> VehicleSim list" where
  "swarm M blueCount redCount = map (blue_sim M) [0..<blueCount] @ map (red_sim M) [0..<redCount]"

definition single_sim :: "trig \<Rightarrow> string \<Rightarrow> string \<Rightarrow> string \<Rightarrow> VehicleSim" where
  "single_sim M singleID singleType singleTeam =
     NewVehicleSim M singleID singleType singleTeam (lit (3163 / 100)) (lit (- 805 / 100)) (lit 120)
       (lit (8 / 1000)) (default_speed)"

end
