(* ===== verification/Flight.thy ===== *)
theory Flight
  imports Edge_Agent
begin

text \<open>
  What the simulated vehicle of \<^verbatim>\<open>Edge_Agent\<close> does over any ticks and commands: the ranges of its
  state and reports, its battery, its landing, its addressing, the packets it publishes, and what the relay
  puts on an autopilot's wire.
\<close>

section \<open>Ranges of the simulation\<close>

lemma edge_roundFloat_eq: "edge_roundFloat = roundFloat"
  by (intro ext) (simp add: edge_roundFloat_def roundFloat_def)

lemma le_Fin [simp]: "finite64 x \<Longrightarrow> x \<le> Fin r \<longleftrightarrow> val x \<le> r" "finite64 x \<Longrightarrow> x \<le> 0 \<longleftrightarrow> val x \<le> 0"
  by (cases x; auto simp: less_eq_f64_def lt64_def eq64_def zero_f64_def)+

lemma small_lits [simp]: "lit 2 = Fin 2" "lit 4 = Fin 4" "lit 5 = Fin 5" "lit 6 = Fin 6" "lit 10 = Fin 10" "lit 15 = Fin 15"
  "lit 20 = Fin 20" "lit 120 = Fin 120"
  using lit_int [of 2] lit_int [of 4] lit_int [of 5] lit_int [of 6] lit_int [of 10] lit_int [of 15] lit_int [of 20]
    lit_int [of 120] by simp_all

lemma repr_dyadic: "\<bar>m\<bar> < 2 ^ 53 \<Longrightarrow> k \<le> 1074 \<Longrightarrow> repr (of_int m / 2 ^ k)"
  unfolding repr_def by (intro exI [of _ m] exI [of _ "- int k"]) (simp add: pow2_def)

lemma full_battery_exact: "full_battery = Fin (197 / 2)"
proof -
  have "repr (197 / 2)" using repr_dyadic [of 197 1] by simp
  moreover have "\<bar>197 / 2 :: rat\<bar> \<le> pow2 1023" using big_le by (rule order_trans [rotated]) simp
  ultimately show ?thesis using fl_exact [of "197 / 2"] by (simp add: full_battery_def)
qed

text \<open>A tick of up to \<open>10\<^sup>6\<close> seconds.\<close>

definition tick_ok :: "f64 \<Rightarrow> bool" where
  "tick_ok dt \<longleftrightarrow> sized (10 ^ 6) dt \<and> 0 \<le> val dt"

definition between :: "int \<Rightarrow> int \<Rightarrow> f64 \<Rightarrow> bool" where
  "between A B x \<longleftrightarrow> finite64 x \<and> of_int A \<le> val x \<and> val x \<le> of_int B"

lemma between_sized: "between A B x \<Longrightarrow> 0 \<le> A \<Longrightarrow> sized B x"
proof -
  assume x: "between A B x" and A: "0 \<le> A"
  from A have "(0::rat) \<le> of_int A" by simp
  with x have "0 \<le> val x" unfolding between_def by linarith
  with x show ?thesis by (simp add: between_def sized_def)
qed

lemma travel:
  assumes "tick_ok dt" and "0 \<le> r" "r \<le> of_int R" and "0 \<le> R" "R \<le> 10"
  shows "sized (10 ^ 7) (lit r * dt)" and "0 \<le> val (lit r * dt)"
proof -
  have r: "sized R (lit r)" "val (lit r) = fl_rat r"
    using assms(2-5) by (auto intro!: fl_sized)
  have d: "sized (10 ^ 6) dt" "0 \<le> val dt" using assms(1) by (simp_all add: tick_ok_def)
  have p: "R * 10 ^ 6 < 2 ^ 53" using assms(5) by simp
  have "R * 10 ^ 6 \<le> (10 ^ 7 :: int)" using assms(5) by simp
  then show "sized (10 ^ 7) (lit r * dt)" using sized_mult(1) [OF r(1) d(1) p] sized_mono by blast
  show "0 \<le> val (lit r * dt)" unfolding sized_mult(2) [OF r(1) d(1) p]
    by (intro fl_rat_nonneg mult_nonneg_nonneg d(2)) (simp add: r(2) fl_rat_nonneg assms(2))
qed

lemma descent:
  assumes "between 0 N a" and "N \<le> 10 ^ 6" and "sized (10 ^ 7) p" "0 \<le> val p" and "0 \<le> B" "B \<le> N"
  shows "between B N (Max (Fin (of_int B)) (a - p))"
proof -
  have a: "sized (10 ^ 6) a" using sized_mono [OF between_sized [OF assms(1)] assms(2)] by simp
  note d = sized_diff [OF a assms(3)]
  have "val (a - p) \<le> of_int N"
    unfolding d(2) [simplified] using assms(1,2,4-6) by (intro fl_rat_int_bounds) (auto simp: between_def)
  moreover have "finite64 (a - p)" using d(1) by (simp add: sized_def)
  moreover have "of_int B \<le> (of_int N :: rat)" using assms(6) by simp
  ultimately show ?thesis by (simp add: between_def val_Max)
qed

lemma ramp:
  assumes "between 0 N a" and "between 0 N t" and "N \<le> 10 ^ 6" and "sized (10 ^ 7) p" "0 \<le> val p" and "d \<le> 6"
  shows "between 0 N (edge_roundFloat (Min t (a + p)) d)"
proof -
  have a: "sized (10 ^ 6) a" "sized (10 ^ 6) t"
    using sized_mono [OF between_sized assms(3)] assms(1,2) by simp_all
  note s = sized_add [OF a(1) assms(4)]
  have m: "sized (10 ^ 8) (Min t (a + p))"
    by (rule sized_mono [OF sized_Min [OF a(2) s(1)]]) simp_all
  have N: "0 \<le> N" using sized_nonneg [OF between_sized [OF assms(1)]] by simp
  have f: "finite64 t" "finite64 (a + p)" using a(2) s(1) by (simp_all add: sized_def)
  have "0 \<le> val (a + p)"
    unfolding s(2) [simplified] using assms(1,5) by (intro fl_rat_nonneg) (simp add: between_def)
  then have "0 \<le> val (Min t (a + p))" "val (Min t (a + p)) \<le> of_int N"
    using assms(2) f by (auto simp: val_Min between_def)
  then show ?thesis
    using roundFloat_bounds [OF m assms(6), of 0] roundFloat_bounds [OF m assms(6), of N] roundFloat_sized [OF m assms(6)] N assms(3)
    by (simp add: edge_roundFloat_eq between_def sized_def)
qed

definition flight_states :: "string set" where
  "flight_states = {''AIRBORNE'', ''PATROL'', ''HOVER'', ''RTB'', ''LANDED''}"

definition airworthy :: "int \<Rightarrow> VehicleSim \<Rightarrow> bool" where
  "airworthy N v \<longleftrightarrow>
     sim_state v \<in> flight_states \<and> between 5 99 (batteryPct v) \<and>
     between 0 N (currentAlt v) \<and> between 0 N (speedMps v) \<and> sized N (cruiseAlt v) \<and> sized N (cruiseSpeed v) \<and>
     (sim_state v = ''LANDED'' \<longrightarrow> currentAlt v = 0 \<and> speedMps v = 0)"

lemma airworthy_motion [simp]:
  "airworthy N (v\<lparr>headingDeg := x\<rparr>) = airworthy N v" "airworthy N (v\<lparr>currentLat := x\<rparr>) = airworthy N v"
  "airworthy N (v\<lparr>currentLon := x\<rparr>) = airworthy N v" "airworthy N (v\<lparr>flightAngle := x\<rparr>) = airworthy N v"
  "airworthy N (v\<lparr>sim_sequence := n\<rparr>) = airworthy N v" "airworthy N (v\<lparr>ewActive := e\<rparr>) = airworthy N v"
  "airworthy N (v\<lparr>baseLat := x\<rparr>) = airworthy N v" "airworthy N (v\<lparr>baseLon := x\<rparr>) = airworthy N v"
  by (simp_all add: airworthy_def)

lemma between_drained:
  assumes "between 5 99 b" and "tick_ok dt" and "0 \<le> r" "r \<le> 1"
  shows "between 5 99 (edge_roundFloat (Max (lit 5) (b - lit r * dt)) 1)"
proof -
  have p: "sized (10 ^ 7) (lit r * dt)" "0 \<le> val (lit r * dt)" using travel [OF assms(2,3), of 1] assms(4) by simp_all
  have "between 0 99 b" using assms(1) by (simp add: between_def)
  from descent [OF this _ p, of 5] have d: "between 5 99 (Max (lit 5) (b - lit r * dt))" by simp
  then have "sized 99 (Max (lit 5) (b - lit r * dt))" by (rule between_sized) simp
  from roundFloat_bounds [OF this, of 1 5] roundFloat_bounds [OF this, of 1 99] roundFloat_sized [OF this, of 1] d
  show ?thesis by (simp add: edge_roundFloat_eq between_def sized_def)
qed

lemma airworthy_drain: "airworthy N v \<Longrightarrow> tick_ok dt \<Longrightarrow> 0 \<le> r \<Longrightarrow> r \<le> 1 \<Longrightarrow> airworthy N (drain r dt v)"
  using between_drained [of "batteryPct v" dt r] by (simp add: airworthy_def drain_def del: small_lits)

lemma cruise_target: "sized N x \<Longrightarrow> between 0 N c \<Longrightarrow> between 0 N (if x \<le> 0 then c else x)"
  by (auto simp: between_def sized_def abs_le_iff)

lemma between_lit: "0 \<le> r \<Longrightarrow> r \<le> of_int N \<Longrightarrow> N \<le> 10 ^ 6 \<Longrightarrow> between 0 N (lit r)"
proof -
  assume r: "0 \<le> r" "r \<le> of_int N" and N: "N \<le> 10 ^ 6"
  have "sized N (lit r)" "val (lit r) = fl_rat r" using r N by (auto intro!: fl_sized)
  then show ?thesis using fl_rat_nonneg [OF r(1)] by (auto simp: between_def sized_def)
qed

lemma between_default: "100 \<le> N \<Longrightarrow> N \<le> 10 ^ 6 \<Longrightarrow> between 0 N default_speed"
proof -
  assume N: "100 \<le> N" "N \<le> 10 ^ 6"
  then have "(100 :: rat) \<le> of_int N" by simp
  then have "145 / 10 \<le> (of_int N :: rat)" by linarith
  with N show ?thesis unfolding default_speed_def by (intro between_lit) simp_all
qed

lemma airworthy_climb:
  assumes "airworthy N v" and "sim_state v \<noteq> ''LANDED''" and "tick_ok dt" and "100 \<le> N" "N \<le> 10 ^ 6"
  shows "airworthy N (fst (climb dt v))"
proof -
  have N: "(100::rat) \<le> of_int N" using assms(4) by simp
  have p: "sized (10 ^ 7) (lit 10 * dt)" "0 \<le> val (lit 10 * dt)" using travel [OF assms(3), of 10 10] by simp_all
  have "between 0 N (if cruiseAlt v \<le> 0 then lit 100 else cruiseAlt v)"
    using assms(1,5) N by (intro cruise_target between_lit) (simp_all add: airworthy_def)
  from ramp [OF _ this assms(5) p, of "currentAlt v" 1] assms(1,2) show ?thesis
    by (simp add: climb_def airworthy_def Let_def)
qed

lemma airworthy_accelerate:
  assumes "airworthy N v" and "sim_state v \<noteq> ''LANDED''" and "tick_ok dt" and "100 \<le> N" "N \<le> 10 ^ 6"
  shows "airworthy N (accelerate dt v)"
proof -
  have p: "sized (10 ^ 7) (lit 4 * dt)" "0 \<le> val (lit 4 * dt)" using travel [OF assms(3), of 4 4] by simp_all
  have "between 0 N (if cruiseSpeed v \<le> 0 then default_speed else cruiseSpeed v)"
    using assms(1) by (intro cruise_target between_default assms) (simp add: airworthy_def)
  from ramp [OF _ this assms(5) p, of "speedMps v" 2] assms(1,2) show ?thesis
    by (simp add: accelerate_def airworthy_def Let_def)
qed

lemma between_round: "between 0 N x \<Longrightarrow> N \<le> 10 ^ 6 \<Longrightarrow> d \<le> 6 \<Longrightarrow> between 0 N (edge_roundFloat x d)"
proof -
  assume x: "between 0 N x" and N: "N \<le> 10 ^ 6" and d: "d \<le> 6"
  have s: "sized N x" by (rule between_sized [OF x]) simp
  have "0 \<le> N" by (rule sized_nonneg [OF s])
  with roundFloat_bounds [OF s d, of 0] roundFloat_bounds [OF s d, of N] roundFloat_sized [OF s d] x N
  show ?thesis by (simp add: edge_roundFloat_eq between_def sized_def)
qed

lemma between_0 [simp]: "between 0 N 0 \<longleftrightarrow> 0 \<le> N"
  by (simp add: between_def zero_f64_def)

lemma round_0 [simp]: "d \<le> 22 \<Longrightarrow> edge_roundFloat 0 d = 0"
  using round_with_zero64 [of "dec d" False]
  by (simp add: edge_roundFloat_eq roundFloat_round_with zero64_def zero_f64_def)

text \<open>What a step reports.\<close>

definition report_ok :: "int \<Rightarrow> TelemetryPayload \<Rightarrow> bool" where
  "report_ok N t \<longleftrightarrow>
     State t \<in> flight_states \<union> {''TRANSIT'', ''TAKEOFF''} \<and> between 5 99 (BatteryPct t) \<and>
     between 0 N (SpeedMps (Vel t)) \<and>
     (State t \<notin> {''AIRBORNE'', ''PATROL''} \<longrightarrow> between 0 N (AltitudeM (Coords t))) \<and>
     (State t = ''LANDED'' \<longrightarrow> AltitudeM (Coords t) = 0 \<and> SpeedMps (Vel t) = 0)"

lemma report_simps [simp]:
  "State (report v st c w p) = st" "BatteryPct (report v st c w p) = batteryPct v" "Coords (report v st c w p) = c"
  "Vel (report v st c w p) = w" "VehicleID (report v st c w p) = sim_id v"
  "VehicleType (report v st c w p) = sim_vehicleType v" "Team (report v st c w p) = sim_team v"
  "HeadingDeg (report v st c w p) = headingDeg v" "MissionPayload (report v st c w p) = p"
  "Sequence (report v st c w p) = sim_sequence v"
  by (simp_all add: report_def)

lemma state_kept [simp]:
  "sim_state (drain r dt v) = sim_state v" "sim_state (fst (climb dt v)) = sim_state v"
  "sim_state (accelerate dt v) = sim_state v"
  by (simp_all add: drain_def climb_def accelerate_def Let_def)

lemma state_advance [simp]:
  "sim_state (advance M st dd be x y v) = sim_state v" "airworthy N (advance M st dd be x y v) = airworthy N v"
  by (simp_all add: advance_def)

lemma report_flight:
  assumes "airworthy N v" and "N \<le> 10 ^ 6" and "0 \<le> N" and "d \<le> 6"
    and "st \<in> {''TRANSIT'', ''TAKEOFF'', ''HOVER'', ''RTB''}"
  shows "report_ok N (report v st \<lparr>Latitude = x, Longitude = y, AltitudeM = edge_roundFloat (currentAlt v) 1\<rparr>
    \<lparr>VX = vx, VY = vy, VZ = vz, SpeedMps = edge_roundFloat (speedMps v) d\<rparr> p)"
    and "report_ok N (report v st \<lparr>Latitude = x, Longitude = y, AltitudeM = edge_roundFloat (currentAlt v) 1\<rparr> still p)"
  using assms by (auto simp: report_ok_def airworthy_def between_round still_def flight_states_def)

lemma step_transit_ok:
  assumes "airworthy N v" and "sim_state v = ''AIRBORNE'' \<or> sim_state v = ''PATROL''" and "tick_ok dt"
    and "100 \<le> N" "N \<le> 10 ^ 6"
  shows "airworthy N (fst (step_transit M dt ang tx ty dl dn dd v)) \<and>
    report_ok N (snd (step_transit M dt ang tx ty dl dn dd v))"
proof -
  let ?u = "accelerate dt (fst (climb dt (v\<lparr>headingDeg := compass (mAtan2 M dn dl)\<rparr>)))"
  have "airworthy N ?u" using assms by (intro airworthy_accelerate airworthy_climb) auto
  then have a: "airworthy N (fst (step_transit M dt ang tx ty dl dn dd v))"
    by (simp add: step_transit_def Let_def case_prod_beta airworthy_drain assms(3))
  have "\<exists>x y vx vy vz. snd (step_transit M dt ang tx ty dl dn dd v) =
      (let w = fst (step_transit M dt ang tx ty dl dn dd v)
       in report w (if currentAlt w < lit 20 then ''TAKEOFF'' else ''TRANSIT'')
            \<lparr>Latitude = x, Longitude = y, AltitudeM = edge_roundFloat (currentAlt w) 1\<rparr>
            \<lparr>VX = vx, VY = vy, VZ = vz, SpeedMps = edge_roundFloat (speedMps w) 2\<rparr> (recon_payload w))"
    unfolding step_transit_def Let_def case_prod_beta fst_conv snd_conv by blast
  with report_flight(1) [OF a assms(5)] assms(4) a show ?thesis by (auto simp: Let_def)
qed

text \<open>The altitude an orbiting vehicle reports is not its own but oscillates around it, by up to five metres
  if the sine is between -1 and 1.\<close>

definition orbit_altitude :: "trig \<Rightarrow> int \<Rightarrow> VehicleSim \<Rightarrow> TelemetryPayload \<Rightarrow> bool" where
  "orbit_altitude M N v t \<longleftrightarrow>
     (State t \<in> {''AIRBORNE'', ''PATROL''} \<longrightarrow>
        (\<exists>x. AltitudeM (Coords t) = edge_roundFloat (currentAlt v + lit 5 * mSin M x) 2 \<and>
           (sized 1 (mSin M x) \<longrightarrow> between (- 5) (N + 5) (AltitudeM (Coords t)))))"

lemma wobble_bounds:
  assumes "between 0 N a" and "sized 1 s" and "0 \<le> N" "N \<le> 10 ^ 6"
  shows "between (- 5) (N + 5) (edge_roundFloat (a + lit 5 * s) 2)"
proof -
  have "sized (5 * 1) (lit 5 * s)" by (rule sized_mult(1) [OF _ assms(2)]) (simp_all add: sized_def)
  then have p: "sized 5 (lit 5 * s)" by simp
  have a: "sized N a" by (rule between_sized [OF assms(1)]) simp
  note s = sized_add [OF a p]
  have z: "sized (N + 5) (a + lit 5 * s)" "val (a + lit 5 * s) = fl_rat (val a + val (lit 5 * s))"
    using s assms(4) by simp_all
  have "- 5 \<le> val a + val (lit 5 * s)" "val a + val (lit 5 * s) \<le> of_int (N + 5)"
    using assms(1) p by (simp_all add: between_def sized_def abs_le_iff)
  then have "of_int (- 5) \<le> val (a + lit 5 * s)" "val (a + lit 5 * s) \<le> of_int (N + 5)"
    unfolding z(2) using fl_rat_int_bounds(1) [of "- 5"] fl_rat_int_bounds(2) [of "N + 5"] assms(3,4) by simp_all
  with roundFloat_bounds [OF z(1), of 2 "- 5"] roundFloat_bounds [OF z(1), of 2 "N + 5"] roundFloat_sized [OF z(1), of 2]
  show ?thesis using assms(3,4) by (simp add: edge_roundFloat_eq between_def sized_def)
qed

lemma step_orbit_altitude:
  assumes "airworthy N v" and "0 \<le> N" "N \<le> 10 ^ 6"
  shows "orbit_altitude M N (fst (step_orbit M dt ang v)) (snd (step_orbit M dt ang v))"
proof -
  have "currentAlt (fst (step_orbit M dt ang v)) = currentAlt v" by (simp add: step_orbit_def Let_def drain_def)
  moreover have "\<exists>x. AltitudeM (Coords (snd (step_orbit M dt ang v))) = edge_roundFloat (currentAlt v + lit 5 * mSin M x) 2"
    unfolding step_orbit_def Let_def snd_conv by (auto simp: drain_def)
  moreover have "between 0 N (currentAlt v)" using assms(1) by (simp add: airworthy_def)
  ultimately show ?thesis using wobble_bounds [of N "currentAlt v"] assms(2,3) by (fastforce simp: orbit_altitude_def)
qed

lemma step_orbit_ok:
  assumes "airworthy N v" and "sim_state v = ''AIRBORNE'' \<or> sim_state v = ''PATROL''" and "tick_ok dt" and "N \<le> 10 ^ 6"
  shows "airworthy N (fst (step_orbit M dt ang v)) \<and> report_ok N (snd (step_orbit M dt ang v))"
proof -
  have a: "airworthy N (fst (step_orbit M dt ang v))" using assms(1)
    by (simp add: step_orbit_def Let_def airworthy_drain assms(3))
  have "\<exists>x y z vx vy vz. snd (step_orbit M dt ang v) =
      (let w = fst (step_orbit M dt ang v)
       in report w (sim_state w) \<lparr>Latitude = x, Longitude = y, AltitudeM = z\<rparr>
            \<lparr>VX = vx, VY = vy, VZ = vz, SpeedMps = edge_roundFloat (speedMps w) 2\<rparr> (recon_payload w))"
    unfolding step_orbit_def Let_def fst_conv snd_conv by blast
  moreover have "sim_state (fst (step_orbit M dt ang v)) = sim_state v" by (simp add: step_orbit_def Let_def)
  ultimately show ?thesis using a assms(2,4)
    by (auto simp: Let_def report_ok_def airworthy_def between_round)
qed

lemma step_hover_ok:
  assumes "airworthy N v" and "tick_ok dt" and "0 \<le> N" "N \<le> 10 ^ 6"
  shows "airworthy N (fst (step_hover dt v)) \<and> report_ok N (snd (step_hover dt v))"
  using report_flight(2) [OF airworthy_drain [OF assms(1,2), of "2 / 100"], of 0] assms
  by (simp add: step_hover_def Let_def airworthy_drain)


lemma step_return_ok:
  assumes "airworthy N v" and "sim_state v = ''RTB''" and "tick_ok dt" and "100 \<le> N" "N \<le> 10 ^ 6"
  shows "airworthy N (fst (step_return M dt dl dn dd dm v)) \<and> report_ok N (snd (step_return M dt dl dn dd dm v))"
proof -
  define u where "u = advance M (speedMps v * dt / m_per_deg) dd (mAtan2 M dn dl) (baseLat v) (baseLon v)
      (v\<lparr>headingDeg := compass (mAtan2 M dn dl)\<rparr>)"
  have u: "airworthy N u" "sim_state u = ''RTB''" using assms(1,2) by (simp_all add: u_def)
  have p: "sized (10 ^ 7) (lit 6 * dt)" "0 \<le> val (lit 6 * dt)" using travel [OF assms(3), of 6 6] by simp_all
  have "between 15 N (Max (Fin (of_int 15)) (currentAlt u - lit 6 * dt))"
    using u(1) assms(4) by (intro descent [OF _ assms(5) p]) (simp_all add: airworthy_def)
  then have d: "between 0 N (Max (Fin 15) (currentAlt u - lit 6 * dt))" by (simp add: between_def)
  define w where "w = (if dm < lit 200 \<and> lit 15 < currentAlt u
      then u\<lparr>currentAlt := Max (lit 15) (currentAlt u - lit 6 * dt)\<rparr> else u)"
  have w: "airworthy N w" using u d by (simp add: w_def airworthy_def)
  have "fst (step_return M dt dl dn dd dm v) = w"
    by (simp add: step_return_def Let_def w_def u_def advance_def)
  moreover have "\<exists>x y vx vy vz. snd (step_return M dt dl dn dd dm v) =
      (let w = fst (step_return M dt dl dn dd dm v)
       in report w ''RTB'' \<lparr>Latitude = x, Longitude = y, AltitudeM = edge_roundFloat (currentAlt w) 1\<rparr>
            \<lparr>VX = vx, VY = vy, VZ = vz, SpeedMps = edge_roundFloat (speedMps w) 1\<rparr> None)"
    unfolding step_return_def Let_def fst_conv snd_conv by blast
  ultimately show ?thesis using w report_flight(1) [OF w assms(5)] assms(4) by (auto simp: Let_def)
qed

lemma step_touchdown_ok:
  assumes "airworthy N v" and "sim_state v = ''RTB''" and "tick_ok dt" and "100 \<le> N" "N \<le> 10 ^ 6"
  shows "airworthy N (fst (step_touchdown dt v)) \<and> report_ok N (snd (step_touchdown dt v))"
proof -
  have p: "sized (10 ^ 7) (lit 10 * dt)" "0 \<le> val (lit 10 * dt)" using travel [OF assms(3), of 10 10] by simp_all
  have "between 0 N (Max (Fin (of_int 0)) (currentAlt v - lit 10 * dt))"
    using assms(1,4) by (intro descent [OF _ assms(5) p]) (simp_all add: airworthy_def)
  then have d: "between 0 N (Max 0 (currentAlt v - lit 10 * dt))" by (simp add: zero_f64_def)
  have "airworthy N (fst (step_touchdown dt v))"
    using assms(1,2,4) d by (simp add: step_touchdown_def Let_def airworthy_def flight_states_def)
  moreover have "report_ok N (snd (step_touchdown dt v))"
    using assms(1,2,4,5) d between_round [OF d assms(5), of 1]
    by (simp add: step_touchdown_def Let_def report_ok_def airworthy_def flight_states_def)
  ultimately show ?thesis by blast
qed

lemma step_landed_ok:
  assumes "airworthy N v" and "sim_state v = ''LANDED''" and "0 \<le> N"
  shows "airworthy N (fst (step_landed v)) \<and> report_ok N (snd (step_landed v))"
  using assms by (simp add: step_landed_def Let_def airworthy_def report_ok_def flight_states_def still_def)

lemma Step_ok:
  assumes "airworthy N v" and "tick_ok dt" and "100 \<le> N" "N \<le> 10 ^ 6"
  shows "airworthy N (fst (Step M dt v)) \<and> report_ok N (snd (Step M dt v))"
proof -
  let ?v = "v\<lparr>sim_sequence := sim_sequence v + 1\<rparr>"
  have a: "airworthy N ?v" "0 \<le> N" using assms(1,3) by simp_all
  then have "sim_state v \<in> flight_states" by (simp add: airworthy_def)
  then consider (patrol) "sim_state v = ''AIRBORNE'' \<or> sim_state v = ''PATROL''" | (hover) "sim_state v = ''HOVER''"
    | (rtb) "sim_state v = ''RTB''" | (landed) "sim_state v = ''LANDED''"
    by (auto simp: flight_states_def)
  then show ?thesis
  proof cases
    case patrol
    then show ?thesis
      using step_transit_ok [OF a(1) _ assms(2-4)] step_orbit_ok [OF a(1) _ assms(2,4)]
      by (auto simp: Step_def step_patrol_def Let_def)
  next
    case hover
    then show ?thesis using step_hover_ok [OF a(1) assms(2) a(2) assms(4)] by (simp add: Step_def)
  next
    case rtb
    have d: "airworthy N (drain (3 / 100) dt ?v)" by (rule airworthy_drain [OF a(1) assms(2)]) simp_all
    show ?thesis using rtb step_return_ok [OF d _ assms(2-4)] step_touchdown_ok [OF d _ assms(2-4)]
      by (simp add: Step_def step_rtb_def Let_def)
  next
    case landed
    then show ?thesis using step_landed_ok [OF a(1) _ a(2)] by (simp add: Step_def)
  qed
qed

lemma Step_orbit_altitude:
  assumes "airworthy N v" and "0 \<le> N" "N \<le> 10 ^ 6"
  shows "orbit_altitude M N (fst (Step M dt v)) (snd (Step M dt v))"
proof -
  let ?v = "v\<lparr>sim_sequence := sim_sequence v + 1\<rparr>"
  have a: "airworthy N ?v" using assms(1) by simp
  then have "sim_state v \<in> flight_states" by (simp add: airworthy_def)
  moreover have "orbit_altitude M N w (snd (step_transit M dt an la lo dla dlo di ?v))" for w an la lo dla dlo di
    by (simp add: orbit_altitude_def step_transit_def Let_def case_prod_beta)
  ultimately show ?thesis using step_orbit_altitude [OF a assms(2,3)]
    by (auto simp: Step_def step_patrol_def step_hover_def step_rtb_def step_return_def step_touchdown_def
        step_landed_def flight_states_def Let_def orbit_altitude_def split: if_splits)
qed

lemma execute_ok:
  assumes "airworthy N v" and "100 \<le> N" "N \<le> 10 ^ 6"
  shows "airworthy N (execute command v)"
proof -
  have d: "between 0 N default_speed" by (rule between_default [OF assms(2,3)])
  then have s: "sized N default_speed" by (rule between_sized) simp
  have c: "between 0 N (cruiseSpeed v)" if "\<not> cruiseSpeed v \<le> 0"
    using assms(1) that by (auto simp: airworthy_def between_def sized_def abs_le_iff)
  have "between 0 N (lit 100)" using assms(2) by (simp add: between_def)
  with d s c assms show ?thesis by (auto simp: execute_def airworthy_def flight_states_def Let_def)
qed

lemma NewVehicleSim_ok:
  assumes "sized N alt" and "sized N speed" and "120 \<le> N" "N \<le> 10 ^ 6"
  shows "airworthy N (NewVehicleSim M i ty te lat lon alt radius speed)"
proof -
  have N: "(120 :: rat) \<le> of_int N" using assms(3) by simp
  have "between 0 N (if alt \<le> 0 then lit 120 else alt)" "between 0 N (if speed \<le> 0 then default_speed else speed)"
    using assms(3) N by (intro cruise_target between_default between_lit assms; simp)+
  moreover have "between 5 99 full_battery" by (simp add: between_def full_battery_exact)
  ultimately show ?thesis
    by (simp add: airworthy_def NewVehicleSim_def Let_def flight_states_def between_sized)
qed

section \<open>Reachable states\<close>

text \<open>What ticks and commands, in any order, make of a vehicle; \<open>T\<close> is the set of tick lengths.\<close>

inductive flight :: "trig \<Rightarrow> golib \<Rightarrow> f64 set \<Rightarrow> VehicleSim \<Rightarrow> VehicleSim \<Rightarrow> bool" for M L T v where
  start: "flight M L T v v"
| tick: "flight M L T v w \<Longrightarrow> dt \<in> T \<Longrightarrow> flight M L T v (fst (Step M dt w))"
| order: "flight M L T v w \<Longrightarrow> flight M L T v (HandleCommand L cmd w)"
| pad: "flight M L T v w \<Longrightarrow> flight M L T v (SetBase x y w)"

lemma flight_airworthy:
  assumes "flight M L T v w" and "airworthy N v" and "\<forall>dt \<in> T. tick_ok dt" and "100 \<le> N" "N \<le> 10 ^ 6"
  shows "airworthy N w"
  using assms
proof (induction rule: flight.induct)
  case (tick w dt)
  then show ?case using Step_ok by blast
next
  case (order w cmd)
  then show ?case using execute_ok by (simp add: HandleCommand_def)
qed (simp_all add: SetBase_def)

section \<open>The battery\<close>

lemma drain_full:
  assumes "finite64 dt" and "0 \<le> val dt" "val dt \<le> 1" and "0 \<le> r" "r \<le> 3 / 64"
  shows "edge_roundFloat (Max (lit 5) (full_battery - lit r * dt)) 1 = full_battery"
proof -
  have c: "repr (3 / 64)" "repr (6301 / 64)" "repr (197 / 2)" "repr (31505 / 32)" "repr 985"
    using repr_dyadic [of 3 6] repr_dyadic [of 6301 6] repr_dyadic [of 197 1] repr_dyadic [of 31505 5]
      repr_of_int [of 985] by simp_all
  have r: "sized 1 (lit r)" "val (lit r) = fl_rat r" using fl_sized [of r 1] assms(4,5) by auto
  have d: "sized 1 dt" using assms(1-3) by (simp add: sized_def)
  have "0 \<le> fl_rat r" "fl_rat r \<le> 3 / 64" using assms(4,5) fl_rat_bound(1) [OF c(1)] fl_rat_nonneg by auto
  then have "0 \<le> val (lit r) * val dt" "val (lit r) * val dt \<le> 3 / 64 * 1"
    using assms(2,3) unfolding r(2) by (simp, intro mult_mono) simp_all
  then have p: "0 \<le> val (lit r * dt)" "val (lit r * dt) \<le> 3 / 64" "sized 1 (lit r * dt)"
    using sized_mult [OF r(1) d] fl_rat_nonneg fl_rat_bound(1) [OF c(1)] by simp_all
  have "sized 99 full_battery" by (simp add: full_battery_exact sized_def)
  note x = sized_diff [OF this p(3)]
  have "6301 / 64 \<le> val (full_battery - lit r * dt)" "val (full_battery - lit r * dt) \<le> 197 / 2"
    using x(2) p(1,2) fl_rat_bound(2) [OF c(2)] fl_rat_bound(1) [OF c(3)] by (simp_all add: full_battery_exact)
  then have m: "6301 / 64 \<le> val (Max (lit 5) (full_battery - lit r * dt))"
      "val (Max (lit 5) (full_battery - lit r * dt)) \<le> 197 / 2" "finite64 (Max (lit 5) (full_battery - lit r * dt))"
    using x(1) by (simp_all add: sized_def val_Max)
  define y where "y = val (Max (lit 5) (full_battery - lit r * dt))"
  have y: "Max (lit 5) (full_battery - lit r * dt) = Fin y" "6301 / 64 \<le> y" "y \<le> 197 / 2"
    using m finite64_iff [of "Max (lit 5) (full_battery - lit r * dt)"] by (auto simp: y_def)
  have z: "31505 / 32 \<le> fl_rat (y * 10)" "fl_rat (y * 10) \<le> 985"
    using y(2,3) fl_rat_bound(2) [OF c(4)] fl_rat_bound(1) [OF c(5)] by simp_all
  have "\<bar>y * 10\<bar> \<le> of_int 1000" using y(2,3) by simp
  note f = fl_sized [OF this]
  have "lit (y * 10) = Fin (fl_rat (y * 10))"
    using f finite64_iff [of "lit (y * 10)"] z(1) by auto
  moreover have "Round (Fin (fl_rat (y * 10))) = Fin (of_int 985)" using z by (intro Round_near) auto
  ultimately show ?thesis
    unfolding y(1) using y(2) by (simp add: edge_roundFloat_eq roundFloat_round_with round_with_def dec_def Fin_mult Fin_div
        full_battery_def)
qed

lemma battery_kept [simp]:
  "batteryPct (fst (climb dt v)) = batteryPct v" "batteryPct (accelerate dt v) = batteryPct v"
  "batteryPct (advance M st dd be x y v) = batteryPct v"
  by (simp_all add: climb_def accelerate_def advance_def Let_def)

lemma battery_drain: "batteryPct (drain r dt v) = edge_roundFloat (Max (lit 5) (batteryPct v - lit r * dt)) 1"
  by (simp add: drain_def)

definition subsecond :: "f64 set" where
  "subsecond = {dt. finite64 dt \<and> 0 \<le> val dt \<and> val dt \<le> 1}"

lemma Step_battery:
  assumes "batteryPct v = full_battery" and "dt \<in> subsecond"
  shows "batteryPct (fst (Step M dt v)) = full_battery"
proof -
  have d: "batteryPct (drain r dt w) = full_battery" if "batteryPct w = full_battery" "0 \<le> r" "r \<le> 3 / 64" for r w
    using that assms(2) drain_full [of dt r] by (simp add: battery_drain subsecond_def del: small_lits)
  show ?thesis using assms(1)
    by (auto simp: Step_def step_patrol_def step_transit_def step_orbit_def step_hover_def step_rtb_def step_return_def
        step_touchdown_def step_landed_def step_other_def Let_def case_prod_beta d)
qed

lemma flight_battery:
  assumes "flight M L T v w" and "T \<subseteq> subsecond" and "batteryPct v = full_battery"
  shows "batteryPct w = full_battery"
  using assms
proof (induction rule: flight.induct)
  case (tick w dt)
  then show ?case using Step_battery by blast
next
  case (order w cmd)
  then show ?case by (simp add: HandleCommand_def execute_def Let_def)
qed (simp_all add: SetBase_def)

lemma tick_quotient:
  assumes "finite64 rateHz" and "1 \<le> val rateHz"
  shows "\<exists>x. lit (10 ^ 9) / rateHz = x \<and> finite64 x \<and> val x = fl_rat (10 ^ 9 / val rateHz) \<and>
    0 \<le> val x \<and> val x \<le> 10 ^ 9"
proof -
  obtain r where r: "rateHz = Fin r" "1 \<le> r" using assms by (cases rateHz) auto
  have e: "lit (10 ^ 9) = Fin (10 ^ 9)" using lit_int [of "10 ^ 9"] by simp
  have "10 ^ 9 / r \<le> (10 ^ 9 :: rat) / 1" using r(2) by (intro divide_left_mono) simp_all
  then have b: "\<bar>10 ^ 9 / r\<bar> \<le> of_int (10 ^ 9)" using r(2) by simp
  note f = fl_sized [OF b]
  have "lit (10 ^ 9) / rateHz = lit (10 ^ 9 / r)" unfolding e r(1) using r(2) by (intro Fin_div) simp_all
  moreover have "0 \<le> val (lit (10 ^ 9 / r))" "val (lit (10 ^ 9 / r)) \<le> 10 ^ 9"
    using f r(2) fl_rat_nonneg [of "10 ^ 9 / r"] by (simp_all add: sized_def abs_le_iff)
  ultimately show ?thesis using f(2,3) r by simp
qed

lemma tick_length:
  assumes "finite64 rateHz" and "1 \<le> val rateHz" and "tick_interval conv rateHz = Some ns"
  shows "Seconds ns \<in> subsecond"
proof -
  have e: "lit (10 ^ 9) = Fin (10 ^ 9)" using lit_int [of "10 ^ 9"] by simp
  have ns: "1 \<le> ns" "ns \<le> 10 ^ 9"
    using assms(3) tick_quotient [OF assms(1,2)]
    by (auto simp: tick_interval_def Let_def truncated_def floor_le_iff split: if_splits)
  show ?thesis
  proof (cases "ns = 10 ^ 9")
    case True
    have "of_int64 1 = Fin 1" "of_int64 0 = Fin 0" using of_int64_exact [of 1] of_int64_exact [of 0] by simp_all
    moreover have "lit 1 = Fin 1" using lit_int [of 1] by simp
    ultimately show ?thesis unfolding True
      by (simp add: Seconds_def subsecond_def e [simplified] plus_f64_def add64_def divide_f64_def div64_def zero64_def)
  next
    case False
    with ns have d: "ns div 10 ^ 9 = 0" "ns mod 10 ^ 9 = ns" by simp_all
    have "of_int64 ns = Fin (of_int ns)" using ns by (intro of_int64_exact) simp
    moreover have "of_int64 0 = Fin 0" using of_int64_exact [of 0] by simp
    moreover have u: "0 \<le> (of_int ns / 10 ^ 9 :: rat)" "(of_int ns / 10 ^ 9 :: rat) \<le> of_int 1"
      using ns by simp_all
    moreover have "Fin (of_int ns) / Fin (10 ^ 9) = lit (of_int ns / 10 ^ 9)" using ns(1) by (intro Fin_div) simp_all
    ultimately have "Seconds ns = Fin 0 + lit (of_int ns / 10 ^ 9)" by (simp only: Seconds_def d e)
    moreover have "sized 1 (lit (of_int ns / 10 ^ 9))" "val (lit (of_int ns / 10 ^ 9)) = fl_rat (of_int ns / 10 ^ 9)"
      using fl_sized [of "of_int ns / 10 ^ 9" 1] u by auto
    moreover have "sized 0 (Fin 0)" by (simp add: sized_def)
    ultimately have "sized 1 (Seconds ns)" "val (Seconds ns) = fl_rat (fl_rat (of_int ns / 10 ^ 9))"
      using sized_add [of 0 "Fin 0" 1 "lit (of_int ns / 10 ^ 9)"] by simp_all
    moreover have "0 \<le> fl_rat (fl_rat (of_int ns / 10 ^ 9))" using u(1) by (intro fl_rat_nonneg)
    ultimately show ?thesis by (simp add: subsecond_def sized_def)
  qed
qed

lemma tick_interval_safe:
  assumes "finite64 rateHz" and "1 \<le> val rateHz" and "val rateHz \<le> 10 ^ 9"
  shows "tick_interval conv rateHz \<noteq> None"
proof -
  have "1 \<le> 10 ^ 9 / val rateHz" using assms(2,3) by simp
  then have "1 \<le> fl_rat (10 ^ 9 / val rateHz)" using fl_rat_int_bounds(1) [of 1 "10 ^ 9 / val rateHz"] by simp
  with tick_quotient [OF assms(1,2)] show ?thesis
    by (auto simp: tick_interval_def Let_def truncated_def le_floor_iff)
qed

section \<open>Landing\<close>


definition base_distance :: "VehicleSim \<Rightarrow> f64" where
  "base_distance v =
     (let dLat = baseLat v - currentLat v; dLon = baseLon v - currentLon v
      in Sqrt (dLat * dLat + dLon * dLon) * m_per_deg)"

definition grounded :: "VehicleSim \<Rightarrow> bool" where
  "grounded v \<longleftrightarrow> sim_state v = ''LANDED'' \<and> currentAlt v = 0 \<and> speedMps v = 0"

definition position :: "VehicleSim \<Rightarrow> f64 \<times> f64" where
  "position v = (currentLat v, currentLon v)"

definition base :: "VehicleSim \<Rightarrow> f64 \<times> f64" where
  "base v = (baseLat v, baseLon v)"

lemma Step_landed:
  "sim_state v = ''LANDED'' \<Longrightarrow>
     grounded (fst (Step M dt v)) \<and> position (fst (Step M dt v)) = position v \<and> base (fst (Step M dt v)) = base v"
  by (simp add: Step_def step_landed_def Let_def grounded_def position_def base_def)





section \<open>Addressing\<close>

lemma obeys_iff:
  assumes "is_ascii target" and "is_ascii (sim_id v)"
  shows "obeys L v target \<longleftrightarrow> target = '''' \<or> stripped L target = stripped L (sim_id v)"
  using assms by (auto simp: obeys_def stripped_def EqualFold_def ToLower_def)

lemma stripped_team:
  assumes "is_ascii s" and "\<not> prefix ''red-'' (map lower_char s)"
  shows "stripped L (''blue-'' @ s) = map lower_char s" and "stripped L (''red-'' @ s) = map lower_char s"
  using assms by (simp_all add: stripped_def ToLower_def is_ascii_def TrimPrefix_def lower_char_def char_of_def)

text \<open>What keeps a vehicle on the ground: only four commands leave it, and only when it is their target.\<close>

definition lifts :: "golib \<Rightarrow> VehicleSim \<Rightarrow> CommandPayload \<Rightarrow> bool" where
  "lifts L v cmd \<longleftrightarrow>
     CommandType cmd \<in> {''ARM'', ''PATROL'', ''HOVER'', ''RETURN_TO_BASE''} \<and> obeys L v (TargetVehicle cmd)"

inductive grounded_run :: "trig \<Rightarrow> golib \<Rightarrow> VehicleSim \<Rightarrow> VehicleSim \<Rightarrow> bool" for M L v where
  start: "grounded_run M L v v"
| tick: "grounded_run M L v w \<Longrightarrow> grounded_run M L v (fst (Step M dt w))"
| order: "grounded_run M L v w \<Longrightarrow> \<not> lifts L w cmd \<Longrightarrow> grounded_run M L v (HandleCommand L cmd w)"

lemma grounded_order:
  "grounded w \<Longrightarrow> \<not> lifts L w cmd \<Longrightarrow>
     grounded (HandleCommand L cmd w) \<and> position (HandleCommand L cmd w) = position w"
  by (auto simp: HandleCommand_def lifts_def execute_def grounded_def position_def Let_def)

lemma stays_grounded:
  assumes "grounded_run M L v w" and "grounded v"
  shows "grounded w \<and> position w = position v"
  using assms
proof (induction rule: grounded_run.induct)
  case (tick w dt)
  then show ?case using Step_landed [of w M dt] by (simp add: grounded_def)
next
  case (order w cmd)
  then show ?case using grounded_order [of w L cmd] by simp
qed simp

section \<open>Publishing\<close>

text \<open>The documented ranges of the trigonometric functions on finite arguments.\<close>

definition trig_ok :: "trig \<Rightarrow> bool" where
  "trig_ok M \<longleftrightarrow>
     (\<forall>x. finite64 x \<longrightarrow> sized 1 (mSin M x) \<and> sized 1 (mCos M x)) \<and>
     (\<forall>x y. finite64 x \<longrightarrow> finite64 y \<longrightarrow> sized 4 (mAtan2 M x y))"

lemma trig_okD:
  "trig_ok M \<Longrightarrow> finite64 x \<Longrightarrow> sized 1 (mSin M x)" "trig_ok M \<Longrightarrow> finite64 x \<Longrightarrow> sized 1 (mCos M x)"
  "trig_ok M \<Longrightarrow> finite64 x \<Longrightarrow> finite64 y \<Longrightarrow> sized 4 (mAtan2 M x y)"
  by (simp_all add: trig_ok_def)

text \<open>A vehicle in the sector: coordinates in degrees, an orbit of at least a thousandth of a degree.\<close>

definition in_sector :: "VehicleSim \<Rightarrow> bool" where
  "in_sector v \<longleftrightarrow>
     sized 180 (centerLat v) \<and> sized 180 (centerLon v) \<and> sized 180 (baseLat v) \<and> sized 180 (baseLon v) \<and>
     sized 180 (currentLat v) \<and> sized 180 (currentLon v) \<and> sized 180 (orbitRadius v) \<and>
     1 / 1000 \<le> val (orbitRadius v) \<and> sized 400 (headingDeg v)"

lemma Pi_facts: "sized 4 Pi" "3 \<le> val Pi" "Pi = Fin (val Pi)"
proof -
  let ?x = "3141592653589793238462643383279502884 / 10 ^ 36 :: rat"
  have "\<bar>?x\<bar> \<le> of_int 4" by simp
  note f = fl_sized [OF this]
  then show s: "sized 4 Pi" by (simp add: Pi_def)
  have "3 \<le> fl_rat ?x" using fl_rat_int_bounds(1) [of 3 ?x] by simp
  then show "3 \<le> val Pi" using f(2) by (simp add: Pi_def)
  then show "Pi = Fin (val Pi)" using s finite64_iff [of Pi] by (auto simp: sized_def)
qed

lemma lit_sized: "lit 360 = Fin 360" "sized 180 (lit 180)" "sized 360 (lit 360)" "m_per_deg = Fin 111139"
  using lit_int [of 360] lit_int [of 111139] by (simp_all add: sized_def m_per_deg_def)

lemma compass_sized:
  assumes "sized 4 x"
  shows "sized 360 (compass x)"
proof -
  have "sized (4 * 180) (x * lit 180)" by (rule sized_mult [OF assms lit_sized(2)]) simp
  then have "sized 720 (x * lit 180 / Pi)" by (subst Pi_facts(3), intro sized_div) (use Pi_facts(2) in simp_all)
  from sized_add(1) [OF this lit_sized(3)] have "finite64 (x * lit 180 / Pi + lit 360)" by (simp add: sized_def)
  from Mod_sized [OF this, of 360] have "sized 360 (Mod (x * lit 180 / Pi + lit 360) (lit 360))"
    by (simp add: lit_sized)
  from roundFloat_sized [OF this] show ?thesis by (simp add: compass_def edge_roundFloat_eq)
qed

text \<open>Circle points and small moves.\<close>

lemma circle_sized:
  assumes "sized 180 c" and "sized 180 r" and "sized 1 s"
  shows "sized 360 (edge_roundFloat (c + r * s) 6)"
proof -
  have "sized (180 * 1) (r * s)" by (rule sized_mult [OF assms(2,3)]) simp
  from sized_add(1) [OF assms(1) this] have "sized 360 (c + r * s)" by simp
  from roundFloat_sized [OF this] show ?thesis by (simp add: edge_roundFloat_eq)
qed

lemma move_sized:
  assumes "sized 180 c" and "sized (10 ^ 6) d" and "sized 1 s"
  shows "sized (10 ^ 7) (edge_roundFloat (c + d * s) 6)"
proof -
  have "sized (10 ^ 6 * 1) (d * s)" by (rule sized_mult [OF assms(2,3)]) simp
  from sized_add(1) [OF assms(1) this] have "sized (10 ^ 7) (c + d * s)" by (auto intro: sized_mono)
  from roundFloat_sized [OF this] show ?thesis by (simp add: edge_roundFloat_eq)
qed

lemma step_sized:
  assumes "sized (10 ^ 6) sp" and "dt \<in> subsecond"
  shows "sized (10 ^ 6) (sp * dt / m_per_deg)"
proof -
  have "sized 1 dt" using assms(2) by (simp add: subsecond_def sized_def)
  from sized_mult(1) [OF assms(1) this] have "sized (10 ^ 6) (sp * dt)" by simp
  then show ?thesis unfolding lit_sized by (rule sized_div) simp_all
qed

lemma component_sized:
  "sized (10 ^ 6) sp \<Longrightarrow> sized 1 s \<Longrightarrow> d \<le> 6 \<Longrightarrow> sized (10 ^ 6) (edge_roundFloat (sp * s) d)"
proof -
  assume a: "sized (10 ^ 6) sp" "sized 1 s" and d: "d \<le> 6"
  from sized_mult(1) [OF a] have "sized (10 ^ 6) (sp * s)" by simp
  from roundFloat_sized [OF this d] show ?thesis by (simp add: edge_roundFloat_eq)
qed

text \<open>What the pieces of a step leave alone.\<close>

lemma drain_simps [simp]:
  "currentLat (drain r dt v) = currentLat v" "currentLon (drain r dt v) = currentLon v"
  "headingDeg (drain r dt v) = headingDeg v" "currentAlt (drain r dt v) = currentAlt v"
  "speedMps (drain r dt v) = speedMps v" "base_distance (drain r dt v) = base_distance v"
  by (simp_all add: drain_def base_distance_def)

lemma climb_simps [simp]:
  "currentLat (fst (climb dt v)) = currentLat v" "currentLon (fst (climb dt v)) = currentLon v"
  "headingDeg (fst (climb dt v)) = headingDeg v" "speedMps (fst (climb dt v)) = speedMps v"
  by (simp_all add: climb_def Let_def)

lemma accelerate_simps [simp]:
  "currentLat (accelerate dt v) = currentLat v" "currentLon (accelerate dt v) = currentLon v"
  "headingDeg (accelerate dt v) = headingDeg v"
  by (simp_all add: accelerate_def Let_def)

lemma advance_simps [simp]:
  "headingDeg (advance M st dd be x y v) = headingDeg v" "speedMps (advance M st dd be x y v) = speedMps v"
  "currentAlt (advance M st dd be x y v) = currentAlt v"
  by (simp_all add: advance_def)

lemma advance_sized:
  assumes "sized 180 (currentLat v)" "sized 180 (currentLon v)" and "sized 360 x" "sized 360 y"
    and "sized (10 ^ 6) st" and "sized 1 (mCos M be)" "sized 1 (mSin M be)"
  shows "sized (10 ^ 7) (currentLat (advance M st dd be x y v))" "sized (10 ^ 7) (currentLon (advance M st dd be x y v))"
  using assms move_sized [OF assms(1,5,6)] move_sized [OF assms(2,5,7)] sized_mono [OF assms(3), of "10 ^ 7"]
    sized_mono [OF assms(4), of "10 ^ 7"]
  by (simp_all add: advance_def)

lemma physical_report:
  assumes "airworthy (10 ^ 6) v" and "sized (10 ^ 7) x" "sized (10 ^ 7) y" "sized (10 ^ 7) z"
    and "sized (10 ^ 7) vx" "sized (10 ^ 7) vy" "sized (10 ^ 7) vz" "sized (10 ^ 7) sp" and "sized 400 (headingDeg v)"
  shows "physical (report v st \<lparr>Latitude = x, Longitude = y, AltitudeM = z\<rparr>
    \<lparr>VX = vx, VY = vy, VZ = vz, SpeedMps = sp\<rparr> p)"
proof -
  have "sized 99 (batteryPct v)" using assms(1) by (auto simp: airworthy_def intro: between_sized)
  then show ?thesis using assms(2-9) unfolding physical_def by (auto intro: sized_mono)
qed

lemma airworthy_sized:
  assumes "airworthy (10 ^ 6) v" and "d \<le> 6"
  shows "sized (10 ^ 6) (currentAlt v)" "sized (10 ^ 6) (speedMps v)"
    and "sized (10 ^ 7) (edge_roundFloat (currentAlt v) d)" "sized (10 ^ 7) (edge_roundFloat (speedMps v) d)"
proof -
  have b: "between 0 (10 ^ 6) (currentAlt v)" "between 0 (10 ^ 6) (speedMps v)"
    using assms(1) by (simp_all add: airworthy_def)
  then show "sized (10 ^ 6) (currentAlt v)" "sized (10 ^ 6) (speedMps v)" by (auto intro: between_sized)
  show "sized (10 ^ 7) (edge_roundFloat (currentAlt v) d)" "sized (10 ^ 7) (edge_roundFloat (speedMps v) d)"
    using sized_mono [OF between_sized [OF between_round [OF b(1) order_refl assms(2)]], of "10 ^ 7"]
      sized_mono [OF between_sized [OF between_round [OF b(2) order_refl assms(2)]], of "10 ^ 7"] by simp_all
qed

lemma velocity_sized:
  assumes "airworthy (10 ^ 6) w" and "sized 1 s" and "d \<le> 6"
  shows "sized (10 ^ 7) (edge_roundFloat (speedMps w * s) d)"
  by (rule sized_mono [OF component_sized [OF airworthy_sized(2) [OF assms(1), of 0] assms(2,3)]]) simp_all

lemma sized_7 [simp]: "sized (10 ^ 7) 0" "sized (10 ^ 7) (lit (- 1))" "sized (10 ^ 7) (lit (- 2))"
  using lit_int [of "- 1"] lit_int [of "- 2"] by (simp_all add: sized_def zero_f64_def)

lemma subsecond_tick: "dt \<in> subsecond \<Longrightarrow> tick_ok dt"
  by (auto simp: subsecond_def tick_ok_def sized_def)

lemma vertical_sized: "sized (10 ^ 7) (edge_roundFloat (snd (climb dt v)) 2)"
proof -
  have "sized 10 (snd (climb dt v))" by (simp add: climb_def Let_def sized_def zero_f64_def)
  from roundFloat_sized [OF this, of 2] show ?thesis by (simp add: edge_roundFloat_eq sized_mono)
qed

lemma transit_physical:
  assumes M: "trig_ok M" and a: "airworthy (10 ^ 6) v" and "sim_state v \<noteq> ''LANDED''" and s: "in_sector v"
    and dt: "dt \<in> subsecond" and t: "sized 360 tx" "sized 360 ty" "finite64 dl" "finite64 dn"
  shows "physical (snd (step_transit M dt ang tx ty dl dn dd v))"
proof -
  let ?b = "mAtan2 M dn dl"
  let ?c = "climb dt (v\<lparr>headingDeg := compass ?b\<rparr>)"
  let ?u = "accelerate dt (fst ?c)"
  let ?w = "fst (step_transit M dt ang tx ty dl dn dd v)"
  have b: "sized 4 ?b" using M t by (simp add: trig_ok_def)
  then have sc: "sized 1 (mSin M ?b)" "sized 1 (mCos M ?b)" using M by (simp_all add: trig_ok_def sized_def)
  have u: "airworthy (10 ^ 6) ?u"
    using a assms(3) subsecond_tick [OF dt] by (intro airworthy_accelerate airworthy_climb) simp_all
  note st = step_sized [OF airworthy_sized(2) [OF u, of 0] dt]
  have "sized 180 (currentLat ?u)" "sized 180 (currentLon ?u)" using s by (simp_all add: in_sector_def)
  note advance_sized [OF this t(1,2) st sc(2,1), of dd]
  then have p: "sized (10 ^ 7) (currentLat ?w)" "sized (10 ^ 7) (currentLon ?w)"
    by (simp_all add: step_transit_def Let_def case_prod_beta)
  have w: "airworthy (10 ^ 6) ?w" "speedMps ?w = speedMps ?u" "headingDeg ?w = compass ?b"
    using airworthy_drain [OF u subsecond_tick [OF dt], of "4 / 100"] u subsecond_tick [OF dt]
    by (simp_all add: step_transit_def Let_def case_prod_beta airworthy_drain)
  have v: "sized (10 ^ 7) (edge_roundFloat (speedMps ?w * mSin M ?b) 2)" "sized (10 ^ 7) (edge_roundFloat (speedMps ?w * mCos M ?b) 2)"
    by (rule velocity_sized [OF w(1) sc(1)] velocity_sized [OF w(1) sc(2)]; simp)+
  have h: "sized 400 (headingDeg ?w)" unfolding w(3) by (rule sized_mono [OF compass_sized [OF b]]) simp
  have "snd (step_transit M dt ang tx ty dl dn dd v) =
      report ?w (if currentAlt ?w < lit 20 then ''TAKEOFF'' else ''TRANSIT'')
        \<lparr>Latitude = currentLat ?w, Longitude = currentLon ?w, AltitudeM = edge_roundFloat (currentAlt ?w) 1\<rparr>
        \<lparr>VX = edge_roundFloat (speedMps ?w * mSin M ?b) 2, VY = edge_roundFloat (speedMps ?w * mCos M ?b) 2,
         VZ = edge_roundFloat (snd ?c) 2, SpeedMps = edge_roundFloat (speedMps ?w) 2\<rparr> (recon_payload ?w)"
    unfolding step_transit_def Let_def case_prod_beta fst_conv snd_conv by (rule refl)
  then show ?thesis
    using physical_report [OF w(1) p airworthy_sized(3) [OF w(1), of 1] v vertical_sized airworthy_sized(4) [OF w(1), of 2] h]
    by simp
qed

text \<open>The angle on the orbit is finite: the angular speed is bounded because the orbit is not too small.\<close>

lemma turn_facts: "sized 8 turn" "6 \<le> val turn" "turn = Fin (val turn)"
proof -
  have "sized 2 (lit 2)" by (simp add: sized_def)
  note m = sized_mult [OF this Pi_facts(1)]
  then show s: "sized 8 turn" by (simp add: turn_def)
  have "6 \<le> fl_rat (2 * val Pi)" using fl_rat_int_bounds(1) [of 6 "2 * val Pi"] Pi_facts(2) by simp
  then show "6 \<le> val turn" using m(2) by (simp add: turn_def)
  then show "turn = Fin (val turn)" using s finite64_iff [of turn] by (auto simp: sized_def)
qed

lemma angular_sized:
  assumes "in_sector v" and "airworthy (10 ^ 6) v"
  shows "sized (10 ^ 6) (if 0 < orbitRadius v * m_per_deg \<and> 0 < speedMps v
    then speedMps v / (orbitRadius v * m_per_deg) else lit (8 / 100))"
proof -
  have r: "sized 180 (orbitRadius v)" "1 / 1000 \<le> val (orbitRadius v)" using assms(1) by (simp_all add: in_sector_def)
  have k: "sized 111139 (Fin 111139)" by (simp add: sized_def)
  note m = sized_mult [OF r(1) k]
  have "1 / 1000 * 111139 \<le> val (orbitRadius v) * 111139" using r(2) by (intro mult_right_mono) simp_all
  then have "1 \<le> val (orbitRadius v * Fin 111139)"
    unfolding m(2) [simplified] using fl_rat_int_bounds(1) [of 1] by simp
  then have "orbitRadius v * m_per_deg = Fin (val (orbitRadius v * m_per_deg))" "1 \<le> val (orbitRadius v * m_per_deg)"
    using m(1) finite64_iff [of "orbitRadius v * m_per_deg"] by (auto simp: lit_sized sized_def)
  note d = this
  have "sized (10 ^ 6) (speedMps v / (orbitRadius v * m_per_deg))"
    by (subst d(1), rule sized_div(1) [OF airworthy_sized(2) [OF assms(2), of 0] _ d(2)]) simp_all
  moreover have "sized (10 ^ 6) (lit (8 / 100))" by (rule sized_lit) simp_all
  ultimately show ?thesis by simp
qed

lemma angle_finite:
  assumes "sized (2 * 10 ^ 6) x"
  defines "a \<equiv> (if turn < x then Mod x turn else x)"
  defines "b \<equiv> (if a < 0 then a + turn else a)"
  shows "finite64 b" and "finite64 (b * lit 2)"
proof -
  have x: "finite64 x" "\<bar>val x\<bar> \<le> 2 * 10 ^ 6" using assms(1) by (simp_all add: sized_def)
  have t: "val turn \<le> 8" "0 < val turn" using turn_facts(1,2) by (simp_all add: sized_def)
  then have "sized (2 * 10 ^ 6) a"
    using Mod_bound [OF x(1) t(2), folded turn_facts(3)] t assms(1) by (auto simp: a_def sized_def)
  moreover from this have "sized (2 * 10 ^ 6 + 8) (a + turn)" by (rule sized_add(1) [OF _ turn_facts(1)]) simp
  ultimately have b: "sized (2 * 10 ^ 6 + 8) b" by (auto simp: b_def intro: sized_mono)
  then show "finite64 b" by (simp add: sized_def)
  have "sized 2 (Fin 2)" by (simp add: sized_def)
  from sized_mult(1) [OF b this] show "finite64 (b * lit 2)" by (simp add: sized_def)
qed

lemma orbit_physical:
  assumes M: "trig_ok M" and a: "airworthy (10 ^ 6) v" and s: "in_sector v" and dt: "dt \<in> subsecond" and x: "sized 4 x"
  shows "physical (snd (step_orbit M dt x v))"
proof -
  define sp where "sp = (if 0 < orbitRadius v * m_per_deg \<and> 0 < speedMps v
    then speedMps v / (orbitRadius v * m_per_deg) else lit (8 / 100))"
  define a0 where "a0 = (if turn < x + sp * dt then Mod (x + sp * dt) turn else x + sp * dt)"
  define an where "an = (if a0 < 0 then a0 + turn else a0)"
  have "sized 1 dt" using dt by (simp add: subsecond_def sized_def)
  from sized_mult(1) [OF angular_sized [OF s a] this] have "sized (10 ^ 6) (sp * dt)" by (simp add: sp_def)
  from sized_add(1) [OF x this] have "sized (2 * 10 ^ 6) (x + sp * dt)" by (auto intro: sized_mono)
  note an = angle_finite [OF this, folded a0_def, folded an_def]
  have sc: "sized 1 (mSin M an)" "sized 1 (mCos M an)" "sized 1 (mSin M (an * lit 2))"
    using trig_okD [OF M] an by simp_all
  define tg where "tg = mAtan2 M (- mSin M an) (mCos M an)"
  have tg: "sized 4 tg" unfolding tg_def using sc(1,2) by (intro trig_okD(3) [OF M]) (simp_all add: sized_def)
  then have st: "sized 1 (mSin M tg)" "sized 1 (mCos M tg)" using trig_okD [OF M] by (simp_all add: sized_def)
  let ?w = "fst (step_orbit M dt x v)"
  have w: "airworthy (10 ^ 6) ?w" "headingDeg ?w = compass tg" "currentAlt ?w = currentAlt v"
    "currentLat ?w = edge_roundFloat (centerLat v + orbitRadius v * mSin M an) 6"
    "currentLon ?w = edge_roundFloat (centerLon v + orbitRadius v * mCos M an) 6"
    using a subsecond_tick [OF dt]
    by (simp_all add: step_orbit_def Let_def airworthy_drain flip: sp_def a0_def an_def tg_def)
       (simp_all add: an_def a0_def sp_def tg_def)
  have p: "sized (10 ^ 7) (currentLat ?w)" "sized (10 ^ 7) (currentLon ?w)"
    unfolding w(4,5) using s sc by (auto simp: in_sector_def intro!: sized_mono [OF circle_sized])
  have alt: "sized (10 ^ 7) (edge_roundFloat (currentAlt v + lit 5 * mSin M (an * lit 2)) 2)"
  proof -
    have "sized 5 (lit 5)" by (simp add: sized_def)
    from sized_mult(1) [OF this sc(3)] have "sized 5 (lit 5 * mSin M (an * lit 2))" by simp
    from sized_add(1) [OF airworthy_sized(1) [OF a, of 0] this]
    have "sized (10 ^ 7) (currentAlt v + lit 5 * mSin M (an * lit 2))" by (auto intro: sized_mono)
    from roundFloat_sized [OF this] show ?thesis by (simp add: edge_roundFloat_eq)
  qed
  have h: "sized 400 (headingDeg ?w)" unfolding w(2) by (rule sized_mono [OF compass_sized [OF tg]]) simp
  have "snd (step_orbit M dt x v) = report ?w (sim_state ?w)
        \<lparr>Latitude = currentLat ?w, Longitude = currentLon ?w,
         AltitudeM = edge_roundFloat (currentAlt ?w + lit 5 * mSin M (an * lit 2)) 2\<rparr>
        \<lparr>VX = edge_roundFloat (speedMps ?w * mSin M tg) 2, VY = edge_roundFloat (speedMps ?w * mCos M tg) 2,
         VZ = 0, SpeedMps = edge_roundFloat (speedMps ?w) 2\<rparr> (recon_payload ?w)"
    unfolding step_orbit_def Let_def fst_conv snd_conv an_def a0_def sp_def tg_def by (rule refl)
  then show ?thesis
    using physical_report [OF w(1) p _ velocity_sized [OF w(1) st(1), of 2] velocity_sized [OF w(1) st(2), of 2]
        sized_7(1) airworthy_sized(4) [OF w(1), of 2] h] alt w(3)
    by simp
qed

lemma sector_sized:
  assumes "in_sector v"
  shows "sized 180 (currentLat v)" "sized 180 (currentLon v)" "sized (10 ^ 7) (currentLat v)" "sized (10 ^ 7) (currentLon v)"
    and "sized (10 ^ 7) (baseLat v)" "sized (10 ^ 7) (baseLon v)" "sized 400 (headingDeg v)"
    and "sized 360 (baseLat v)" "sized 360 (baseLon v)"
  using assms by (auto simp: in_sector_def elim!: sized_mono)

lemma hover_physical:
  assumes "airworthy (10 ^ 6) v" and "in_sector v" and "dt \<in> subsecond"
  shows "physical (snd (step_hover dt v))"
proof -
  have "airworthy (10 ^ 6) (drain (2 / 100) dt v)" using assms(1) subsecond_tick [OF assms(3)] by (rule airworthy_drain) simp_all
  from physical_report [OF this sector_sized(3,4) [OF assms(2)] airworthy_sized(3) [OF assms(1), of 1] sized_7(1,1,1,1),
      of "''HOVER''" None] sector_sized(7) [OF assms(2)]
  show ?thesis by (simp add: step_hover_def Let_def still_def)
qed

lemma return_physical:
  assumes M: "trig_ok M" and a: "airworthy (10 ^ 6) v" and st: "sim_state v = ''RTB''" and s: "in_sector v"
    and dt: "dt \<in> subsecond" and f: "finite64 dl" "finite64 dn"
  shows "physical (snd (step_return M dt dl dn dd dm v))"
proof -
  let ?b = "mAtan2 M dn dl"
  let ?w = "fst (step_return M dt dl dn dd dm v)"
  have b: "sized 4 ?b" using M f by (simp add: trig_ok_def)
  then have sc: "sized 1 (mSin M ?b)" "sized 1 (mCos M ?b)" using M by (simp_all add: trig_ok_def sized_def)
  have w: "airworthy (10 ^ 6) ?w" using step_return_ok [OF a st subsecond_tick [OF dt]] by simp
  have "sized 180 (currentLat (v\<lparr>headingDeg := compass ?b\<rparr>))" "sized 180 (currentLon (v\<lparr>headingDeg := compass ?b\<rparr>))"
    using s by (simp_all add: in_sector_def)
  note p = advance_sized [OF this sector_sized(8,9) [OF s] step_sized [OF airworthy_sized(2) [OF a, of 0] dt] sc(2,1), of dd]
  have p: "sized (10 ^ 7) (currentLat ?w)" "sized (10 ^ 7) (currentLon ?w)" "headingDeg ?w = compass ?b"
    using p by (simp_all add: step_return_def Let_def)
  have h: "sized 400 (headingDeg ?w)" unfolding p(3) by (rule sized_mono [OF compass_sized [OF b]]) simp
  have "snd (step_return M dt dl dn dd dm v) = report ?w ''RTB''
        \<lparr>Latitude = currentLat ?w, Longitude = currentLon ?w, AltitudeM = edge_roundFloat (currentAlt ?w) 1\<rparr>
        \<lparr>VX = edge_roundFloat (speedMps ?w * mSin M ?b) 2, VY = edge_roundFloat (speedMps ?w * mCos M ?b) 2,
         VZ = lit (- 1), SpeedMps = edge_roundFloat (speedMps ?w) 1\<rparr> None"
    unfolding step_return_def Let_def fst_conv snd_conv by (rule refl)
  then show ?thesis
    using physical_report [OF w p(1,2) airworthy_sized(3) [OF w, of 1] velocity_sized [OF w sc(1), of 2]
        velocity_sized [OF w sc(2), of 2] sized_7(2) airworthy_sized(4) [OF w, of 1] h]
    by simp
qed

lemma touchdown_physical:
  assumes "airworthy (10 ^ 6) v" and "sim_state v = ''RTB''" and "in_sector v" and "dt \<in> subsecond"
  shows "physical (snd (step_touchdown dt v))"
proof -
  let ?w = "fst (step_touchdown dt v)"
  have w: "airworthy (10 ^ 6) ?w" using step_touchdown_ok [OF assms(1,2) subsecond_tick [OF assms(4)]] by simp
  have h: "sized 400 (headingDeg ?w)" using assms(3) by (simp add: step_touchdown_def in_sector_def Let_def)
  have "snd (step_touchdown dt v) = report ?w (sim_state ?w)
        \<lparr>Latitude = baseLat v, Longitude = baseLon v, AltitudeM = edge_roundFloat (currentAlt ?w) 1\<rparr>
        \<lparr>VX = 0, VY = 0, VZ = lit (- 2), SpeedMps = 0\<rparr> None"
    by (simp add: step_touchdown_def Let_def)
  then show ?thesis
    using physical_report [OF w sector_sized(5,6) [OF assms(3)] airworthy_sized(3) [OF w, of 1] sized_7(1,1,3,1) h]
    by simp
qed

lemma landed_physical:
  assumes "airworthy (10 ^ 6) v" and "sim_state v = ''LANDED''" and "in_sector v"
  shows "physical (snd (step_landed v))"
proof -
  have w: "airworthy (10 ^ 6) (v\<lparr>currentAlt := 0, speedMps := 0\<rparr>)" using assms(1,2) by (simp add: airworthy_def)
  from physical_report [OF this sector_sized(3,4) [OF assms(3)] sized_7(1,1,1,1,1), of "''LANDED''" None]
    sector_sized(7) [OF assms(3)]
  show ?thesis by (simp add: step_landed_def Let_def still_def)
qed

lemma sector_seq [simp]: "in_sector (v\<lparr>sim_sequence := n\<rparr>) = in_sector v" "in_sector (drain r dt v) = in_sector v"
  by (simp_all add: in_sector_def drain_def)

lemma finite_diff: "sized 360 a \<Longrightarrow> sized 360 b \<Longrightarrow> finite64 (a - b)"
  using sized_diff [of 360 a 360 b] by (simp add: sized_def)

lemma patrol_physical:
  assumes M: "trig_ok M" and a: "airworthy (10 ^ 6) v" and "sim_state v = ''AIRBORNE'' \<or> sim_state v = ''PATROL''"
    and s: "in_sector v" and dt: "dt \<in> subsecond"
  shows "physical (snd (step_patrol M dt v))"
proof -
  have c: "sized 360 (currentLat v)" "sized 360 (currentLon v)" "sized 360 (centerLat v)" "sized 360 (centerLon v)"
    using s by (auto simp: in_sector_def elim!: sized_mono)
  define x where "x = mAtan2 M (currentLat v - centerLat v) (currentLon v - centerLon v)"
  have x: "sized 4 x" unfolding x_def using c by (intro trig_okD(3) [OF M] finite_diff)
  then have sc: "sized 1 (mSin M x)" "sized 1 (mCos M x)" using trig_okD [OF M] by (simp_all add: sized_def)
  have t: "sized 360 (edge_roundFloat (centerLat v + orbitRadius v * mSin M x) 6)"
    "sized 360 (edge_roundFloat (centerLon v + orbitRadius v * mCos M x) 6)"
    using s sc by (auto simp: in_sector_def intro: circle_sized)
  have "sim_state v \<noteq> ''LANDED''" using assms(3) by auto
  from transit_physical [OF M a this s dt t finite_diff [OF t(1) c(1)] finite_diff [OF t(2) c(2)]] orbit_physical [OF M a s dt x]
  show ?thesis by (simp add: step_patrol_def Let_def x_def)
qed

lemma Step_physical:
  assumes M: "trig_ok M" and a: "airworthy (10 ^ 6) v" and s: "in_sector v" and dt: "dt \<in> subsecond"
  shows "physical (snd (Step M dt v))"
proof -
  let ?v = "v\<lparr>sim_sequence := sim_sequence v + 1\<rparr>"
  have a': "airworthy (10 ^ 6) ?v" "in_sector ?v" using a s by simp_all
  have d: "airworthy (10 ^ 6) (drain (3 / 100) dt ?v)" using a' subsecond_tick [OF dt] by (intro airworthy_drain) simp_all
  have f: "finite64 (baseLat ?v - currentLat ?v)" "finite64 (baseLon ?v - currentLon ?v)"
    using sector_sized [OF a'(2)] by (auto intro!: finite_diff elim: sized_mono)
  have "sim_state v \<in> flight_states" using a by (simp add: airworthy_def)
  then consider (patrol) "sim_state v = ''AIRBORNE'' \<or> sim_state v = ''PATROL''" | (hover) "sim_state v = ''HOVER''"
    | (rtb) "sim_state v = ''RTB''" | (landed) "sim_state v = ''LANDED''"
    by (auto simp: flight_states_def)
  then show ?thesis
  proof cases
    case patrol
    then show ?thesis using patrol_physical [OF M a'(1) _ a'(2) dt] by (auto simp: Step_def Let_def)
  next
    case hover
    then show ?thesis using hover_physical [OF a' dt] by (simp add: Step_def)
  next
    case rtb
    then show ?thesis
      using return_physical [OF M d _ _ dt f] touchdown_physical [OF d _ _ dt] s by (simp add: Step_def step_rtb_def Let_def)
  next
    case landed
    then show ?thesis using landed_physical [OF a'(1) _ a'(2)] by (simp add: Step_def)
  qed
qed

text \<open>What a vehicle keeps of its configuration.\<close>

definition same_sim :: "VehicleSim \<Rightarrow> VehicleSim \<Rightarrow> bool" where
  "same_sim v w \<longleftrightarrow> sim_id v = sim_id w \<and> sim_vehicleType v = sim_vehicleType w \<and> sim_team v = sim_team w \<and>
     originNode v = originNode w"

lemma same_sim_pieces:
  "same_sim (drain r dt v) w = same_sim v w" "same_sim (fst (climb dt v)) w = same_sim v w"
  "same_sim (accelerate dt v) w = same_sim v w" "same_sim (advance M st dd be x y v) w = same_sim v w"
  by (simp_all add: same_sim_def drain_def climb_def accelerate_def advance_def Let_def)

lemma same_sim_update [simp]:
  "same_sim (v\<lparr>headingDeg := x\<rparr>) w = same_sim v w" "same_sim (v\<lparr>flightAngle := x\<rparr>) w = same_sim v w"
  "same_sim (v\<lparr>currentLat := x\<rparr>) w = same_sim v w" "same_sim (v\<lparr>currentLon := x\<rparr>) w = same_sim v w"
  "same_sim (v\<lparr>currentAlt := x\<rparr>) w = same_sim v w" "same_sim (v\<lparr>speedMps := x\<rparr>) w = same_sim v w"
  "same_sim (v\<lparr>sim_state := s\<rparr>) w = same_sim v w" "same_sim (v\<lparr>sim_sequence := n\<rparr>) w = same_sim v w"
  "same_sim (v\<lparr>cruiseSpeed := x\<rparr>) w = same_sim v w" "same_sim (v\<lparr>ewActive := e\<rparr>) w = same_sim v w" "same_sim v v"
  by (simp_all add: same_sim_def)

lemma Step_same: "same_sim (fst (Step M dt v)) v"
  by (simp add: Step_def step_patrol_def step_transit_def step_orbit_def step_hover_def step_rtb_def step_return_def
      step_touchdown_def step_landed_def step_other_def Let_def case_prod_beta same_sim_pieces)

text \<open>A report names the vehicle and carries a payload that encodes.\<close>

definition reports :: "VehicleSim \<Rightarrow> TelemetryPayload \<Rightarrow> bool" where
  "reports v t \<longleftrightarrow> VehicleID t = sim_id v \<and> VehicleType t = sim_vehicleType v \<and> Team t = sim_team v \<and>
     payload_finite (MissionPayload t)"

lemma recon_finite [simp]: "payload_finite (recon_payload v)" "payload_finite None"
proof -
  have "\<bar>385 / 10 :: rat\<bar> \<le> of_int 39" by simp
  from fl_sized(3) [OF this] show "payload_finite (recon_payload v)" by (simp add: payload_finite_def recon_payload_def)
qed (simp add: payload_finite_def)

lemma reports_report: "same_sim w v \<Longrightarrow> payload_finite p \<Longrightarrow> reports v (report w st c x p)"
  by (simp add: reports_def same_sim_def)

lemma steps_report:
  assumes "same_sim w v"
  shows "reports v (snd (step_transit M dt an tx ty dl dn dd w))" "reports v (snd (step_orbit M dt an w))"
    and "reports v (snd (step_hover dt w))" "reports v (snd (step_return M dt dl dn dd dm w))"
    and "reports v (snd (step_touchdown dt w))" "reports v (snd (step_landed w))" "reports v (snd (step_other w))"
  unfolding step_transit_def step_orbit_def step_hover_def step_return_def step_touchdown_def step_landed_def
    Let_def case_prod_beta snd_conv
  by (rule reports_report; simp add: same_sim_pieces assms)+
    (use assms in \<open>simp add: step_other_def reports_def same_sim_def\<close>)

lemma Step_reports: "reports v (snd (Step M dt v))"
  by (simp add: Step_def step_patrol_def step_rtb_def Let_def steps_report same_sim_pieces)

definition tick_tier :: "bool \<Rightarrow> int \<Rightarrow> string" where
  "tick_tier emit n = (if emit \<and> n mod 15 = 0 then Tier3Critical else Tier2Restricted)"

definition tick_key :: "golib \<Rightarrow> bool \<Rightarrow> int \<Rightarrow> VehicleSim \<Rightarrow> string" where
  "tick_key L emit n v =
     BuildKey L (if emit \<and> n mod 15 = 0 then ''tier3'' else ''tier2'') (sim_vehicleType v) (sim_team v) (sim_id v) ''telemetry''"

definition named :: "VehicleSim \<Rightarrow> bool" where
  "named v \<longleftrightarrow> sim_id v \<noteq> '''' \<and> sim_vehicleType v \<noteq> '''' \<and> sim_team v \<noteq> '''' \<and> originNode v \<noteq> ''''"

lemma drone_tick_packet:
  assumes "trig_ok M" and "airworthy (10 ^ 6) v" and "in_sector v" and "named v" and "dt \<in> subsecond" and "n2 \<noteq> 0"
    and "sized 90 (Latitude (Coords (snd (Step M dt v))))" "sized 180 (Longitude (Coords (snd (Step M dt v))))"
  obtains e data where "Validate L (Some e) = (ok (), Some e)" and "Marshal (json_envelope e) = ok data"
    and "Telemetry e = Some (Normalize (snd (Step M dt v)))" and "Classification (Header e) = tick_tier emit (n + 1)"
    and "drone_tick pub L M n1 n2 emit dt (n, v, b) =
      Some (n + 1, fst (Step M dt v), fst (pub b (tick_key L emit (n + 1) v) data))"
proof -
  let ?w = "fst (Step M dt v)" and ?t = "snd (Step M dt v)"
  have w: "sim_id ?w = sim_id v" "sim_vehicleType ?w = sim_vehicleType v" "sim_team ?w = sim_team v"
    "originNode ?w = originNode v" using Step_same [of M dt v] by (simp_all add: same_sim_def)
  have t: "VehicleID ?t = sim_id v" "VehicleType ?t = sim_vehicleType v" "Team ?t = sim_team v"
    "payload_finite (MissionPayload ?t)" using Step_reports [of v M dt] by (simp_all add: reports_def)
  have "report_ok (10 ^ 6) ?t" using Step_ok [OF assms(2) subsecond_tick [OF assms(5)]] by simp
  then have "in_bounds ?t" using assms(7,8) by (simp add: report_ok_def in_bounds_def between_def)
  moreover have "ValidTiers (tick_tier emit (n + 1))" by (simp add: tick_tier_def ValidTiers_def)
  ultimately obtain e data where e: "NewTelemetryEnvelope L n1 n2 (tick_tier emit (n + 1)) (originNode v) ?t [] = ok e"
    "Validate L (Some e) = (ok (), Some e)" "Marshal (json_envelope e) = ok data"
    "Telemetry e = Some (Normalize ?t)" "Command e = None" "Classification (Header e) = tick_tier emit (n + 1)"
    using Step_physical [OF assms(1-3,5)] assms(4,6) t
    by (elim telemetry_packet [where L = L and ?now1.0 = n1 and ?now2.0 = n2 and t = ?t and caveats = "[]" and
          origin = "originNode v", rotated -1]) (auto simp: named_def)
  moreover have "drone_tick pub L M n1 n2 emit dt (n, v, b) =
      Some (n + 1, ?w, fst (pub b (tick_key L emit (n + 1) v) data))"
    using e(1,3) w by (simp add: drone_tick_def case_prod_beta Let_def ok_def tick_tier_def tick_key_def tier_defs)
  ultimately show thesis using that by blast
qed

section \<open>The instance\<close>

lemma drone_tick_total:
  obtains b' where "drone_tick pub L M n1 n2 emit dt (n, v, b) = Some (n + 1, fst (Step M dt v), b')"
proof -
  have e: "NewTelemetryEnvelope L n1 n2 tier origin t cs \<noteq> None" for tier origin t cs
  proof (cases rule: Marshal_cases [of "json_telemetry (Normalize t)"])
    case (ok s)
    then show ?thesis by (simp add: NewTelemetryEnvelope_def ComputePayloadDigest_Some Let_def) (simp add: ok_def fail_def)
  next
    case (error err)
    then show ?thesis by (simp add: NewTelemetryEnvelope_def ComputePayloadDigest_Some Let_def) (simp add: fail_def)
  qed
  let ?w = "fst (Step M dt v)" and ?t = "snd (Step M dt v)"
  let ?tier = "if emit \<and> (n + 1) mod 15 = 0 then Tier3Critical else Tier2Restricted"
  have "\<exists>b'. drone_tick pub L M n1 n2 emit dt (n, v, b) = Some (n + 1, ?w, b')"
  proof (cases "NewTelemetryEnvelope L n1 n2 ?tier (originNode ?w) ?t []" rule: go_cases)
    case panic
    with e show ?thesis by blast
  next
    case (error err)
    then show ?thesis by (simp add: drone_tick_def case_prod_beta Let_def fail_def)
  next
    case (result env)
    then show ?thesis
      by (cases rule: Marshal_cases [of "json_envelope env"])
        (simp_all add: drone_tick_def case_prod_beta Let_def ok_def fail_def)
  qed
  with that show thesis by blast
qed

text \<open>An instance never panics; its vehicle flies, and its counter counts its ticks.\<close>

fun tick_count :: "drone_event list \<Rightarrow> nat" where
  "tick_count [] = 0"
| "tick_count (Tick n1 n2 # es) = Suc (tick_count es)"
| "tick_count (Message key payload # es) = tick_count es"

lemma sequence_pieces:
  "sim_sequence (drain r dt v) = sim_sequence v" "sim_sequence (fst (climb dt v)) = sim_sequence v"
  "sim_sequence (accelerate dt v) = sim_sequence v" "sim_sequence (advance M st dd be x y v) = sim_sequence v"
  by (simp_all add: drain_def climb_def accelerate_def advance_def Let_def)

lemma sequence_branches:
  "sim_sequence (fst (step_transit M dt an la lo dla dlo di v)) = sim_sequence v"
  "sim_sequence (fst (step_orbit M dt an v)) = sim_sequence v" "sim_sequence (fst (step_hover dt v)) = sim_sequence v"
  "sim_sequence (fst (step_return M dt dla dlo di dm v)) = sim_sequence v"
  "sim_sequence (fst (step_touchdown dt v)) = sim_sequence v" "sim_sequence (fst (step_landed v)) = sim_sequence v"
  "sim_sequence (fst (step_other v)) = sim_sequence v"
  by (simp_all add: step_transit_def step_orbit_def step_hover_def step_return_def step_touchdown_def step_landed_def
      step_other_def Let_def case_prod_beta sequence_pieces)

lemma Step_sequence: "sim_sequence (fst (Step M dt v)) = sim_sequence v + 1"
  by (simp add: Step_def step_patrol_def step_rtb_def Let_def sequence_branches sequence_pieces)

lemma on_command_cases:
  obtains "on_command unmarshal L topic v key payload = v"
  | cmd where "on_command unmarshal L topic v key payload = HandleCommand L cmd v"
proof -
  have "on_command unmarshal L topic v key payload = v \<or> (\<exists>cmd. on_command unmarshal L topic v key payload = HandleCommand L cmd v)"
    by (auto simp: on_command_def split: sum.splits option.splits)
  with that show thesis by blast
qed

lemma HandleCommand_fixed: "same_sim (HandleCommand L cmd v) v" "sim_sequence (HandleCommand L cmd v) = sim_sequence v"
  by (simp_all add: HandleCommand_def execute_def same_sim_def Let_def)

lemma flight_trans: "flight M L T w x \<Longrightarrow> flight M L T v w \<Longrightarrow> flight M L T v x"
proof (induction rule: flight.induct)
  case (tick x dt)
  then show ?case by (simp add: flight.tick)
next
  case (order x cmd)
  then show ?case by (simp add: flight.order)
next
  case (pad x a b)
  then show ?case by (simp add: flight.pad)
qed

section \<open>Relay to an autopilot\<close>

text \<open>The requests the commands of an operator stand for; the others are not relayed.\<close>

definition relay_request :: "string \<Rightarrow> (u16 \<times> params) option" where
  "relay_request command =
     (if command = ''RETURN_TO_BASE'' then Some (MavCmdNavReturnToLaunch, no_params)
      else if command = ''ARM'' then Some (MavCmdComponentArmDisarm, (0x3F800000, 0, 0, 0, 0, 0, 0))
      else if command = ''DISARM'' then Some (MavCmdComponentArmDisarm, no_params)
      else if command = ''HOVER'' then Some (MavCmdDoSetMode, (0x40800000, 0x40400000, 0, 0, 0, 0, 0))
      else None)"

lemma relay_command_eq:
  "relay_command send command c = (case relay_request command of None \<Rightarrow> c | Some (cmd, ps) \<Rightarrow> fst (send c cmd ps))"
  by (simp add: relay_command_def relay_request_def ReturnToLaunch_def SetArmed_def no_params_def)

fun requests :: "string list \<Rightarrow> (u16 \<times> params) list" where
  "requests [] = []"
| "requests (x # xs) = (case relay_request x of None \<Rightarrow> [] | Some r \<Rightarrow> [r]) @ requests xs"

definition relay_all :: "('k \<Rightarrow> u16 \<Rightarrow> params \<Rightarrow> 'k \<times> string option) \<Rightarrow> 'k \<Rightarrow> string list \<Rightarrow> 'k" where
  "relay_all send c commands = foldl (\<lambda>c command. relay_command send command c) c commands"

context autopilot_client
begin

lemma relay_all_sends: "relay_all send c xs = fst (send_all c (requests xs))"
proof (induction xs arbitrary: c)
  case Nil
  then show ?case by (simp add: relay_all_def)
next
  case (Cons x xs)
  have "relay_all send c (x # xs) = relay_all send (relay_command send x c) xs" by (simp add: relay_all_def)
  with Cons.IH [of "relay_command send x c"] show ?case
    by (cases "relay_request x") (auto simp: relay_command_eq split: prod.splits)
qed

lemma relay_written:
  "case send_all c (requests xs) of (c', rs) \<Rightarrow>
     relay_all send c xs = c' \<and> written c' = written c @ command_log (seq c) (requests xs) rs"
  using send_all_written [of c "requests xs"] by (simp add: relay_all_sends case_prod_beta)

end

section \<open>The loop of an instance\<close>

lemma drone_loop_runs:
  "\<exists>w b'. drone_loop pub unmarshal L M emit dt (n, v, b) es = Some (n + int (tick_count es), w, b') \<and>
     flight M L {dt} v w \<and> same_sim w v \<and> sim_sequence w = sim_sequence v + of_nat (tick_count es)"
proof (induction es arbitrary: n v b)
  case Nil
  then show ?case by (auto intro: flight.start)
next
  case (Cons e es)
  show ?case
  proof (cases e)
    case (Tick n1 n2)
    let ?v = "fst (Step M dt v)"
    obtain b1 where t: "drone_tick pub L M n1 n2 emit dt (n, v, b) = Some (n + 1, ?v, b1)" by (rule drone_tick_total)
    have "flight M L {dt} v ?v" by (rule flight.tick [OF flight.start]) simp
    with Cons.IH [of "n + 1" ?v b1] Step_same [of M dt v] show ?thesis
      by (fastforce simp: Tick t Step_sequence same_sim_def intro: flight_trans)
  next
    case (Message key payload)
    let ?v = "on_command unmarshal L (sim_cmdTopic L v) v key payload"
    have "flight M L {dt} v ?v \<and> same_sim ?v v \<and> sim_sequence ?v = sim_sequence v"
      by (rule on_command_cases [of unmarshal L "sim_cmdTopic L v" v key payload])
        (auto simp: HandleCommand_fixed intro: flight.start flight.order [OF flight.start])
    with Cons.IH [of n ?v b] show ?thesis by (fastforce simp: Message same_sim_def intro: flight_trans)
  qed
qed

section \<open>Properties\<close>

text \<open>C8. The flight envelope: whatever ticks (of up to \<open>10\<^sup>6\<close> seconds) and commands come, and whatever
  the trigonometric functions answer, the state is one of five, the battery between 5 and 99 percent, altitude
  and speed finite, not negative and below the configured values (or 120), a landed vehicle at altitude and
  speed zero; and so is what every tick reports, but for one value: the altitude of an \<^verbatim>\<open>AIRBORNE\<close>
  or \<^verbatim>\<open>PATROL\<close> report, on the orbit, is the vehicle's plus five times a sine, rounded, so up to
  five metres outside those bounds on either side, below zero included.\<close>

theorem flight_envelope:
  assumes "sized N alt" and "sized N speed" and "120 \<le> N" "N \<le> 10 ^ 6"
    and "flight M L T (NewVehicleSim M i ty te lat lon alt radius speed) w"
    and "\<forall>dt \<in> T. tick_ok dt" and "dt \<in> T"
  shows "airworthy N w \<and> report_ok N (snd (Step M dt w)) \<and>
    orbit_altitude M N (fst (Step M dt w)) (snd (Step M dt w))"
proof -
  have N: "100 \<le> N" using assms(3) by simp
  have "airworthy N w" using flight_airworthy [OF assms(5) NewVehicleSim_ok [OF assms(1-4)] assms(6) N assms(4)] .
  with Step_ok [OF _ _ N assms(4)] Step_orbit_altitude [OF _ _ assms(4)] assms(6,7) N show ?thesis by simp
qed

lemma default_sized: "sized 120 default_speed"
  using between_sized [OF between_default [of 120]] by simp

theorem flight_envelope_witness:
  "\<forall>M L. \<exists>w. flight M L {1} (single_sim M ''bravo'' ''drone'' ''blue'') w \<and> airworthy 120 w \<and>
     report_ok 120 (snd (Step M 1 w))"
proof (intro allI)
  fix M L
  let ?v = "single_sim M ''bravo'' ''drone'' ''blue''"
  have f: "flight M L {1} ?v (fst (Step M 1 ?v))" by (rule flight.tick [OF flight.start]) simp
  have t: "\<forall>dt \<in> {1}. tick_ok dt" by (simp add: tick_ok_def sized_def one_f64_def)
  have "sized 120 (lit 120)" by (simp add: sized_def)
  from flight_envelope [OF this default_sized _ _ f [unfolded single_sim_def] t, of 1] f
  show "\<exists>w. flight M L {1} ?v w \<and> airworthy 120 w \<and> report_ok 120 (snd (Step M 1 w))"
    by (intro exI [of _ "fst (Step M 1 ?v)"]) (simp add: single_sim_def)
qed

text \<open>C16. An instance runs: the one panic of a simulated vehicle's instance is that of its ticker, for a rate
  that gives no positive interval. A rate from one hertz to \<open>10\<^sup>9\<close> gives one; and once the ticker runs,
  whatever the bus answers, the decoder decodes and the trigonometric functions return, and in whatever order
  ticks and messages come, the loop never panics; its state is one that ticks and commands lead to, the
  vehicle keeps its name, type, team and origin, and the sequence number advances by one with every tick (mod
  \<open>2\<^sup>64\<close>).\<close>

theorem instance_runs:
  "(finite64 rateHz \<and> 1 \<le> val rateHz \<and> val rateHz \<le> 10 ^ 9 \<longrightarrow> tick_interval conv rateHz \<noteq> None) \<and>
   (case tick_interval conv rateHz of
      None \<Rightarrow> runDroneInstance pub unmarshal L M conv rateHz emit v b es = None
    | Some ns \<Rightarrow>
        (\<exists>w b'. runDroneInstance pub unmarshal L M conv rateHz emit v b es = Some (int (tick_count es), w, b') \<and>
           flight M L {Seconds ns} v w \<and> same_sim w v \<and>
           sim_sequence w = sim_sequence v + of_nat (tick_count es)))"
  using tick_interval_safe [of rateHz conv] drone_loop_runs [of pub unmarshal L M emit _ 0 v b es]
  by (auto simp: runDroneInstance_def split: option.splits)

text \<open>At the default rate of one hertz, with a refusing bus and a decoder that knows nothing.\<close>

theorem instance_runs_witness:
  "\<forall>L M conv. \<exists>w b'. runDroneInstance (\<lambda>b key data. (b, Some ''bus is closed'')) (\<lambda>s. Inl ''bad json'') L M conv
      (Fin 1) False (single_sim M ''bravo'' ''drone'' ''blue'') () [Tick 1 1, Message ''k'' ''m'', Tick 2 2] =
    Some (2, w, b') \<and> sim_sequence w = 2"
proof (intro allI)
  fix L M conv
  let ?v = "single_sim M ''bravo'' ''drone'' ''blue''"
  note i = instance_runs [of "Fin 1" conv "\<lambda>b key data. (b, Some ''bus is closed'')" "\<lambda>s. Inl ''bad json''" L M
      False ?v "()" "[Tick 1 1, Message ''k'' ''m'', Tick 2 2]"]
  have "tick_interval conv (Fin 1) \<noteq> None" using i [THEN conjunct1] by simp
  moreover have "sim_sequence ?v = 0" by (simp add: single_sim_def NewVehicleSim_def Let_def)
  ultimately show "\<exists>w b'. runDroneInstance (\<lambda>b key data. (b, Some ''bus is closed'')) (\<lambda>s. Inl ''bad json'') L M conv
      (Fin 1) False ?v () [Tick 1 1, Message ''k'' ''m'', Tick 2 2] = Some (2, w, b') \<and> sim_sequence w = 2"
    using i [THEN conjunct2] by (auto split: option.splits)
qed

text \<open>C27. The battery never drains: at any publication rate of one hertz or more a tick takes less than half
  of the tenth of a percent to which the charge is rounded, so rounding restores it, and after any
  flight the battery is where it started.\<close>

theorem battery_never_drains:
  assumes "finite64 rateHz" and "1 \<le> val rateHz" and "tick_interval conv rateHz = Some ns"
    and "flight M L {Seconds ns} (NewVehicleSim M i ty te lat lon alt radius speed) w"
  shows "batteryPct w = full_battery"
  using tick_length [OF assms(1-3)]
  by (intro flight_battery [OF assms(4)]) (simp_all add: NewVehicleSim_def Let_def)

text \<open>A command to whoever hears it.\<close>

definition to_all :: "string \<Rightarrow> CommandPayload" where
  "to_all command = \<lparr>CommandID = ''c'', TargetVehicle = '''', CommandType = command,
     Parameters = None, IssuedAtNs = 1, Issuer = ''op''\<rparr>"

theorem battery_never_drains_witness:
  "\<forall>M L. \<exists>w. flight M L {Seconds (10 ^ 9)} (single_sim M ''bravo'' ''drone'' ''blue'') w \<and> sim_sequence w = 1 \<and>
     batteryPct w = Fin (197 / 2)"
proof (intro allI)
  fix M L
  let ?v = "single_sim M ''bravo'' ''drone'' ''blue''"
  let ?w = "HandleCommand L (to_all ''HOVER'') ?v"
  have "lit (10 ^ 9) = Fin (10 ^ 9)" using lit_int [of "10 ^ 9"] by simp
  then have "lit (10 ^ 9) / Fin 1 = Fin (10 ^ 9)" using Fin_div [of "10 ^ 9" 1] by simp
  then have i: "tick_interval (\<lambda>_. 0) (Fin 1) = Some (10 ^ 9)" by (simp add: tick_interval_def truncated_def)
  have f: "flight M L {Seconds (10 ^ 9)} ?v (fst (Step M (Seconds (10 ^ 9)) ?w))"
    by (rule flight.tick [OF flight.order [OF flight.start]]) simp
  have "sim_sequence (fst (Step M (Seconds (10 ^ 9)) ?w)) = 1"
    by (simp add: Step_def step_hover_def drain_def HandleCommand_def obeys_def execute_def single_sim_def
        NewVehicleSim_def Let_def to_all_def)
  moreover have "batteryPct (fst (Step M (Seconds (10 ^ 9)) ?w)) = full_battery"
    by (rule battery_never_drains [OF _ _ i f [unfolded single_sim_def], folded single_sim_def]) simp_all
  ultimately show "\<exists>w. flight M L {Seconds (10 ^ 9)} ?v w \<and> sim_sequence w = 1 \<and> batteryPct w = Fin (197 / 2)"
    using f unfolding full_battery_exact by blast
qed


definition over_base :: VehicleSim where
  "over_base =
     \<lparr>sim_id = ''blue-alpha'', sim_vehicleType = ''drone'', sim_team = ''blue'', sim_state = ''RTB'',
      batteryPct = full_battery, centerLat = Fin 31, centerLon = Fin (- 8), baseLat = Fin 31, baseLon = Fin (- 8),
      currentLat = Fin 31, currentLon = Fin (- 8), currentAlt = Fin 120, cruiseAlt = Fin 120, speedMps = Fin 14,
      cruiseSpeed = Fin 14, headingDeg = Fin 90, flightAngle = 0, orbitRadius = Fin (1 / 128), sim_sequence = 0,
      originNode = ''edge-node-blue-blue-alpha'', ewActive = False\<rparr>"


text \<open>C33. Addressing: between ASCII names the case-folding test decides nothing: a command is executed iff it
  names no vehicle or one whose name is the same without team prefixes, and ignored otherwise. So a blue
  vehicle executes what is addressed to the red vehicle of the same callsign.\<close>

theorem command_addressing:
  assumes "is_ascii (sim_id v)" and "is_ascii (TargetVehicle cmd)"
  shows "HandleCommand L cmd v =
      (if TargetVehicle cmd = '''' \<or> stripped L (TargetVehicle cmd) = stripped L (sim_id v)
       then execute (CommandType cmd) v else v) \<and>
    (\<forall>c. \<not> prefix ''red-'' (map lower_char c) \<and> sim_id v = ''blue-'' @ c \<and> TargetVehicle cmd = ''red-'' @ c \<longrightarrow>
       HandleCommand L cmd v = execute (CommandType cmd) v)"
proof -
  have a: "HandleCommand L cmd v = (if TargetVehicle cmd = '''' \<or> stripped L (TargetVehicle cmd) = stripped L (sim_id v)
       then execute (CommandType cmd) v else v)"
    using obeys_iff [OF assms(2,1), of L] by (simp add: HandleCommand_def)
  moreover have "stripped L (''blue-'' @ c) = stripped L (''red-'' @ c)"
    if "\<not> prefix ''red-'' (map lower_char c)" "sim_id v = ''blue-'' @ c" for c
    using assms(1) stripped_team [OF _ that(1), of L] by (simp add: that(2) is_ascii_def)
  ultimately show ?thesis by simp
qed

theorem command_addressing_witness:
  "\<forall>L. sim_state (HandleCommand L \<lparr>CommandID = ''c'', TargetVehicle = ''red-alpha'', CommandType = ''DISARM'',
     Parameters = None, IssuedAtNs = 1, Issuer = ''op''\<rparr> over_base) = ''LANDED''"
proof
  fix L
  let ?c = "\<lparr>CommandID = ''c'', TargetVehicle = ''red-alpha'', CommandType = ''DISARM'',
     Parameters = None, IssuedAtNs = 1, Issuer = ''op''\<rparr>"
  have "\<not> prefix ''red-'' (map lower_char ''alpha'')" by (simp add: lower_char_def char_of_def)
  moreover have "is_ascii (sim_id over_base)" "is_ascii (TargetVehicle ?c)" by (simp_all add: over_base_def is_ascii_def)
  from conjunct2 [OF command_addressing [OF this, of L], rule_format, of "''alpha''"]
  have "\<not> prefix ''red-'' (map lower_char ''alpha'') \<Longrightarrow> HandleCommand L ?c over_base = execute ''DISARM'' over_base"
    by (simp add: over_base_def)
  ultimately show "sim_state (HandleCommand L ?c over_base) = ''LANDED''"
    by (simp add: execute_def)
qed

text \<open>On the ground it stays: a landed vehicle remains at altitude and speed zero where it is, through any
  ticks and any commands, until it obeys one of the four that leave the ground.\<close>

theorem grounded_until_lifted:
  assumes "grounded v" and "grounded_run M L v w"
  shows "grounded w \<and> position w = position v \<and>
    (\<forall>cmd dt. \<not> lifts L w cmd \<longrightarrow> grounded (HandleCommand L cmd w) \<and> grounded (fst (Step M dt w)))"
proof -
  have w: "grounded w \<and> position w = position v" by (rule stays_grounded [OF assms(2,1)])
  then show ?thesis using grounded_order [of w L] Step_landed [of w M] by (auto simp: grounded_def)
qed

theorem grounded_until_lifted_witness:
  "\<forall>M L. grounded (HandleCommand L (to_all ''DISARM'')
       (fst (Step M 1 (over_base\<lparr>sim_state := ''LANDED'', currentAlt := 0, speedMps := 0\<rparr>))))"
proof (intro allI)
  fix M L
  let ?v = "over_base\<lparr>sim_state := ''LANDED'', currentAlt := 0, speedMps := 0\<rparr>"
  have r: "grounded_run M L ?v (fst (Step M 1 ?v))" by (rule grounded_run.tick [OF grounded_run.start])
  have "grounded ?v" by (simp add: grounded_def)
  moreover have "\<not> lifts L (fst (Step M 1 ?v)) (to_all ''DISARM'')" by (simp add: lifts_def to_all_def)
  ultimately show "grounded (HandleCommand L (to_all ''DISARM'') (fst (Step M 1 ?v)))"
    using grounded_until_lifted [OF _ r] by blast
qed

text \<open>C17. Every tick of a simulated vehicle in its sector publishes exactly one packet on its own telemetry key:
  an envelope that validates and carries the step's report, TIER-2, or TIER-3 every fifteenth tick when the
  fail-closed test is on (assuming the documented ranges of the trigonometric functions and a new
  position on the map).\<close>

theorem drone_tick_publishes:
  assumes "trig_ok M" and "airworthy (10 ^ 6) v" and "in_sector v" and "named v" and "dt \<in> subsecond" and "n2 \<noteq> 0"
    and "sized 90 (Latitude (Coords (snd (Step M dt v))))" "sized 180 (Longitude (Coords (snd (Step M dt v))))"
  shows "\<exists>e data. Validate L (Some e) = (ok (), Some e) \<and> Marshal (json_envelope e) = ok data \<and>
    Telemetry e = Some (Normalize (snd (Step M dt v))) \<and> Classification (Header e) = tick_tier emit (n + 1) \<and>
    drone_tick pub L M n1 n2 emit dt (n, v, b) =
      Some (n + 1, fst (Step M dt v), fst (pub b (tick_key L emit (n + 1) v) data))"
  by (rule drone_tick_packet [OF assms, of L emit n pub n1 b]) blast

definition level_trig :: trig where
  "level_trig = \<lparr>mSin = \<lambda>_. 0, mCos = \<lambda>_. 1, mAtan2 = \<lambda>_ _. 0\<rparr>"

theorem drone_tick_publishes_witness:
  "\<forall>L. \<exists>e data v'. Validate L (Some e) = (ok (), Some e) \<and> Classification (Header e) = Tier3Critical \<and>
     drone_tick (\<lambda>b k p. (b @ [(k, p)], None)) L level_trig 5 6 True 1 (14, over_base\<lparr>sim_state := ''HOVER''\<rparr>, []) =
       Some (15, v', [(BuildKey L ''tier3'' ''drone'' ''blue'' ''blue-alpha'' ''telemetry'', data)])"
proof
  fix L
  let ?v = "over_base\<lparr>sim_state := ''HOVER''\<rparr>"
  have "trig_ok level_trig" by (simp add: trig_ok_def level_trig_def sized_def zero_f64_def one_f64_def)
  moreover have "airworthy (10 ^ 6) ?v" "in_sector ?v" "named ?v"
    by (simp_all add: airworthy_def over_base_def flight_states_def between_def full_battery_exact sized_def
        in_sector_def named_def)
  moreover have "1 \<in> subsecond" by (simp add: subsecond_def one_f64_def)
  moreover have "sized 90 (Latitude (Coords (snd (Step level_trig 1 ?v))))"
    "sized 180 (Longitude (Coords (snd (Step level_trig 1 ?v))))"
    by (simp_all add: Step_def step_hover_def over_base_def sized_def Let_def)
  ultimately show "\<exists>e data v'. Validate L (Some e) = (ok (), Some e) \<and> Classification (Header e) = Tier3Critical \<and>
     drone_tick (\<lambda>b k p. (b @ [(k, p)], None)) L level_trig 5 6 True 1 (14, ?v, []) =
       Some (15, v', [(BuildKey L ''tier3'' ''drone'' ''blue'' ''blue-alpha'' ''telemetry'', data)])"
    using drone_tick_publishes [of level_trig ?v 1 6 L True 14 "\<lambda>b k p. (b @ [(k, p)], None)" 5 "[]"]
    by (auto simp: tick_tier_def tick_key_def over_base_def)
qed

text \<open>The relay: over either transport, the commands of an operator put on the wire exactly the
  \<^verbatim>\<open>COMMAND_LONG\<close> packets of the requests they stand for (return to launch, arm, disarm, hold),
  in order and with consecutive sequence numbers, for each request the transport does not report failed; the
  other commands send nothing.\<close>

theorem relay_on_the_wire:
  "(case udp.send_all u (requests commands) of (u', rs) \<Rightarrow>
      relay_all SendCommandLong_udp u commands = u' \<and>
      udp_written u' = udp_written u @ command_log (uc_seq u) (requests commands) rs) \<and>
   (case stream.send_all s (requests commands) of (s', rs) \<Rightarrow>
      relay_all SendCommandLong_stream s commands = s' \<and>
      stream_written s' = stream_written s @ command_log (sc_seq s) (requests commands) rs)"
  using udp.relay_written stream.relay_written by (rule conjI)

end
