(* ===== verification/Data_Mule.thy ===== *)
theory Data_Mule
  imports Bus Fifo Log_File
begin

text \<open>
  \<^verbatim>\<open>pkg/zenohutil/datamule.go\<close>: the store-and-forward engine of the satellite backhaul.
  Packets are published upstream while the link is up and spooled into a bounded FIFO (and a spool
  file, a \<open>log_file\<close> whose failed writes the code ignores) otherwise; \<^verbatim>\<open>Flush\<close> sends the spool. The upstream bus is the interface
  \<open>message_bus\<close>: every operation takes its publish function and state, and the laws are proved
  once in the locale. Each operation holds the mule's lock throughout, except that
  \<^verbatim>\<open>SetSimulationMode\<close> releases it before it flushes; the model runs the two parts one
  after the other.
\<close>

section \<open>Model\<close>

datatype BackhaulStatus = BackhaulOnline | BackhaulDegraded | BackhaulDDILBuffering

record SpooledPacket =
  sp_ID :: string
  sp_Topic :: string
  sp_Payload :: string
  sp_Timestamp :: int

record BackhaulMetrics =
  bm_Status :: BackhaulStatus
  bm_CloudTarget :: string
  bm_LatencyMs :: int
  bm_SpooledPackets :: nat
  bm_SpooledBytes :: nat
  bm_SyncedTotal :: int
  bm_LastSyncTime :: int
  bm_SimulatedMode :: bool

record DataMule =
  dm_status :: BackhaulStatus
  dm_cloudTarget :: string
  dm_spoolFile :: "log_file option"
  dm_spoolFilePath :: string
  dm_buffer :: "SpooledPacket list"
  dm_maxBuffer :: nat
  dm_latencyMs :: int
  dm_syncedTotal :: int
  dm_lastSyncTime :: int
  dm_simulatedDDIL :: bool
  dm_upstream :: bool

text \<open>
  The file system as the mule uses it: path functions, directory creation (an error text or none),
  opening in append mode (an error or the file), opening truncated (the fate of the writes to the empty
  file, if it worked).
\<close>

record filesystem =
  fs_clean :: "string \<Rightarrow> string"
  fs_dir :: "string \<Rightarrow> string"
  fs_mkdir :: "string \<Rightarrow> string option"
  fs_append :: "string \<Rightarrow> string + log_file"
  fs_truncate :: "string \<Rightarrow> nat list option"

definition NewDataMule ::
  "golib \<Rightarrow> filesystem \<Rightarrow> int \<Rightarrow> string \<Rightarrow> int \<Rightarrow> string \<Rightarrow> bool \<Rightarrow> DataMule go" where
  "NewDataMule L fs now spoolFilePath maxBuffer cloudTarget upstream =
     (let maxBuffer = (if maxBuffer \<le> 0 then 5000 else maxBuffer);
          dm = \<lparr>dm_status = BackhaulOnline, dm_cloudTarget = cloudTarget, dm_spoolFile = None,
                dm_spoolFilePath = spoolFilePath, dm_buffer = [], dm_maxBuffer = nat maxBuffer,
                dm_latencyMs = 38, dm_syncedTotal = 0, dm_lastSyncTime = now,
                dm_simulatedDDIL = False, dm_upstream = upstream\<rparr>
      in if spoolFilePath \<noteq> ''''
         then let cleanPath = fs_clean fs spoolFilePath; dir = fs_dir fs cleanPath
              in (case fs_mkdir fs dir of
                    Some err \<Rightarrow> fail (''creating spool directory '' @ fmt_q L dir @ '': '' @ err)
                  | None \<Rightarrow>
                      (case fs_append fs cleanPath of
                         Inl err \<Rightarrow> fail (''opening spool log file '' @ fmt_q L cleanPath @ '': '' @ err)
                       | Inr f \<Rightarrow> ok (dm\<lparr>dm_spoolFile := Some (f\<lparr>lf_open := True\<rparr>)\<rparr>)))
         else ok dm)"

definition formatUpstreamTopic :: "string \<Rightarrow> string" where
  "formatUpstreamTopic topic = (if HasPrefix topic ''upstream/'' then topic else ''upstream/'' @ topic)"

text \<open>A \<^verbatim>\<open>[]byte\<close> is marshalled in base 64.\<close>

definition b64_char :: "int \<Rightarrow> char" where
  "b64_char n = char_of (if n < 26 then 65 + n else if n < 52 then 71 + n else if n < 62 then n - 4
                         else if n = 62 then 43 else 47 :: int)"

fun base64 :: "int list \<Rightarrow> string" where
  "base64 [] = []"
| "base64 [a] = [b64_char (a div 4), b64_char (a mod 4 * 16), CHR ''='', CHR ''='']"
| "base64 [a, b] = [b64_char (a div 4), b64_char (a mod 4 * 16 + b div 16), b64_char (b mod 16 * 4), CHR ''='']"
| "base64 (a # b # c # r) =
     [b64_char (a div 4), b64_char (a mod 4 * 16 + b div 16), b64_char (b mod 16 * 4 + c div 64),
      b64_char (c mod 64)] @ base64 r"

definition json_packet :: "golib \<Rightarrow> SpooledPacket \<Rightarrow> json" where
  "json_packet L p =
     JObj [(''id'', JStr (sp_ID p)), (''topic'', JStr (sp_Topic p)),
           (''payload'', JRaw ([CHR 0x22] @ base64 (map of_char (sp_Payload p)) @ [CHR 0x22])),
           (''timestamp'', JRaw ([CHR 0x22] @ fmt_time L (sp_Timestamp p) @ [CHR 0x22]))]"

definition store_packet :: "DataMule \<Rightarrow> SpooledPacket \<Rightarrow> DataMule" where
  "store_packet dm pkt =
     (let dm = (if length (dm_buffer dm) \<ge> dm_maxBuffer dm
                then dm\<lparr>dm_buffer := drop 1 (dm_buffer dm)\<rparr> else dm)
      in dm\<lparr>dm_buffer := dm_buffer dm @ [pkt]\<rparr>)"

text \<open>A marshalling error leaves \<^verbatim>\<open>raw\<close> nil, so an empty line is written; the result of
  the write is ignored.\<close>

definition persist :: "golib \<Rightarrow> SpooledPacket \<Rightarrow> DataMule \<Rightarrow> DataMule" where
  "persist L pkt dm =
     (case dm_spoolFile dm of
        None \<Rightarrow> dm
      | Some f \<Rightarrow>
          (let raw = (case Marshal (json_packet L pkt) of Some (Inr s) \<Rightarrow> s | _ \<Rightarrow> '''')
           in dm\<lparr>dm_spoolFile := Some (write_log f (raw @ newline))\<rparr>))"

definition spool :: "golib \<Rightarrow> int \<Rightarrow> DataMule \<Rightarrow> string \<Rightarrow> string \<Rightarrow> DataMule" where
  "spool L now dm topic payload =
     (let pkt = \<lparr>sp_ID = ''mule-'' @ fmt_d now @ ''-'' @ fmt_nat (length (dm_buffer dm) + 1),
                 sp_Topic = topic, sp_Payload = payload, sp_Timestamp = now\<rparr>
      in persist L pkt (store_packet dm pkt))"

text \<open>The result is always a nil error.\<close>

definition Ingest ::
  "('b \<Rightarrow> string \<Rightarrow> string \<Rightarrow> 'b \<times> string option) \<Rightarrow> golib \<Rightarrow> int \<Rightarrow> DataMule \<Rightarrow> 'b \<Rightarrow> string \<Rightarrow> string
     \<Rightarrow> DataMule \<times> 'b" where
  "Ingest pub L now dm b topic payload =
     (if dm_status dm = BackhaulOnline \<and> \<not> dm_simulatedDDIL dm \<and> dm_upstream dm
      then (case pub b (formatUpstreamTopic topic) payload of
              (b, None) \<Rightarrow>
                (dm\<lparr>dm_syncedTotal := dm_syncedTotal dm + 1, dm_lastSyncTime := now\<rparr>, b)
            | (b, Some err) \<Rightarrow>
                (spool L now (dm\<lparr>dm_status := BackhaulDDILBuffering\<rparr>) topic payload, b))
      else (spool L now dm topic payload, b))"

text \<open>The loop of \<^verbatim>\<open>Flush\<close>: bus, packets sent so far, error.\<close>

fun flush_loop ::
  "('b \<Rightarrow> string \<Rightarrow> string \<Rightarrow> 'b \<times> string option) \<Rightarrow> bool \<Rightarrow> 'b \<Rightarrow> SpooledPacket list \<Rightarrow> nat
     \<Rightarrow> 'b \<times> nat \<times> string option" where
  "flush_loop pub upstream b [] flushed = (b, flushed, None)"
| "flush_loop pub upstream b (pkt # pkts) flushed =
     (if upstream
      then (case pub b (formatUpstreamTopic (sp_Topic pkt)) (sp_Payload pkt) of
              (b, Some err) \<Rightarrow> (b, flushed, Some err)
            | (b, None) \<Rightarrow> flush_loop pub upstream b pkts (flushed + 1))
      else flush_loop pub upstream b pkts (flushed + 1))"

text \<open>After a successful flush the spool file is closed and reopened empty; if that fails the mule
  keeps the closed file.\<close>

definition truncate_spool :: "filesystem \<Rightarrow> DataMule \<Rightarrow> DataMule" where
  "truncate_spool fs dm =
     (case dm_spoolFile dm of
        None \<Rightarrow> dm
      | Some f \<Rightarrow>
          dm\<lparr>dm_spoolFile :=
               Some (case fs_truncate fs (fs_clean fs (dm_spoolFilePath dm)) of
                       Some ws \<Rightarrow> \<lparr>lf_open = True, lf_writes = ws, lf_chunks = []\<rparr>
                     | None \<Rightarrow> close_log f)\<rparr>)"

definition Flush ::
  "('b \<Rightarrow> string \<Rightarrow> string \<Rightarrow> 'b \<times> string option) \<Rightarrow> filesystem \<Rightarrow> int \<Rightarrow> DataMule \<Rightarrow> 'b
     \<Rightarrow> DataMule \<times> 'b \<times> nat \<times> string option" where
  "Flush pub fs now dm b =
     (if dm_buffer dm = [] then (dm\<lparr>dm_status := BackhaulOnline\<rparr>, b, 0, None)
      else (case flush_loop pub (dm_upstream dm) b (dm_buffer dm) 0 of
              (b, flushed, err) \<Rightarrow>
                (let dm = dm\<lparr>dm_syncedTotal := dm_syncedTotal dm + int flushed\<rparr>
                 in (case err of
                       Some e \<Rightarrow> (dm, b, flushed, Some e)
                     | None \<Rightarrow>
                         (truncate_spool fs
                            (dm\<lparr>dm_buffer := [], dm_lastSyncTime := now, dm_status := BackhaulOnline\<rparr>),
                          b, flushed, None)))))"

definition Metrics :: "DataMule \<Rightarrow> BackhaulMetrics" where
  "Metrics dm =
     \<lparr>bm_Status = dm_status dm, bm_CloudTarget = dm_cloudTarget dm, bm_LatencyMs = dm_latencyMs dm,
      bm_SpooledPackets = length (dm_buffer dm),
      bm_SpooledBytes = sum_list (map (\<lambda>p. length (sp_Payload p)) (dm_buffer dm)),
      bm_SyncedTotal = dm_syncedTotal dm, bm_LastSyncTime = dm_lastSyncTime dm,
      bm_SimulatedMode = dm_simulatedDDIL dm\<rparr>"

definition SetSimulationMode ::
  "('b \<Rightarrow> string \<Rightarrow> string \<Rightarrow> 'b \<times> string option) \<Rightarrow> filesystem \<Rightarrow> int \<Rightarrow> DataMule \<Rightarrow> 'b \<Rightarrow> bool
     \<Rightarrow> DataMule \<times> 'b \<times> BackhaulMetrics" where
  "SetSimulationMode pub fs now dm b ddilActive =
     (let dm = dm\<lparr>dm_simulatedDDIL := ddilActive\<rparr>
      in if ddilActive
         then let dm = dm\<lparr>dm_status := BackhaulDDILBuffering, dm_latencyMs := 9999\<rparr> in (dm, b, Metrics dm)
         else let dm = dm\<lparr>dm_status := BackhaulOnline, dm_latencyMs := 42\<rparr>
              in (case Flush pub fs now dm b of (dm, b, _, _) \<Rightarrow> (dm, b, Metrics dm)))"

definition Close_mule :: "DataMule \<Rightarrow> DataMule" where
  "Close_mule dm = dm\<lparr>dm_spoolFile := map_option close_log (dm_spoolFile dm)\<rparr>"

section \<open>Runs\<close>

text \<open>What happens to a mule: packets arrive, operators flush or switch the simulated blackout.\<close>

datatype mule_event = Packet int string string | DoFlush int | Simulate int bool

fun mule_step ::
  "('b \<Rightarrow> string \<Rightarrow> string \<Rightarrow> 'b \<times> string option) \<Rightarrow> golib \<Rightarrow> filesystem \<Rightarrow> DataMule \<times> 'b \<Rightarrow> mule_event
     \<Rightarrow> DataMule \<times> 'b" where
  "mule_step pub L fs (dm, b) (Packet now topic payload) = Ingest pub L now dm b topic payload"
| "mule_step pub L fs (dm, b) (DoFlush now) = (case Flush pub fs now dm b of (dm, b, _) \<Rightarrow> (dm, b))"
| "mule_step pub L fs (dm, b) (Simulate now active) =
     (case SetSimulationMode pub fs now dm b active of (dm, b, _) \<Rightarrow> (dm, b))"

abbreviation mule_run where
  "mule_run pub L fs \<equiv> foldl (mule_step pub L fs)"

definition sent_as :: "string \<Rightarrow> string \<Rightarrow> string \<times> string" where
  "sent_as topic payload = (formatUpstreamTopic topic, payload)"

definition spooled :: "DataMule \<Rightarrow> (string \<times> string) list" where
  "spooled dm = map (\<lambda>p. sent_as (sp_Topic p) (sp_Payload p)) (dm_buffer dm)"

fun arrivals :: "mule_event list \<Rightarrow> (string \<times> string) list" where
  "arrivals [] = []"
| "arrivals (Packet now topic payload # es) = sent_as topic payload # arrivals es"
| "arrivals (_ # es) = arrivals es"

definition packets :: "(int \<times> string \<times> string) list \<Rightarrow> mule_event list" where
  "packets ps = map (\<lambda>(now, t, p). Packet now t p) ps"

section \<open>Lemmas\<close>

lemma formatUpstreamTopic_idem [simp]: "formatUpstreamTopic (formatUpstreamTopic t) = formatUpstreamTopic t"
  by (simp add: formatUpstreamTopic_def HasPrefix_def)

lemma formatUpstreamTopic_prefix: "HasPrefix (formatUpstreamTopic t) ''upstream/''"
  by (simp add: formatUpstreamTopic_def HasPrefix_def)

lemma persist_simps [simp]:
  "dm_buffer (persist L p dm) = dm_buffer dm" "dm_maxBuffer (persist L p dm) = dm_maxBuffer dm"
  "dm_upstream (persist L p dm) = dm_upstream dm" "dm_syncedTotal (persist L p dm) = dm_syncedTotal dm"
  "dm_status (persist L p dm) = dm_status dm" "dm_simulatedDDIL (persist L p dm) = dm_simulatedDDIL dm"
  by (auto simp: persist_def Let_def split: option.splits)

lemma store_packet_simps [simp]:
  "dm_maxBuffer (store_packet dm p) = dm_maxBuffer dm" "dm_upstream (store_packet dm p) = dm_upstream dm"
  "dm_syncedTotal (store_packet dm p) = dm_syncedTotal dm" "dm_status (store_packet dm p) = dm_status dm"
  "dm_simulatedDDIL (store_packet dm p) = dm_simulatedDDIL dm"
  by (simp_all add: store_packet_def)

lemma truncate_simps [simp]:
  "dm_buffer (truncate_spool fs dm) = dm_buffer dm" "dm_maxBuffer (truncate_spool fs dm) = dm_maxBuffer dm"
  "dm_upstream (truncate_spool fs dm) = dm_upstream dm" "dm_syncedTotal (truncate_spool fs dm) = dm_syncedTotal dm"
  "dm_status (truncate_spool fs dm) = dm_status dm" "dm_simulatedDDIL (truncate_spool fs dm) = dm_simulatedDDIL dm"
  by (auto simp: truncate_spool_def split: option.splits)

interpretation mule: bounded_fifo store_packet dm_buffer dm_maxBuffer
proof
  fix dm :: DataMule and p
  show "dm_maxBuffer (store_packet dm p) = dm_maxBuffer dm" by simp
  assume "0 < dm_maxBuffer dm" "length (dm_buffer dm) \<le> dm_maxBuffer dm"
  then show "dm_buffer (store_packet dm p) = newest (dm_maxBuffer dm) (dm_buffer dm @ [p])"
    by (cases "dm_buffer dm") (auto simp: store_packet_def newest_def)
qed

lemma spool_fields [simp]:
  "dm_maxBuffer (spool L now dm t p) = dm_maxBuffer dm" "dm_upstream (spool L now dm t p) = dm_upstream dm"
  "dm_syncedTotal (spool L now dm t p) = dm_syncedTotal dm" "dm_status (spool L now dm t p) = dm_status dm"
  "dm_simulatedDDIL (spool L now dm t p) = dm_simulatedDDIL dm"
  by (simp_all add: spool_def Let_def)

lemma spooled_spool:
  "mule.well_formed dm \<Longrightarrow> spooled (spool L now dm t p) = newest (dm_maxBuffer dm) (spooled dm @ [sent_as t p])"
  by (simp add: spool_def Let_def spooled_def mule.items_push mule.well_formed_def newest_def drop_map)

lemma well_formed_spool: "mule.well_formed dm \<Longrightarrow> mule.well_formed (spool L now dm t p)"
  using mule.well_formed_push [of dm] by (simp add: mule.well_formed_def spool_def Let_def)

lemma spooled_fields [simp]:
  "spooled (dm\<lparr>dm_status := s\<rparr>) = spooled dm" "spooled (dm\<lparr>dm_syncedTotal := n\<rparr>) = spooled dm"
  "spooled (dm\<lparr>dm_lastSyncTime := n\<rparr>) = spooled dm" "spooled (dm\<lparr>dm_simulatedDDIL := d\<rparr>) = spooled dm"
  "spooled (dm\<lparr>dm_latencyMs := n\<rparr>) = spooled dm" "spooled (dm\<lparr>dm_buffer := []\<rparr>) = []"
  "spooled (truncate_spool fs dm) = spooled dm"
  by (simp_all add: spooled_def)

lemma length_spooled: "length (spooled dm) = length (dm_buffer dm)"
  by (simp add: spooled_def)

lemma well_formed_iff: "mule.well_formed dm \<longleftrightarrow> 0 < dm_maxBuffer dm \<and> length (spooled dm) \<le> dm_maxBuffer dm"
  by (simp add: mule.well_formed_def length_spooled)

section \<open>The mule over any bus\<close>

context message_bus
begin

lemma flush_loop_accepted:
  assumes "flush_loop pub True b pkts n = (b', n', err)"
  shows "\<exists>k \<le> length pkts. n' = n + k \<and> (err = None \<longleftrightarrow> k = length pkts) \<and>
    accepted b' = accepted b @ map (\<lambda>p. sent_as (sp_Topic p) (sp_Payload p)) (take k pkts)"
  using assms
proof (induction pkts arbitrary: b n)
  case (Cons p pkts)
  obtain b1 e where p: "pub b (formatUpstreamTopic (sp_Topic p)) (sp_Payload p) = (b1, e)" by fastforce
  show ?case
  proof (cases e)
    case None
    with p Cons.prems have "flush_loop pub True b1 pkts (n + 1) = (b', n', err)" by simp
    from Cons.IH [OF this] obtain k where "k \<le> length pkts" "n' = n + 1 + k" "err = None \<longleftrightarrow> k = length pkts"
      "accepted b' = accepted b1 @ map (\<lambda>p. sent_as (sp_Topic p) (sp_Payload p)) (take k pkts)" by blast
    with pub_ok [of b _ _ b1] p None show ?thesis
      by (intro exI [of _ "Suc k"]) (simp add: sent_as_def)
  next
    case (Some err')
    with p have "accepted b1 = accepted b" using pub_fail by blast
    with Some p Cons.prems show ?thesis by (intro exI [of _ 0]) auto
  qed
qed simp

lemma Flush_cases:
  assumes "dm_upstream dm" and "Flush pub fs now dm b = (dm', b', n, err)"
  obtains (sent) "err = None" "spooled dm' = []" "accepted b' = accepted b @ spooled dm"
      "n = length (dm_buffer dm)" "dm_status dm' = BackhaulOnline" "dm_syncedTotal dm' = dm_syncedTotal dm + int n"
      "dm_maxBuffer dm' = dm_maxBuffer dm" "dm_upstream dm'" "dm_simulatedDDIL dm' = dm_simulatedDDIL dm"
  | (failed) e where "err = Some e" "n < length (dm_buffer dm)" "accepted b' = accepted b @ take n (spooled dm)"
      "dm' = dm\<lparr>dm_syncedTotal := dm_syncedTotal dm + int n\<rparr>"
proof (cases "dm_buffer dm = []")
  case True
  with assms show ?thesis by (intro sent) (auto simp: Flush_def spooled_def)
next
  case False
  obtain b1 m e where f: "flush_loop pub True b (dm_buffer dm) 0 = (b1, m, e)" by (metis prod_cases3)
  from flush_loop_accepted [OF f] have k: "m \<le> length (dm_buffer dm)" "e = None \<longleftrightarrow> m = length (dm_buffer dm)"
    "accepted b1 = accepted b @ take m (spooled dm)" by (auto simp: spooled_def take_map)
  show ?thesis
  proof (cases e)
    case None
    with assms f False k show ?thesis by (intro sent) (auto simp: Flush_def length_spooled)
  next
    case (Some err')
    with assms f False k show ?thesis by (intro failed) (auto simp: Flush_def)
  qed
qed

lemma Ingest_cases:
  assumes "Ingest pub L now dm b topic payload = (dm', b')"
  obtains (forwarded) "accepted b' = accepted b @ [sent_as topic payload]"
      "dm' = dm\<lparr>dm_syncedTotal := dm_syncedTotal dm + 1, dm_lastSyncTime := now\<rparr>"
      "dm_status dm = BackhaulOnline" "\<not> dm_simulatedDDIL dm"
  | (spooled) dm1 where "accepted b' = accepted b" "dm' = spool L now dm1 topic payload"
      "dm1 = dm \<or> dm1 = dm\<lparr>dm_status := BackhaulDDILBuffering\<rparr>"
proof (cases "dm_status dm = BackhaulOnline \<and> \<not> dm_simulatedDDIL dm \<and> dm_upstream dm")
  case True
  obtain b1 e where p: "pub b (formatUpstreamTopic topic) payload = (b1, e)" by fastforce
  show ?thesis
  proof (cases e)
    case None
    with True p assms pub_ok [of b _ _ b1] show ?thesis by (intro forwarded) (auto simp: Ingest_def sent_as_def)
  next
    case (Some err)
    with True p assms pub_fail [of b _ _ b1] show ?thesis
      by (intro spooled [of "dm\<lparr>dm_status := BackhaulDDILBuffering\<rparr>"]) (auto simp: Ingest_def)
  qed
next
  case False
  with assms show ?thesis by (intro spooled [of dm]) (auto simp: Ingest_def)
qed

text \<open>The mule's state within a run: capacity and upstream bus fixed, spool within capacity.\<close>

definition mule_inv :: "nat \<Rightarrow> DataMule \<Rightarrow> bool" where
  "mule_inv cap dm \<longleftrightarrow> mule.well_formed dm \<and> dm_upstream dm \<and> dm_maxBuffer dm = cap"

lemma Ingest_inv: "mule_inv cap dm \<Longrightarrow> Ingest pub L now dm b t p = (dm', b') \<Longrightarrow> mule_inv cap dm'"
  by (erule Ingest_cases) (auto simp: mule_inv_def well_formed_spool mule.well_formed_def [of "_\<lparr>dm_status := _\<rparr>"]
      mule.well_formed_def [of "_\<lparr>dm_syncedTotal := _, dm_lastSyncTime := _\<rparr>"] mule.well_formed_def [of dm])

lemma Flush_inv: "mule_inv cap dm \<Longrightarrow> Flush pub fs now dm b = (dm', b', n, err) \<Longrightarrow> mule_inv cap dm'"
  by (erule Flush_cases [rotated]) (auto simp: mule_inv_def well_formed_iff)

lemma Simulate_inv:
  "mule_inv cap dm \<Longrightarrow> SetSimulationMode pub fs now dm b d = (dm', b', m) \<Longrightarrow> mule_inv cap dm'"
  by (auto simp: SetSimulationMode_def Let_def mule_inv_def well_formed_iff split: if_splits prod.splits
      dest!: Flush_inv [of cap, rotated])

lemma mule_step_inv: "mule_inv cap dm \<Longrightarrow> mule_step pub L fs (dm, b) e = (dm', b') \<Longrightarrow> mule_inv cap dm'"
  by (cases e) (auto split: prod.splits dest: Ingest_inv Flush_inv Simulate_inv)

text \<open>One event: what the bus accepts and the mule keeps accounts for what was there and what came.\<close>

definition accounts :: "nat \<Rightarrow> DataMule \<times> 'b \<Rightarrow> (string \<times> string) list \<Rightarrow> DataMule \<times> 'b \<Rightarrow> bool" where
  "accounts cap s arrived s' \<longleftrightarrow>
     (case (s, s') of ((dm, b), (dm', b')) \<Rightarrow>
        \<exists>new. accepted b' = accepted b @ new \<and>
          (length (spooled dm) + length arrived \<le> cap \<longrightarrow>
             mset (spooled dm) + mset arrived \<subseteq># mset new + mset (spooled dm')) \<and>
          length (spooled dm') \<le> length (spooled dm) + length arrived \<and>
          set new \<union> set (spooled dm') \<subseteq> set (spooled dm) \<union> set arrived)"

lemma accounts_Ingest:
  assumes "mule_inv cap dm" and "Ingest pub L now dm b t p = (dm', b')"
  shows "accounts cap (dm, b) [sent_as t p] (dm', b')"
  using assms(2)
proof (cases rule: Ingest_cases)
  case forwarded
  then show ?thesis by (auto simp: accounts_def)
next
  case (spooled dm1)
  with assms(1) have w: "mule.well_formed dm1" "spooled dm1 = spooled dm" "dm_maxBuffer dm1 = cap"
    by (auto simp: mule_inv_def well_formed_iff)
  then have "spooled dm' = newest cap (spooled dm @ [sent_as t p])" using spooled(2) by (simp add: spooled_spool)
  then show ?thesis using spooled(1) set_newest [of cap "spooled dm @ [sent_as t p]"]
    by (auto simp: accounts_def)
qed

lemma accounts_Flush:
  assumes "mule_inv cap dm" and "Flush pub fs now dm b = (dm', b', n, err)"
  shows "accounts cap (dm, b) [] (dm', b')"
proof -
  have "dm_upstream dm" using assms(1) by (simp add: mule_inv_def)
  from this assms(2) show ?thesis
    by (cases rule: Flush_cases) (auto simp: accounts_def dest: in_set_takeD)
qed

lemma accounts_step:
  assumes "mule_inv cap dm" and "mule_step pub L fs (dm, b) e = (dm', b')"
  shows "accounts cap (dm, b) (arrivals [e]) (dm', b')"
proof (cases e)
  case (Packet now t p)
  with assms show ?thesis by (simp add: accounts_Ingest)
next
  case (DoFlush now)
  with assms show ?thesis by (auto split: prod.splits intro: accounts_Flush)
next
  case (Simulate now d)
  show ?thesis
  proof (cases d)
    case True
    with assms(2) Simulate show ?thesis by (auto simp: SetSimulationMode_def Let_def accounts_def)
  next
    case False
    let ?dm = "dm\<lparr>dm_simulatedDDIL := False, dm_status := BackhaulOnline, dm_latencyMs := 42\<rparr>"
    obtain n err where f: "Flush pub fs now ?dm b = (dm', b', n, err)"
      using assms(2) Simulate False by (auto simp: SetSimulationMode_def Let_def split: prod.splits)
    have "mule_inv cap ?dm" using assms(1) by (simp add: mule_inv_def well_formed_iff)
    from accounts_Flush [OF this f] show ?thesis using Simulate by (simp add: accounts_def)
  qed
qed

lemma accounts_trans:
  assumes "accounts cap s xs s1" and "accounts cap s1 ys s2"
  shows "accounts cap s (xs @ ys) s2"
proof -
  obtain dm b dm1 b1 dm2 b2 where s: "s = (dm, b)" "s1 = (dm1, b1)" "s2 = (dm2, b2)" by (metis surj_pair)
  from assms obtain new1 new2 where
    a: "accepted b1 = accepted b @ new1" "accepted b2 = accepted b1 @ new2"
    and l: "length (spooled dm1) \<le> length (spooled dm) + length xs" "length (spooled dm2) \<le> length (spooled dm1) + length ys"
    and m1: "length (spooled dm) + length xs \<le> cap \<Longrightarrow> mset (spooled dm) + mset xs \<subseteq># mset new1 + mset (spooled dm1)"
    and m2: "length (spooled dm1) + length ys \<le> cap \<Longrightarrow> mset (spooled dm1) + mset ys \<subseteq># mset new2 + mset (spooled dm2)"
    and st: "set new1 \<union> set (spooled dm1) \<subseteq> set (spooled dm) \<union> set xs" "set new2 \<union> set (spooled dm2) \<subseteq> set (spooled dm1) \<union> set ys"
    unfolding accounts_def s by auto
  have "mset (spooled dm) + mset (xs @ ys) \<subseteq># mset (new1 @ new2) + mset (spooled dm2)"
    if "length (spooled dm) + length (xs @ ys) \<le> cap"
  proof -
    have "mset (spooled dm) + mset xs + mset ys \<subseteq># mset new1 + mset (spooled dm1) + mset ys"
      using m1 that by (simp add: subset_mset.add_mono)
    also have "\<dots> = mset new1 + (mset (spooled dm1) + mset ys)" by (simp add: add.assoc)
    also have "\<dots> \<subseteq># mset new1 + (mset new2 + mset (spooled dm2))"
      using m2 l(1) that by (simp add: subset_mset.add_mono)
    finally show ?thesis by (simp add: add.assoc)
  qed
  then show ?thesis unfolding accounts_def s prod.case
    by (intro exI [of _ "new1 @ new2"]) (use a l st in auto)
qed

lemma accounts_run:
  assumes "mule_inv cap dm" and "mule_run pub L fs (dm, b) es = (dm', b')"
  shows "mule_inv cap dm' \<and> accounts cap (dm, b) (arrivals es) (dm', b')"
  using assms
proof (induction es arbitrary: dm b)
  case Nil
  then show ?case by (auto simp: accounts_def)
next
  case (Cons e es)
  obtain dm1 b1 where s: "mule_step pub L fs (dm, b) e = (dm1, b1)" by fastforce
  with Cons have "mule_inv cap dm' \<and> accounts cap (dm1, b1) (arrivals es) (dm', b')"
    by (auto intro: mule_step_inv)
  moreover have "arrivals (e # es) = arrivals [e] @ arrivals es" by (cases e) simp_all
  ultimately show ?case using accounts_trans [OF accounts_step [OF Cons.prems(1) s]] by metis
qed

text \<open>During a simulated blackout packets only go to the spool.\<close>

lemma blackout_run:
  assumes "mule_inv cap dm" and "dm_simulatedDDIL dm" and "mule_run pub L fs (dm, b) (packets ps) = (dm', b')"
  shows "b' = b \<and> spooled dm' = newest cap (spooled dm @ map (\<lambda>(now, t, p). sent_as t p) ps)"
  using assms
proof (induction ps arbitrary: dm)
  case Nil
  then show ?case by (simp add: packets_def mule_inv_def well_formed_iff)
next
  case (Cons x ps)
  obtain now t p where x: "x = (now, t, p)" by (metis prod_cases3)
  let ?dm = "spool L now dm t p"
  have s: "mule_step pub L fs (dm, b) (Packet now t p) = (?dm, b)" using Cons.prems(2) by (simp add: Ingest_def)
  have i: "mule_inv cap ?dm" using mule_step_inv [OF Cons.prems(1) s] .
  from Cons.prems(3) s have "mule_run pub L fs (?dm, b) (packets ps) = (dm', b')" by (simp add: packets_def x)
  from Cons.IH [OF i _ this] Cons.prems show ?case
    by (simp add: x spooled_spool mule_inv_def newest_append_newest)
qed

end

section \<open>Properties\<close>

lemma rest_inv:
  "dm_upstream dm \<Longrightarrow> length (dm_buffer dm) \<le> dm_maxBuffer dm \<Longrightarrow> 0 < dm_maxBuffer dm \<Longrightarrow>
   rest.mule_inv (dm_maxBuffer dm) dm"
  by (simp add: rest.mule_inv_def well_formed_iff length_spooled)

text \<open>C7. No packet is lost while the spool has room: over any bus run of arrivals, flushes and
  blackouts against a router that may refuse any request, as long as the packets spooled at the start
  and those that arrive fit in the buffer, every one of them is, with its multiplicity, among the
  publications the router accepted or still in the spool; nothing else was published, every key is
  under \<^verbatim>\<open>upstream/\<close>, and the spool never exceeds its capacity.\<close>

theorem store_and_forward:
  assumes "dm_upstream dm" and "length (dm_buffer dm) \<le> dm_maxBuffer dm" and "0 < dm_maxBuffer dm"
    and "mule_run publish_rest L fs (dm, r) es = (dm', r')"
  shows "\<exists>new. rs_accepted r' = rs_accepted r @ new \<and>
    set new \<union> set (spooled dm') \<subseteq> set (spooled dm) \<union> set (arrivals es) \<and>
    length (dm_buffer dm') \<le> dm_maxBuffer dm \<and>
    (length (dm_buffer dm) + length (arrivals es) \<le> dm_maxBuffer dm \<longrightarrow>
       mset (spooled dm) + mset (arrivals es) \<subseteq># mset new + mset (spooled dm'))"
  using rest.accounts_run [OF rest_inv [OF assms(1-3)] assms(4)]
  by (auto simp: rest.accounts_def rest.mule_inv_def well_formed_iff length_spooled)

definition sample_mule :: "nat \<Rightarrow> DataMule" where
  "sample_mule cap =
     \<lparr>dm_status = BackhaulOnline, dm_cloudTarget = ''cloud'', dm_spoolFile = None, dm_spoolFilePath = '''',
      dm_buffer = [], dm_maxBuffer = cap, dm_latencyMs = 38, dm_syncedTotal = 0, dm_lastSyncTime = 0,
      dm_simulatedDDIL = False, dm_upstream = True\<rparr>"

definition sample_rest :: "response list \<Rightarrow> rest_state" where
  "sample_rest answers = \<lparr>rs_client = NewRESTClient ''http://r'', rs_answers = answers, rs_accepted = []\<rparr>"

abbreviation up :: response where "up \<equiv> Inr (200, '''')"
abbreviation down :: response where "down \<equiv> Inl ''timeout''"

lemmas mule_eval = sample_mule_def sample_rest_def publish_rest_def Publish_rest_def Ingest_def Flush_def
  SetSimulationMode_def spool_def store_packet_def persist_def truncate_spool_def sent_as_def spooled_def Let_def

theorem store_and_forward_witness:
  "\<forall>L fs. \<exists>dm' r'. mule_run publish_rest L fs (sample_mule 2, sample_rest [up, down, up])
      [Packet 1 ''a'' ''x'', Packet 2 ''b'' ''y'', DoFlush 3] = (dm', r') \<and>
    {#sent_as ''a'' ''x'', sent_as ''b'' ''y''#} \<subseteq># mset (rs_accepted r') + mset (spooled dm')"
proof (intro allI)
  fix L fs
  let ?es = "[Packet 1 ''a'' ''x'', Packet 2 ''b'' ''y'', DoFlush 3]"
  obtain dm' r' where r: "mule_run publish_rest L fs (sample_mule 2, sample_rest [up, down, up]) ?es = (dm', r')"
    by (metis surj_pair)
  have "rs_accepted (sample_rest [up, down, up]) = []" "dm_buffer (sample_mule 2) = []" "spooled (sample_mule 2) = []"
    by (simp_all add: sample_rest_def sample_mule_def spooled_def)
  with store_and_forward [OF _ _ _ r] have "{#sent_as ''a'' ''x'', sent_as ''b'' ''y''#} \<subseteq># mset (rs_accepted r') + mset (spooled dm')"
    by (auto simp: sample_mule_def)
  with r show "\<exists>dm' r'. mule_run publish_rest L fs (sample_mule 2, sample_rest [up, down, up]) ?es = (dm', r') \<and>
    {#sent_as ''a'' ''x'', sent_as ''b'' ''y''#} \<subseteq># mset (rs_accepted r') + mset (spooled dm')" by blast
qed

text \<open>C31. A blackout and its end: whatever arrives during a simulated blackout stays off the bus, and
  the next flush sends the newest packets the spool can hold, oldest first, each once, up to the first
  one the router refuses; if none is refused the spool is empty and the link online, otherwise the
  spool still holds all of them.\<close>

theorem blackout_then_flush:
  assumes "dm_upstream dm" and "length (dm_buffer dm) \<le> dm_maxBuffer dm" and "0 < dm_maxBuffer dm"
    and "dm_simulatedDDIL dm" and "mule_run publish_rest L fs (dm, r) (packets ps) = (dm1, r1)"
    and "Flush publish_rest fs now dm1 r1 = (dm2, r2, n, err)"
  shows "rs_accepted r1 = rs_accepted r \<and>
    spooled dm1 = newest (dm_maxBuffer dm) (spooled dm @ map (\<lambda>(now, t, p). sent_as t p) ps) \<and>
    rs_accepted r2 = rs_accepted r @ take n (spooled dm1) \<and>
    (case err of
       None \<Rightarrow> n = length (spooled dm1) \<and> spooled dm2 = [] \<and> dm_status dm2 = BackhaulOnline
     | Some e \<Rightarrow> n < length (spooled dm1) \<and> spooled dm2 = spooled dm1)"
proof -
  note i = rest_inv [OF assms(1-3)]
  from rest.blackout_run [OF i assms(4,5)] rest.accounts_run [OF i assms(5)]
  have 1: "r1 = r" "spooled dm1 = newest (dm_maxBuffer dm) (spooled dm @ map (\<lambda>(now, t, p). sent_as t p) ps)"
    "dm_upstream dm1" by (auto simp: rest.mule_inv_def)
  from 1(3) assms(6) show ?thesis
    by (cases rule: rest.Flush_cases) (use 1(1,2) in \<open>simp_all add: length_spooled [symmetric]\<close>)
qed

theorem blackout_then_flush_witness:
  "\<forall>L fs. \<exists>dm1 r1 dm2 r2 n err. mule_run publish_rest L fs (sample_mule 2\<lparr>dm_simulatedDDIL := True\<rparr>, sample_rest [up, up])
      (packets [(1, ''a'', ''x''), (2, ''b'', ''y''), (3, ''c'', ''z'')]) = (dm1, r1) \<and>
    Flush publish_rest fs 4 dm1 r1 = (dm2, r2, n, err) \<and> rs_accepted r1 = [] \<and>
    spooled dm1 = [sent_as ''b'' ''y'', sent_as ''c'' ''z''] \<and> rs_accepted r2 = take n (spooled dm1)"
proof (intro allI)
  fix L fs
  let ?s = "sample_mule 2\<lparr>dm_simulatedDDIL := True\<rparr>"
  let ?ps = "[(1, ''a'', ''x''), (2, ''b'', ''y''), (3, ''c'', ''z'')]"
  obtain dm1 r1 where r: "mule_run publish_rest L fs (?s, sample_rest [up, up]) (packets ?ps) = (dm1, r1)"
    by (metis surj_pair)
  obtain dm2 r2 n err where f: "Flush publish_rest fs 4 dm1 r1 = (dm2, r2, n, err)" by (metis prod_cases4)
  from blackout_then_flush [OF _ _ _ _ r f]
  have "rs_accepted r1 = []" "spooled dm1 = [sent_as ''b'' ''y'', sent_as ''c'' ''z'']" "rs_accepted r2 = take n (spooled dm1)"
    by (auto simp: sample_mule_def sample_rest_def spooled_def newest_def)
  with r f show "\<exists>dm1 r1 dm2 r2 n err. mule_run publish_rest L fs (?s, sample_rest [up, up]) (packets ?ps) = (dm1, r1) \<and>
    Flush publish_rest fs 4 dm1 r1 = (dm2, r2, n, err) \<and> rs_accepted r1 = [] \<and>
    spooled dm1 = [sent_as ''b'' ''y'', sent_as ''c'' ''z''] \<and> rs_accepted r2 = take n (spooled dm1)" by blast
qed

text \<open>A flush that fails half way keeps the packets it has sent: the retry sends them again, so
  the router receives each of them twice, and the sync counter counts both.\<close>

theorem failed_flush_duplicates:
  assumes "dm_upstream dm" and "Flush publish_rest fs now dm r = (dm1, r1, n, Some e)"
    and "Flush publish_rest fs later dm1 r1 = (dm2, r2, m, None)"
  shows "rs_accepted r2 = rs_accepted r @ take n (spooled dm) @ spooled dm \<and>
    dm_syncedTotal dm2 = dm_syncedTotal dm + int n + int (length (spooled dm))"
  using assms(1,2)
proof (cases rule: rest.Flush_cases)
  case (failed e')
  then have "dm_upstream dm1" using assms(1) by simp
  from this assms(3) failed show ?thesis
    by (cases rule: rest.Flush_cases) (auto simp: length_spooled)
qed simp

definition two_spooled :: DataMule where
  "two_spooled = sample_mule 2\<lparr>dm_buffer :=
     [\<lparr>sp_ID = ''1'', sp_Topic = ''a'', sp_Payload = ''x'', sp_Timestamp = 1\<rparr>,
      \<lparr>sp_ID = ''2'', sp_Topic = ''b'', sp_Payload = ''y'', sp_Timestamp = 2\<rparr>]\<rparr>"

theorem failed_flush_duplicates_witness:
  "\<forall>fs. \<exists>dm1 r1 n e dm2 r2 m.
    Flush publish_rest fs 3 two_spooled (sample_rest [up, down, up, up]) = (dm1, r1, n, Some e) \<and>
    Flush publish_rest fs 4 dm1 r1 = (dm2, r2, m, None) \<and>
    rs_accepted r2 = [sent_as ''a'' ''x'', sent_as ''a'' ''x'', sent_as ''b'' ''y''] \<and> dm_syncedTotal dm2 = 3"
proof
  fix fs
  obtain dm1 r1 e where f: "Flush publish_rest fs 3 two_spooled (sample_rest [up, down, up, up]) = (dm1, r1, 1, Some e)"
    by (simp add: two_spooled_def mule_eval)
  have "\<exists>dm2 r2 m. Flush publish_rest fs 4 dm1 r1 = (dm2, r2, m, None)"
    using f by (auto simp: two_spooled_def mule_eval)
  then obtain dm2 r2 m where g: "Flush publish_rest fs 4 dm1 r1 = (dm2, r2, m, None)" by blast
  have "dm_upstream two_spooled" by (simp add: two_spooled_def sample_mule_def)
  from failed_flush_duplicates [OF this f g]
  have "rs_accepted r2 = [sent_as ''a'' ''x'', sent_as ''a'' ''x'', sent_as ''b'' ''y''] \<and> dm_syncedTotal dm2 = 3"
    by (simp add: two_spooled_def sample_mule_def sample_rest_def spooled_def)
  with f g show "\<exists>dm1 r1 n e dm2 r2 m.
    Flush publish_rest fs 3 two_spooled (sample_rest [up, down, up, up]) = (dm1, r1, n, Some e) \<and>
    Flush publish_rest fs 4 dm1 r1 = (dm2, r2, m, None) \<and>
    rs_accepted r2 = [sent_as ''a'' ''x'', sent_as ''a'' ''x'', sent_as ''b'' ''y''] \<and> dm_syncedTotal dm2 = 3"
    by blast
qed

end
