(* ===== verification/Gateway.thy ===== *)
theory Gateway
  imports Data_Mule "HOL-Library.AList"
begin

text \<open>
  \<^verbatim>\<open>cmd/c2-gateway/main.go\<close>: the operators' gateway. It keeps the latest telemetry and the
  breadcrumbs of every vehicle, feeds the data mule, relays packets to the dashboards through the hub,
  and dispatches commands and test packets. Handlers get the HTTP method and the decoded request (or
  the decoder's error) and answer with a status and an error text or a JSON value. A map keyed by
  strings is an association list; connections are values of any type. The hub is a state machine whose
  steps are the cases of its select; a blocking send on its queue is an enqueue.
\<close>

section \<open>Hub\<close>

record 'c Hub =
  hub_clients :: "'c list"
  hub_broadcast :: "string list"
  hub_closed :: "'c list"
  hub_out :: "('c \<times> string) list"

definition newHub :: "'c Hub" where
  "newHub = \<lparr>hub_clients = [], hub_broadcast = [], hub_closed = [], hub_out = []\<rparr>"

definition hub_register :: "'c \<Rightarrow> 'c Hub \<Rightarrow> 'c Hub" where
  "hub_register c h = h\<lparr>hub_clients := List.insert c (hub_clients h)\<rparr>"

definition hub_unregister :: "'c \<Rightarrow> 'c Hub \<Rightarrow> 'c Hub" where
  "hub_unregister c h =
     (if c \<in> set (hub_clients h)
      then h\<lparr>hub_clients := removeAll c (hub_clients h), hub_closed := c # hub_closed h\<rparr> else h)"

text \<open>\<open>writable c m\<close> says whether the write to the connection succeeds.\<close>

definition hub_deliver :: "('c \<Rightarrow> string \<Rightarrow> bool) \<Rightarrow> string \<Rightarrow> 'c Hub \<Rightarrow> 'c Hub" where
  "hub_deliver writable message h =
     h\<lparr>hub_clients := filter (\<lambda>c. writable c message) (hub_clients h),
       hub_closed := filter (\<lambda>c. \<not> writable c message) (hub_clients h) @ hub_closed h,
       hub_out := hub_out h @ map (\<lambda>c. (c, message)) (filter (\<lambda>c. writable c message) (hub_clients h))\<rparr>"

definition hub_stop :: "'c Hub \<Rightarrow> 'c Hub" where
  "hub_stop h = h\<lparr>hub_clients := [], hub_closed := hub_clients h @ hub_closed h\<rparr>"

text \<open>The queue between the handlers and the hub holds 256 messages; a sender waits while it is full.\<close>

definition broadcast_cap :: nat where "broadcast_cap = 256"

inductive hub_run :: "('c \<Rightarrow> string \<Rightarrow> bool) \<Rightarrow> 'c Hub \<Rightarrow> 'c Hub \<Rightarrow> bool" for writable where
  register: "hub_run writable h (hub_register c h)"
| unregister: "hub_run writable h (hub_unregister c h)"
| send: "length (hub_broadcast h) < broadcast_cap \<Longrightarrow>
    hub_run writable h (h\<lparr>hub_broadcast := hub_broadcast h @ [message]\<rparr>)"
| broadcast: "hub_broadcast h = message # rest \<Longrightarrow>
    hub_run writable h (hub_deliver writable message (h\<lparr>hub_broadcast := rest\<rparr>))"

section \<open>Gateway\<close>

record VehicleState_gw =
  gv_Telemetry :: TelemetryPayload
  gv_Header :: SecurityHeader
  gv_LastSeen :: int
  gv_TrackPoints :: "Coordinates list"

record 'c Gateway =
  gw_hub :: "'c Hub"
  gw_fleet :: "(string \<times> VehicleState_gw) list"
  gw_cdsProxyURL :: string
  gw_mule :: "DataMule option"

text \<open>Without a mule, or with a nil one, a default mule is made; its error is ignored.\<close>

definition NewGateway :: "golib \<Rightarrow> filesystem \<Rightarrow> int \<Rightarrow> string \<Rightarrow> DataMule option \<Rightarrow> 'c Gateway" where
  "NewGateway L fs now cdsProxyURL muleOptional =
     \<lparr>gw_hub = newHub, gw_fleet = [], gw_cdsProxyURL = cdsProxyURL,
      gw_mule = (case muleOptional of
                   Some mule \<Rightarrow> Some mule
                 | None \<Rightarrow>
                     (case NewDataMule L fs now ''logs/data-mule-spool.jsonl'' 5000 ''relay.platformstaq.com'' True of
                        Some (Inr mule) \<Rightarrow> Some mule | _ \<Rightarrow> None))\<rparr>"

text \<open>The update of a vehicle's entry: a fresh one has no points.\<close>

definition track_limit :: nat where "track_limit = 50"

definition add_point :: "Coordinates list \<Rightarrow> Coordinates \<Rightarrow> Coordinates list" where
  "add_point ps p =
     (let ps = ps @ [p] in if length ps > track_limit then drop 1 ps else ps)"

definition crumbs :: "VehicleState_gw option \<Rightarrow> Coordinates list" where
  "crumbs old = (case old of None \<Rightarrow> [] | Some st \<Rightarrow> gv_TrackPoints st)"

definition update_fleet ::
  "int \<Rightarrow> TelemetryPayload \<Rightarrow> SecurityHeader \<Rightarrow> (string \<times> VehicleState_gw) list \<Rightarrow> (string \<times> VehicleState_gw) list" where
  "update_fleet now t h fleet =
     AList.update (VehicleID t)
       \<lparr>gv_Telemetry = t, gv_Header = h, gv_LastSeen = now,
        gv_TrackPoints = add_point (crumbs (map_of fleet (VehicleID t))) (Coords t)\<rparr>
       fleet"

text \<open>The send on the hub's channel. The channel holds \<open>broadcast_cap\<close> messages and a sender waits while it
  is full; the model appends, as if the sender had gone on when its message was taken: what is delivered and in
  which order is the same, how long a handler waits, or that it waits for ever once the hub has stopped, is
  not modelled.\<close>

definition enqueue :: "string \<Rightarrow> 'c Gateway \<Rightarrow> 'c Gateway" where
  "enqueue m g = g\<lparr>gw_hub := (gw_hub g)\<lparr>hub_broadcast := hub_broadcast (gw_hub g) @ [m]\<rparr>\<rparr>"

definition ignored_key :: "string \<Rightarrow> bool" where
  "ignored_key key \<longleftrightarrow> HasPrefix key ''upstream/'' \<or> HasPrefix key ''cloud/''"

definition handleTelemetry ::
  "('b \<Rightarrow> string \<Rightarrow> string \<Rightarrow> 'b \<times> string option) \<Rightarrow> (string \<Rightarrow> string + SecurityEnvelope) \<Rightarrow> golib
     \<Rightarrow> int \<Rightarrow> int \<Rightarrow> 'c Gateway \<Rightarrow> 'b \<Rightarrow> string \<Rightarrow> string \<Rightarrow> 'c Gateway \<times> 'b" where
  "handleTelemetry pub unmarshal L now1 now2 g b key payload =
     (if ignored_key key then (g, b)
      else (case ParseJSONEnvelope unmarshal payload of
              Inl err \<Rightarrow> (g, b)
            | Inr env \<Rightarrow>
                (case Telemetry env of
                   None \<Rightarrow> (g, b)
                 | Some t \<Rightarrow>
                     (let (mule, b) = (case gw_mule g of
                                         None \<Rightarrow> (None, b)
                                       | Some dm \<Rightarrow> (case Ingest pub L now1 dm b key payload of
                                                       (dm, b) \<Rightarrow> (Some dm, b)))
                      in (enqueue payload (g\<lparr>gw_mule := mule,
                            gw_fleet := update_fleet now2 t (Header env) (gw_fleet g)\<rparr>), b)))))"

type_synonym reply = "int \<times> (string + json)"

definition reply_error :: "int \<Rightarrow> string \<Rightarrow> reply" where
  "reply_error code text = (code, Inl text)"

definition json_vehicle :: "golib \<Rightarrow> VehicleState_gw \<Rightarrow> json" where
  "json_vehicle L st =
     JObj [(''telemetry'', json_telemetry (gv_Telemetry st)), (''header'', json_header (gv_Header st)),
           (''last_seen'', JRaw ([CHR 0x22] @ fmt_time L (gv_LastSeen st) @ [CHR 0x22])),
           (''track_points'', JArr (map json_coords (gv_TrackPoints st)))]"

definition handleFleet :: "golib \<Rightarrow> 'c Gateway \<Rightarrow> reply" where
  "handleFleet L g = (200, Inr (JMap (map (\<lambda>(k, st). (k, json_vehicle L st)) (gw_fleet g))))"

fun status_text :: "BackhaulStatus \<Rightarrow> string" where
  "status_text BackhaulOnline = ''ONLINE''"
| "status_text BackhaulDegraded = ''DEGRADED''"
| "status_text BackhaulDDILBuffering = ''DDIL_BUFFERING''"

definition json_metrics :: "golib \<Rightarrow> BackhaulMetrics \<Rightarrow> json" where
  "json_metrics L m =
     JObj [(''status'', JStr (status_text (bm_Status m))), (''cloud_target'', JStr (bm_CloudTarget m)),
           (''latency_ms'', JInt (bm_LatencyMs m)), (''spooled_packets'', JInt (int (bm_SpooledPackets m))),
           (''spooled_bytes'', JInt (int (bm_SpooledBytes m))), (''synced_total'', JInt (bm_SyncedTotal m)),
           (''last_sync_time'', JRaw ([CHR 0x22] @ fmt_time L (bm_LastSyncTime m) @ [CHR 0x22])),
           (''simulated_mode'', JBool (bm_SimulatedMode m))]"

definition handleBackhaul :: "golib \<Rightarrow> 'c Gateway \<Rightarrow> reply" where
  "handleBackhaul L g =
     (case gw_mule g of
        None \<Rightarrow> reply_error 503 ''data mule not configured''
      | Some dm \<Rightarrow> (200, Inr (json_metrics L (Metrics dm))))"

definition handleBackhaulSimulate ::
  "('b \<Rightarrow> string \<Rightarrow> string \<Rightarrow> 'b \<times> string option) \<Rightarrow> golib \<Rightarrow> filesystem \<Rightarrow> int \<Rightarrow> 'c Gateway \<Rightarrow> 'b \<Rightarrow> string
     \<Rightarrow> string + bool \<Rightarrow> reply \<times> 'c Gateway \<times> 'b" where
  "handleBackhaulSimulate pub L fs now g b verb req =
     (if verb \<noteq> ''POST'' then (reply_error 405 ''Method not allowed'', g, b)
      else (case gw_mule g of
              None \<Rightarrow> (reply_error 503 ''data mule not configured'', g, b)
            | Some dm \<Rightarrow>
                (case req of
                   Inl err \<Rightarrow> (reply_error 400 (''invalid json: '' @ err), g, b)
                 | Inr ddilActive \<Rightarrow>
                     (case SetSimulationMode pub fs now dm b ddilActive of
                        (dm, b, m) \<Rightarrow> ((200, Inr (json_metrics L m)), g\<lparr>gw_mule := Some dm\<rparr>, b)))))"

record CommandRequest =
  cr_TargetVehicle :: string
  cr_CommandType :: string
  cr_Parameters :: "(string \<times> json) list option"

text \<open>Who may be commanded: a vehicle of the fleet on the blue team; one that is not in the fleet by its
  name.\<close>

definition is_blue_target :: "string \<Rightarrow> bool" where
  "is_blue_target v \<longleftrightarrow> HasPrefix v ''blue-'' \<or> v = ''alpha'' \<or> v = ''bravo'' \<or> v = ''charlie'' \<or> v = ''delta'' \<or> v = ''echo''"

definition authorised :: "'c Gateway \<Rightarrow> string \<Rightarrow> bool" where
  "authorised g v \<longleftrightarrow>
     (case map_of (gw_fleet g) v of
        Some st \<Rightarrow> Team (gv_Telemetry st) = ''blue''
      | None \<Rightarrow> is_blue_target v \<and> \<not> HasPrefix v ''red-'')"

definition command_payload :: "int \<Rightarrow> int \<Rightarrow> CommandRequest \<Rightarrow> CommandPayload" where
  "command_payload n1 n2 req =
     \<lparr>CommandID = ''cmd-'' @ fmt_d n1, TargetVehicle = cr_TargetVehicle req, CommandType = cr_CommandType req,
      Parameters = cr_Parameters req, IssuedAtNs = n2, Issuer = ''Tactical-COP-Operator''\<rparr>"

definition handleCommand ::
  "('b \<Rightarrow> string \<Rightarrow> string \<Rightarrow> 'b \<times> string option) \<Rightarrow> golib \<Rightarrow> int \<Rightarrow> int \<Rightarrow> int \<Rightarrow> int \<Rightarrow> 'c Gateway \<Rightarrow> 'b
     \<Rightarrow> string \<Rightarrow> string + CommandRequest \<Rightarrow> (reply \<times> 'b) option" where
  "handleCommand pub L n1 n2 n3 n4 g b verb body =
     (if verb \<noteq> ''POST'' then Some (reply_error 405 ''Method not allowed'', b)
      else (case body of
              Inl err \<Rightarrow> Some (reply_error 400 (''invalid json: '' @ err), b)
            | Inr req \<Rightarrow>
                (if cr_TargetVehicle req = '''' \<or> cr_CommandType req = ''''
                 then Some (reply_error 400 ''target_vehicle and command_type required'', b)
                 else if \<not> authorised g (cr_TargetVehicle req)
                 then Some (reply_error 403 (''unauthorized target vehicle: '' @ cr_TargetVehicle req @
                        '' (C2 dispatch restricted to friendly blue fleet)''), b)
                 else let cmdPayload = command_payload n1 n2 req
                      in (case NewCommandEnvelope L n3 n4 Tier2Restricted ''tactical-c2-gateway'' cmdPayload
                                 [''OPERATOR_COMMAND''] of
                            None \<Rightarrow> None
                          | Some (Inl err) \<Rightarrow> Some (reply_error 500 (''generating command envelope: '' @ err), b)
                          | Some (Inr cmdEnv) \<Rightarrow>
                              (case Marshal (json_envelope cmdEnv) of
                                 None \<Rightarrow> None
                               | Some (Inl err) \<Rightarrow> Some (reply_error 500 (''marshalling command: '' @ err), b)
                               | Some (Inr cmdBytes) \<Rightarrow>
                                   (let topic = BuildKey L ''tier2'' ''drone'' ''blue'' (cr_TargetVehicle req) ''command''
                                    in (case pub b topic cmdBytes of
                                          (b, Some err) \<Rightarrow>
                                            Some (reply_error 500 (''publishing command to Zenoh: '' @ err), b)
                                        | (b, None) \<Rightarrow>
                                            Some ((200, Inr (JMap
                                               [(''status'', JStr ''DISPATCHED''),
                                                (''command_id'', JStr (CommandID cmdPayload)),
                                                (''topic'', JStr topic)])), b))))))))"

record InjectRequest =
  ir_Tier :: string
  ir_Tamper :: bool
  ir_TargetVehicle :: string

definition synthetic_tier :: "string \<Rightarrow> string" where
  "synthetic_tier tier =
     (if tier \<noteq> Tier3Critical \<and> tier \<noteq> Tier2Restricted \<and> tier \<noteq> Tier1Public then Tier3Critical else tier)"

definition synthetic_telemetry :: "int \<Rightarrow> string \<Rightarrow> TelemetryPayload" where
  "synthetic_telemetry now vehicleID =
     \<lparr>VehicleID = vehicleID, VehicleType = ''drone'', Team = ''blue'', State = ''INJECTED_TEST'',
      BatteryPct = lit 95,
      Coords = \<lparr>Latitude = lit (31625 / 1000), Longitude = lit (- 8082 / 1000), AltitudeM = lit 135\<rparr>,
      Vel = \<lparr>VX = 0, VY = 0, VZ = 0, SpeedMps = lit 14\<rparr>, HeadingDeg = lit 90, MissionPayload = None,
      Sequence = of_int now\<rparr>"

definition tier_token :: "string \<Rightarrow> string" where
  "tier_token tier =
     (if tier = Tier3Critical then ''tier3'' else if tier = Tier2Restricted then ''tier2'' else ''tier1'')"

definition zero_digest :: string where
  "zero_digest = replicate 64 CHR ''0''"

definition tampered :: "bool \<Rightarrow> SecurityEnvelope \<Rightarrow> SecurityEnvelope" where
  "tampered tamper e = (if tamper then e\<lparr>Header := (Header e)\<lparr>Digest := zero_digest\<rparr>\<rparr> else e)"

definition handleInject ::
  "('b \<Rightarrow> string \<Rightarrow> string \<Rightarrow> 'b \<times> string option) \<Rightarrow> golib \<Rightarrow> int \<Rightarrow> int \<Rightarrow> int \<Rightarrow> 'b
     \<Rightarrow> string \<Rightarrow> string + InjectRequest \<Rightarrow> (reply \<times> 'b) option" where
  "handleInject pub L n1 n2 n3 b verb body =
     (if verb \<noteq> ''POST'' then Some (reply_error 405 ''Method not allowed'', b)
      else (case body of
              Inl err \<Rightarrow> Some (reply_error 400 (''invalid json: '' @ err), b)
            | Inr req \<Rightarrow>
                (let vehicleID = (if ir_TargetVehicle req = '''' then ''sim-probe-1'' else ir_TargetVehicle req);
                     synthTier = synthetic_tier (ir_Tier req);
                     telem = synthetic_telemetry n1 vehicleID
                 in (case NewTelemetryEnvelope L n2 n3 synthTier ''synthetic-cop-injector'' telem [''TEST_INJECTION''] of
                       None \<Rightarrow> None
                     | Some (Inl err) \<Rightarrow> Some (reply_error 500 (''building envelope: '' @ err), b)
                     | Some (Inr env) \<Rightarrow>
                         (let env = tampered (ir_Tamper req) env
                          in (case Marshal (json_envelope env) of
                                None \<Rightarrow> None
                              | Some (Inl err) \<Rightarrow> Some (reply_error 500 (''marshalling envelope: '' @ err), b)
                              | Some (Inr data) \<Rightarrow>
                                  (let topic = BuildKey L (tier_token synthTier) ''drone'' ''blue'' vehicleID ''telemetry''
                                   in (case pub b topic data of
                                         (b, Some err) \<Rightarrow>
                                           Some (reply_error 500 (''publishing to Zenoh: '' @ err), b)
                                       | (b, None) \<Rightarrow>
                                           Some ((200, Inr (JMap
                                              [(''status'', JStr ''INJECTED''), (''topic'', JStr topic),
                                               (''tier'', JStr synthTier), (''tamper'', JBool (ir_Tamper req)),
                                               (''vehicle'', JStr vehicleID)])), b)))))))))"

text \<open>\<open>new_request url\<close> is the error of making the request to the guard, if any; \<open>get url\<close> sends it: an
  error, or a status and a body, which are relayed.\<close>

definition handleDLQ :: "(string \<Rightarrow> string option) \<Rightarrow> (string \<Rightarrow> response) \<Rightarrow> 'c Gateway \<Rightarrow> string \<Rightarrow> reply" where
  "handleDLQ new_request get g verb =
     (if verb \<noteq> ''GET'' then reply_error 405 ''Method not allowed''
      else if gw_cdsProxyURL g = '''' then (200, Inr (JArr []))
      else let targetURL = trim_right slash (gw_cdsProxyURL g) @ ''/dlq''
           in (case new_request targetURL of
                 Some err \<Rightarrow> reply_error 500 (''creating proxy request: '' @ err)
               | None \<Rightarrow>
                   (case get targetURL of
                      Inl err \<Rightarrow> reply_error 503 (''CDS Guard unavailable: '' @ err)
                    | Inr (status, body) \<Rightarrow> (status, Inr (JRaw body)))))"

text \<open>A dashboard connects: unless the upgrade fails the connection is registered, and unregistered once a
  read fails. \<open>reads\<close> are the results of its reads; while they all succeed the connection stays.\<close>

fun ws_reader :: "(string + string) list \<Rightarrow> bool" where
  "ws_reader [] = False"
| "ws_reader (Inl err # reads) = True"
| "ws_reader (Inr message # reads) = ws_reader reads"

definition handleWS :: "string + 'c \<Rightarrow> (string + string) list \<Rightarrow> 'c Gateway \<Rightarrow> 'c Gateway" where
  "handleWS upgrade reads g =
     (case upgrade of
        Inl err \<Rightarrow> g
      | Inr conn \<Rightarrow>
          (let hub = hub_register conn (gw_hub g);
               hub = (if ws_reader reads then hub_unregister conn hub else hub)
           in g\<lparr>gw_hub := hub\<rparr>))"

text \<open>The periodic broadcast of the link metrics, and the health page.\<close>

definition backhaul_tick :: "golib \<Rightarrow> 'c Gateway \<Rightarrow> 'c Gateway" where
  "backhaul_tick L g =
     (case gw_mule g of
        None \<Rightarrow> g
      | Some dm \<Rightarrow>
          (case Marshal (JObj [(''type'', JStr ''backhaul_status''), (''metrics'', json_metrics L (Metrics dm))]) of
             Some (Inr msg) \<Rightarrow> enqueue msg g
           | _ \<Rightarrow> g))"

text \<open>What \<^verbatim>\<open>main\<close> sets up: the bus (in memory or REST), the mule, whose error leaves the
  gateway to make its own, the gateway, and its subscription \<open>h\<close> to the telemetry selector.\<close>

definition start_gateway ::
  "golib \<Rightarrow> filesystem \<Rightarrow> int \<Rightarrow> int \<Rightarrow> bool \<Rightarrow> string \<Rightarrow> string \<Rightarrow> string \<Rightarrow> string \<Rightarrow> string \<Rightarrow> 'h
     \<Rightarrow> string + ('c Gateway \<times> ('h MemoryBus + RESTClient))" where
  "start_gateway L fs now1 now2 mockBus routerURL spoolFile cloudTarget cdsProxyURL telemetrySelector h =
     (let bus = (if mockBus then Inl NewMemoryBus else Inr (NewRESTClient routerURL));
          mule = (case NewDataMule L fs now1 spoolFile 5000 cloudTarget True of
                    Some (Inr mule) \<Rightarrow> Some mule | _ \<Rightarrow> None);
          gw = NewGateway L fs now2 cdsProxyURL mule
      in (case bus of
            Inl m \<Rightarrow>
              (case Subscribe m telemetrySelector h of
                 Inl err \<Rightarrow> Inl (''subscribing to telemetry stream: '' @ err)
               | Inr m \<Rightarrow> Inr (gw, Inl m))
          | Inr r \<Rightarrow> Inr (gw, Inr r)))"

text \<open>Shutting down closes the mule; as \<^verbatim>\<open>main\<close> returns, its deferred call closes the bus. The
  REST client's \<^verbatim>\<open>Close\<close> does nothing.\<close>

definition stop_gateway ::
  "'c Gateway \<times> ('h MemoryBus + RESTClient) \<Rightarrow> 'c Gateway \<times> ('h MemoryBus + RESTClient)" where
  "stop_gateway = (\<lambda>(g, bus).
     (case gw_mule g of None \<Rightarrow> g | Some dm \<Rightarrow> g\<lparr>gw_mule := Some (Close_mule dm)\<rparr>,
      case bus of Inl m \<Rightarrow> Inl (Close_bus m) | Inr r \<Rightarrow> Inr r))"

definition gateway_health :: json where
  "gateway_health = JMap [(''status'', JStr ''ONLINE''), (''service'', JStr ''c2-gateway'')]"

section \<open>Breadcrumbs\<close>

lemma add_point_newest:
  assumes "length ps \<le> track_limit"
  shows "add_point ps p = newest track_limit (ps @ [p])"
proof (cases "length ps = 50")
  case True
  then show ?thesis by (simp add: add_point_def newest_def track_limit_def)
next
  case False
  with assms have "length ps \<le> 49" by (simp add: track_limit_def)
  then show ?thesis by (simp add: add_point_def newest_def track_limit_def)
qed

interpretation track: bounded_fifo add_point id "\<lambda>_. track_limit"
  by unfold_locales (simp_all add: add_point_newest)

text \<open>The telemetry a packet carries for the gateway: its payload and header, unless it is ignored.\<close>

definition seen :: "(string \<Rightarrow> string + SecurityEnvelope) \<Rightarrow> string \<Rightarrow> string \<Rightarrow> (TelemetryPayload \<times> SecurityHeader) option" where
  "seen unmarshal key payload =
     (if ignored_key key then None
      else case unmarshal payload of Inl err \<Rightarrow> None | Inr env \<Rightarrow> map_option (\<lambda>t. (t, Header env)) (Telemetry env))"

lemma handleTelemetry_seen:
  assumes "handleTelemetry pub unmarshal L n1 n2 g b key payload = (g', b')"
  shows "case seen unmarshal key payload of
      None \<Rightarrow> g' = g \<and> b' = b
    | Some (t, h) \<Rightarrow> gw_fleet g' = update_fleet n2 t h (gw_fleet g) \<and>
        hub_broadcast (gw_hub g') = hub_broadcast (gw_hub g) @ [payload]"
  using assms
  by (auto simp: handleTelemetry_def seen_def ParseJSONEnvelope_def enqueue_def Let_def
      split: if_splits sum.splits option.splits prod.splits)

lemma map_of_update_fleet:
  "map_of (update_fleet now t h fleet) v =
     (if v = VehicleID t
      then Some \<lparr>gv_Telemetry = t, gv_Header = h, gv_LastSeen = now,
             gv_TrackPoints = add_point (crumbs (map_of fleet v)) (Coords t)\<rparr>
      else map_of fleet v)"
  by (simp add: update_fleet_def update_conv)

text \<open>A run of packets, and the log of what it carried for one vehicle.\<close>

fun telemetry_run ::
  "('b \<Rightarrow> string \<Rightarrow> string \<Rightarrow> 'b \<times> string option) \<Rightarrow> (string \<Rightarrow> string + SecurityEnvelope) \<Rightarrow> golib
     \<Rightarrow> 'c Gateway \<times> 'b \<Rightarrow> (int \<times> int \<times> string \<times> string) list \<Rightarrow> 'c Gateway \<times> 'b" where
  "telemetry_run pub unmarshal L s [] = s"
| "telemetry_run pub unmarshal L (g, b) ((n1, n2, key, payload) # ps) =
     telemetry_run pub unmarshal L (handleTelemetry pub unmarshal L n1 n2 g b key payload) ps"

fun log_of ::
  "(string \<Rightarrow> string + SecurityEnvelope) \<Rightarrow> string \<Rightarrow> (int \<times> int \<times> string \<times> string) list
     \<Rightarrow> (TelemetryPayload \<times> SecurityHeader \<times> int) list" where
  "log_of unmarshal v [] = []"
| "log_of unmarshal v ((n1, n2, key, payload) # ps) =
     (case seen unmarshal key payload of
        Some (t, h) \<Rightarrow> (if VehicleID t = v then [(t, h, n2)] else [])
      | None \<Rightarrow> []) @ log_of unmarshal v ps"

definition entry_of :: "VehicleState_gw option \<Rightarrow> (TelemetryPayload \<times> SecurityHeader \<times> int) list \<Rightarrow> VehicleState_gw option" where
  "entry_of old trail =
     (if trail = [] then old
      else let (t, h, now) = last trail
           in Some \<lparr>gv_Telemetry = t, gv_Header = h, gv_LastSeen = now,
                gv_TrackPoints = newest track_limit (crumbs old @ map (\<lambda>(t, h, now). Coords t) trail)\<rparr>)"

definition bounded_tracks :: "(string \<times> VehicleState_gw) list \<Rightarrow> bool" where
  "bounded_tracks fleet \<longleftrightarrow> (\<forall>v. length (crumbs (map_of fleet v)) \<le> track_limit)"

lemma crumbs_simps [simp]: "crumbs None = []" "crumbs (Some st) = gv_TrackPoints st"
  by (simp_all add: crumbs_def)

lemma bounded_tracksD: "bounded_tracks fleet \<Longrightarrow> length (crumbs (map_of fleet v)) \<le> track_limit"
  by (simp add: bounded_tracks_def)

lemma bounded_update:
  assumes "bounded_tracks fleet"
  shows "bounded_tracks (update_fleet now t h fleet)"
  using bounded_tracksD [OF assms] by (simp add: bounded_tracks_def map_of_update_fleet add_point_newest)

lemma entry_of_cons:
  assumes "length (crumbs old) \<le> track_limit"
  shows "entry_of (Some \<lparr>gv_Telemetry = t, gv_Header = h, gv_LastSeen = now,
      gv_TrackPoints = add_point (crumbs old) (Coords t)\<rparr>) trail = entry_of old ((t, h, now) # trail)"
  using assms by (simp add: entry_of_def add_point_newest newest_append_newest)

lemma telemetry_run_fleet:
  assumes "bounded_tracks (gw_fleet g)" and "telemetry_run pub unmarshal L (g, b) ps = (g', b')"
  shows "map_of (gw_fleet g') v = entry_of (map_of (gw_fleet g) v) (log_of unmarshal v ps) \<and> bounded_tracks (gw_fleet g')"
  using assms
proof (induction ps arbitrary: g b)
  case Nil
  then show ?case by (simp add: entry_of_def)
next
  case (Cons x ps)
  obtain n1 n2 key payload where x: "x = (n1, n2, key, payload)" by (metis prod_cases4)
  obtain g1 b1 where h: "handleTelemetry pub unmarshal L n1 n2 g b key payload = (g1, b1)" by fastforce
  with Cons.prems(2) have r: "telemetry_run pub unmarshal L (g1, b1) ps = (g', b')" by (simp add: x)
  show ?case
  proof (cases "seen unmarshal key payload")
    case None
    with handleTelemetry_seen [OF h] have "g1 = g" by simp
    with Cons.IH [OF _ r] Cons.prems(1) None show ?thesis by (simp add: x)
  next
    case (Some th)
    obtain t hd where th: "th = (t, hd)" by fastforce
    with handleTelemetry_seen [OF h] Some have f: "gw_fleet g1 = update_fleet n2 t hd (gw_fleet g)" by simp
    have "map_of (gw_fleet g') v = entry_of (map_of (gw_fleet g1) v) (log_of unmarshal v ps) \<and> bounded_tracks (gw_fleet g')"
      using Cons.IH [OF _ r] bounded_update [OF Cons.prems(1)] by (simp add: f)
    moreover have "entry_of (map_of (gw_fleet g1) v) (log_of unmarshal v ps)
        = entry_of (map_of (gw_fleet g) v) (log_of unmarshal v (x # ps))"
      by (simp add: f x Some th map_of_update_fleet entry_of_cons [OF bounded_tracksD [OF Cons.prems(1)]])
    ultimately show ?thesis by simp
  qed
qed

section \<open>Dispatch\<close>

text \<open>The request a POST asks to dispatch: named, typed, authorised, and with parameters that have an encoding.\<close>

definition dispatchable :: "'c Gateway \<Rightarrow> string \<Rightarrow> string + CommandRequest \<Rightarrow> CommandRequest option" where
  "dispatchable g verb body =
     (case body of
        Inl err \<Rightarrow> None
      | Inr req \<Rightarrow>
          (if verb = ''POST'' \<and> cr_TargetVehicle req \<noteq> '''' \<and> cr_CommandType req \<noteq> '''' \<and>
              authorised g (cr_TargetVehicle req) \<and> payload_finite (cr_Parameters req) then Some req else None))"

lemma dispatchable_SomeD:
  "dispatchable g verb body = Some req \<Longrightarrow>
     body = Inr req \<and> verb = ''POST'' \<and> cr_TargetVehicle req \<noteq> '''' \<and> cr_CommandType req \<noteq> '''' \<and>
     authorised g (cr_TargetVehicle req) \<and> payload_finite (cr_Parameters req)"
  by (auto simp: dispatchable_def split: sum.splits if_splits)

lemma command_payload_simps [simp]:
  "CommandID (command_payload n1 n2 req) = ''cmd-'' @ fmt_d n1"
  "TargetVehicle (command_payload n1 n2 req) = cr_TargetVehicle req"
  "CommandType (command_payload n1 n2 req) = cr_CommandType req"
  "Parameters (command_payload n1 n2 req) = cr_Parameters req"
  "IssuedAtNs (command_payload n1 n2 req) = n2"
  by (simp_all add: command_payload_def)

lemma handleCommand_dispatches:
  assumes "n2 \<noteq> 0" and "n4 \<noteq> 0" and "dispatchable g verb body = Some req"
  obtains e bs reply where "Validate L (Some e) = (ok (), Some e)" and "Marshal (json_envelope e) = ok bs"
    and "Telemetry e = None" and "Command e = Some (command_payload n1 n2 req)"
    and "Classification (Header e) = Tier2Restricted"
    and "handleCommand pub L n1 n2 n3 n4 g b verb body =
      Some (reply, fst (pub b (BuildKey L ''tier2'' ''drone'' ''blue'' (cr_TargetVehicle req) ''command'') bs))"
    and "fst reply = (if snd (pub b (BuildKey L ''tier2'' ''drone'' ''blue'' (cr_TargetVehicle req) ''command'') bs) = None
      then 200 else 500)"
proof -
  note d = dispatchable_SomeD [OF assms(3)]
  have t: "ValidTiers Tier2Restricted" by (simp add: ValidTiers_def)
  have c: "command_ok (command_payload n1 n2 req)" using d by (simp add: command_ok_def)
  obtain e bs where e: "NewCommandEnvelope L n3 n4 Tier2Restricted ''tactical-c2-gateway'' (command_payload n1 n2 req)
      [''OPERATOR_COMMAND''] = ok e"
    "Validate L (Some e) = (ok (), Some e)" "Marshal (json_envelope e) = ok bs" "Telemetry e = None" "Command e = Some (command_payload n1 n2 req)"
    "Classification (Header e) = Tier2Restricted"
    by (rule issued_command_envelope [OF t _ assms(2) c, where L = L and ?now1.0 = n3 and
          origin = "''tactical-c2-gateway''" and caveats = "[''OPERATOR_COMMAND'']"]) (simp_all add: assms(1))
  obtain b' err where p: "pub b (BuildKey L ''tier2'' ''drone'' ''blue'' (cr_TargetVehicle req) ''command'') bs = (b', err)"
    by fastforce
  show ?thesis
    using that [OF e(2-6)] d e(1,3) p
    by (cases err) (simp_all add: handleCommand_def Let_def ok_def reply_error_def)
qed

lemma handleCommand_refuses:
  assumes "dispatchable g verb body = None"
  obtains code msg where "handleCommand pub L n1 n2 n3 n4 g b verb body = Some (reply_error code msg, b)"
    and "code \<in> {400, 403, 405, 500}"
proof -
  have "\<exists>code msg. handleCommand pub L n1 n2 n3 n4 g b verb body = Some (reply_error code msg, b) \<and>
      code \<in> {400, 403, 405, 500}"
  proof (cases "verb = ''POST'' \<and> (\<exists>req. body = Inr req \<and> cr_TargetVehicle req \<noteq> '''' \<and> cr_CommandType req \<noteq> '''' \<and>
      authorised g (cr_TargetVehicle req))")
    case False
    then show ?thesis by (auto simp: handleCommand_def split: sum.splits)
  next
    case True
    then obtain req where req: "verb = ''POST''" "body = Inr req" "cr_TargetVehicle req \<noteq> ''''" "cr_CommandType req \<noteq> ''''"
      "authorised g (cr_TargetVehicle req)" by blast
    with assms have "\<not> finite_json (json_command (command_payload n1 n2 req))"
      by (simp add: dispatchable_def split: if_splits)
    then obtain err where "Marshal (json_command (command_payload n1 n2 req)) = fail err"
      by (cases rule: Marshal_cases [of "json_command (command_payload n1 n2 req)"]) simp_all
    then obtain err where "NewCommandEnvelope L n3 n4 Tier2Restricted ''tactical-c2-gateway'' (command_payload n1 n2 req)
        [''OPERATOR_COMMAND''] = fail err"
      by (simp add: NewCommandEnvelope_def ValidTiers_def ComputePayloadDigest_Some)
    with req have "handleCommand pub L n1 n2 n3 n4 g b verb body =
        Some (reply_error 500 (''generating command envelope: '' @ err), b)"
      by (simp add: handleCommand_def Let_def fail_def)
    then show ?thesis by blast
  qed
  with that show ?thesis by blast
qed

section \<open>Relay\<close>

definition relayed :: "(string \<Rightarrow> string + SecurityEnvelope) \<Rightarrow> (int \<times> int \<times> string \<times> string) list \<Rightarrow> string list" where
  "relayed unmarshal ps =
     map (\<lambda>(n1, n2, key, payload). payload) (filter (\<lambda>(n1, n2, key, payload). seen unmarshal key payload \<noteq> None) ps)"

lemma telemetry_run_broadcast:
  assumes "telemetry_run pub unmarshal L (g, b) ps = (g', b')"
  shows "hub_broadcast (gw_hub g') = hub_broadcast (gw_hub g) @ relayed unmarshal ps"
  using assms
proof (induction ps arbitrary: g b)
  case Nil
  then show ?case by (simp add: relayed_def)
next
  case (Cons x ps)
  obtain n1 n2 key payload where x: "x = (n1, n2, key, payload)" by (metis prod_cases4)
  obtain g1 b1 where h: "handleTelemetry pub unmarshal L n1 n2 g b key payload = (g1, b1)" by fastforce
  with Cons.prems have "hub_broadcast (gw_hub g') = hub_broadcast (gw_hub g1) @ relayed unmarshal ps"
    by (intro Cons.IH) (simp add: x)
  with handleTelemetry_seen [OF h] show ?case by (auto simp: x relayed_def split: option.splits)
qed

text \<open>The mule publishes on keys the gateway ignores.\<close>

lemma upstream_ignored [simp]: "ignored_key (formatUpstreamTopic t)"
  by (simp add: ignored_key_def formatUpstreamTopic_prefix)

lemma authorised_after:
  assumes "handleTelemetry pub unmarshal L n1 n2 g b key payload = (g', b')"
    and "seen unmarshal key payload = Some (t, h)"
  shows "authorised g' v \<longleftrightarrow> (if v = VehicleID t then Team t = ''blue'' else authorised g v)"
  using handleTelemetry_seen [OF assms(1)] assms(2) by (simp add: authorised_def map_of_update_fleet)

section \<open>Backhaul\<close>

text \<open>What the gateway's packets are to its mule, and to the router behind it.\<close>

definition ingested :: "(string \<Rightarrow> string + SecurityEnvelope) \<Rightarrow> (int \<times> int \<times> string \<times> string) list \<Rightarrow> mule_event list" where
  "ingested unmarshal ps =
     map (\<lambda>(n1, n2, key, payload). Packet n1 key payload) (filter (\<lambda>(n1, n2, key, payload). seen unmarshal key payload \<noteq> None) ps)"

definition backhauled ::
  "(string \<Rightarrow> string + SecurityEnvelope) \<Rightarrow> (int \<times> int \<times> string \<times> string) list \<Rightarrow> (string \<times> string) list" where
  "backhauled unmarshal ps =
     map (\<lambda>(n1, n2, key, payload). sent_as key payload) (filter (\<lambda>(n1, n2, key, payload). seen unmarshal key payload \<noteq> None) ps)"

lemma arrivals_ingested: "arrivals (ingested unmarshal ps) = backhauled unmarshal ps"
  by (induction ps) (auto simp: ingested_def backhauled_def)

lemma length_backhauled: "length (backhauled unmarshal ps) = length (relayed unmarshal ps)"
  by (simp add: backhauled_def relayed_def)

lemma handleTelemetry_mule:
  assumes "handleTelemetry pub unmarshal L n1 n2 g b key payload = (g', b')" and "gw_mule g = Some dm"
  shows "if seen unmarshal key payload = None then gw_mule g' = Some dm \<and> b' = b
    else \<exists>dm'. Ingest pub L n1 dm b key payload = (dm', b') \<and> gw_mule g' = Some dm'"
  using assms
  by (auto simp: handleTelemetry_def seen_def ParseJSONEnvelope_def enqueue_def Let_def
      split: if_splits sum.splits option.splits prod.splits)

text \<open>The gateway drives its mule exactly as the packets it takes in would.\<close>

lemma telemetry_run_mule:
  assumes "telemetry_run pub unmarshal L (g, b) ps = (g', b')" and "gw_mule g = Some dm"
  shows "\<exists>dm'. gw_mule g' = Some dm' \<and> mule_run pub L fs (dm, b) (ingested unmarshal ps) = (dm', b')"
  using assms
proof (induction ps arbitrary: g b dm)
  case Nil
  then show ?case by (simp add: ingested_def)
next
  case (Cons x ps)
  obtain n1 n2 key payload where x: "x = (n1, n2, key, payload)" by (metis prod_cases4)
  obtain g1 b1 where h: "handleTelemetry pub unmarshal L n1 n2 g b key payload = (g1, b1)" by fastforce
  with Cons.prems(1) have r: "telemetry_run pub unmarshal L (g1, b1) ps = (g', b')" by (simp add: x)
  from handleTelemetry_mule [OF h Cons.prems(2)] Cons.IH [OF r] show ?case
    by (auto simp: x ingested_def split: if_splits)
qed

lemma backhauled_ignored: "(k, p) \<in> set (backhauled unmarshal ps) \<union> set (spooled dm) \<Longrightarrow> ignored_key k"
  by (auto simp: backhauled_def spooled_def sent_as_def)

section \<open>Connections\<close>

text \<open>Everything the hub ever took in.\<close>

definition hub_known :: "'c Hub \<Rightarrow> 'c set" where
  "hub_known h = set (hub_clients h) \<union> set (hub_closed h)"

definition hub_inv :: "'c Hub \<Rightarrow> bool" where
  "hub_inv h \<longleftrightarrow> distinct (hub_clients h) \<and> length (hub_broadcast h) \<le> broadcast_cap \<and> fst ` set (hub_out h) \<subseteq> hub_known h"

inductive_cases hub_runE: "hub_run writable h h'"

lemma hub_step_inv:
  assumes "hub_run writable h h'" and "hub_inv h"
  shows "hub_inv h' \<and> hub_known h \<subseteq> hub_known h'"
  using assms
proof cases
  case register
  with assms(2) show ?thesis by (auto simp: hub_inv_def hub_known_def hub_register_def)
next
  case unregister
  with assms(2) show ?thesis by (auto simp: hub_inv_def hub_known_def hub_unregister_def distinct_removeAll)
next
  case send
  with assms(2) show ?thesis by (auto simp: hub_inv_def hub_known_def)
next
  case broadcast
  with assms(2) show ?thesis by (auto simp: hub_inv_def hub_known_def hub_deliver_def)
qed

lemma hub_runs_inv:
  assumes "(hub_run writable)\<^sup>*\<^sup>* h h'" and "hub_inv h"
  shows "hub_inv h' \<and> hub_known h \<subseteq> hub_known h'"
  using assms by (induction rule: rtranclp_induct) (auto dest: hub_step_inv)

section \<open>Properties\<close>

text \<open>C6. Dispatch: the handler never panics. A POST with a target, a type and parameters that encode,
  for a vehicle the fleet says is blue (or, when the fleet does not know it, with a blue name), publishes
  exactly one packet, on that vehicle's tier-2 command key: an envelope that validates, is TIER-2 and
  carries the command; the answer is 200 iff the bus took it. Any other request is refused with an error
  status and leaves the bus alone.\<close>

theorem command_dispatch:
  assumes "n2 \<noteq> 0" and "n4 \<noteq> 0"
  shows "case dispatchable g verb body of
      None \<Rightarrow> \<exists>code msg. handleCommand pub L n1 n2 n3 n4 g b verb body = Some (reply_error code msg, b) \<and>
        code \<in> {400, 403, 405, 500}
    | Some req \<Rightarrow> \<exists>e bs reply. Validate L (Some e) = (ok (), Some e) \<and> Marshal (json_envelope e) = ok bs \<and>
        Command e = Some (command_payload n1 n2 req) \<and> Classification (Header e) = Tier2Restricted \<and>
        (let (b', err) = pub b (BuildKey L ''tier2'' ''drone'' ''blue'' (cr_TargetVehicle req) ''command'') bs
         in handleCommand pub L n1 n2 n3 n4 g b verb body = Some (reply, b') \<and>
            fst reply = (if err = None then 200 else 500))"
proof (cases "dispatchable g verb body")
  case None
  then show ?thesis by (auto intro: handleCommand_refuses [OF None, of pub L n1 n2 n3 n4 b])
next
  case (Some req)
  show ?thesis unfolding Some
    by (rule handleCommand_dispatches [OF assms Some, where L = L and pub = pub and b = b and ?n1.0 = n1 and ?n3.0 = n3])
      (simp add: case_prod_beta Let_def, blast)
qed

text \<open>A gateway with no mule and an empty fleet, and one request.\<close>

definition bare_gateway :: "unit Gateway" where
  "bare_gateway = \<lparr>gw_hub = newHub, gw_fleet = [], gw_cdsProxyURL = [], gw_mule = None\<rparr>"

definition recall_alpha :: CommandRequest where
  "recall_alpha = \<lparr>cr_TargetVehicle = ''alpha'', cr_CommandType = ''RTB'', cr_Parameters = None\<rparr>"

theorem command_dispatch_witness:
  "\<forall>L. \<exists>e bs reply. Validate L (Some e) = (ok (), Some e) \<and>
     handleCommand (\<lambda>b k p. (b @ [(k, p)], None)) L 1 2 3 4 bare_gateway [] ''POST'' (Inr recall_alpha) =
       Some (reply, [(BuildKey L ''tier2'' ''drone'' ''blue'' ''alpha'' ''command'', bs)]) \<and> fst reply = 200"
proof
  fix L
  have d: "dispatchable bare_gateway ''POST'' (Inr recall_alpha) = Some recall_alpha"
    by (simp add: dispatchable_def bare_gateway_def recall_alpha_def authorised_def is_blue_target_def
        payload_finite_def HasPrefix_def)
  have "cr_TargetVehicle recall_alpha = ''alpha''" by (simp add: recall_alpha_def)
  with command_dispatch [where ?n1.0 = 1 and ?n2.0 = 2 and ?n3.0 = 3 and ?n4.0 = 4 and g = bare_gateway and
      verb = "''POST''" and body = "Inr recall_alpha" and pub = "\<lambda>b k p. (b @ [(k, p)], None)" and L = L and b = "[]"]
  show "\<exists>e bs reply. Validate L (Some e) = (ok (), Some e) \<and>
     handleCommand (\<lambda>b k p. (b @ [(k, p)], None)) L 1 2 3 4 bare_gateway [] ''POST'' (Inr recall_alpha) =
       Some (reply, [(BuildKey L ''tier2'' ''drone'' ''blue'' ''alpha'' ''command'', bs)]) \<and> fst reply = 200"
    unfolding d by auto
qed

text \<open>C11. The fleet picture: after any packets, a vehicle's entry is the payload and header of the last
  packet that carried it, with the newest fifty of its positions in order of arrival; ignored keys and
  payloads that do not decode or hold no telemetry change nothing; and exactly the packets that were taken
  in are queued for the dashboards, in order.\<close>

theorem fleet_tracks:
  assumes "bounded_tracks (gw_fleet g)" and "telemetry_run pub unmarshal L (g, b) ps = (g', b')"
  shows "map_of (gw_fleet g') v = entry_of (map_of (gw_fleet g) v) (log_of unmarshal v ps) \<and>
    bounded_tracks (gw_fleet g') \<and>
    hub_broadcast (gw_hub g') = hub_broadcast (gw_hub g) @ relayed unmarshal ps"
  using telemetry_run_fleet [OF assms] telemetry_run_broadcast [OF assms(2)] by simp

text \<open>An envelope nobody sealed.\<close>

definition forged :: "string \<Rightarrow> string \<Rightarrow> SecurityEnvelope" where
  "forged v team =
     \<lparr>Header = \<lparr>Classification = '''', OriginEnclave = '''', TimestampNs = 0, MessageID = '''', Digest = '''', Caveats = []\<rparr>,
      Telemetry = Some (sample\<lparr>VehicleID := v, Team := team\<rparr>), Command = None\<rparr>"

lemma forged_invalid: "fst (Validate L (Some (forged v team))) \<noteq> ok ()"
  by (simp add: Validate_ok_iff forged_def check_header_None_iff)

theorem fleet_tracks_witness:
  "\<forall>L. let (g', b') = telemetry_run (\<lambda>b k p. (b, None)) (\<lambda>p. Inr (forged ''alpha'' ''blue'')) L (bare_gateway, ())
      [(1, 2, ''sec/x'', ''p''), (3, 4, ''upstream/x'', ''q''), (5, 6, ''sec/y'', ''r'')]
   in map_option gv_LastSeen (map_of (gw_fleet g') ''alpha'') = Some 6 \<and>
      map_option gv_TrackPoints (map_of (gw_fleet g') ''alpha'') = Some [Coords sample, Coords sample] \<and>
      map_of (gw_fleet g') ''bravo'' = None \<and> hub_broadcast (gw_hub g') = [''p'', ''r'']"
proof
  fix L
  let ?u = "\<lambda>p :: string. Inr (forged ''alpha'' ''blue'') :: string + SecurityEnvelope"
  let ?ps = "[(1, 2, ''sec/x'', ''p''), (3, 4, ''upstream/x'', ''q''), (5, 6, ''sec/y'', ''r'')]"
  obtain g' b' where r: "telemetry_run (\<lambda>b k p. (b, None)) ?u L (bare_gateway, ()) ?ps = (g', b')" by (rule prod.exhaust)
  have "bounded_tracks (gw_fleet bare_gateway)" by (simp add: bounded_tracks_def bare_gateway_def)
  from fleet_tracks [OF this r] show "let (g', b') = telemetry_run (\<lambda>b k p. (b, None)) ?u L (bare_gateway, ()) ?ps
   in map_option gv_LastSeen (map_of (gw_fleet g') ''alpha'') = Some 6 \<and>
      map_option gv_TrackPoints (map_of (gw_fleet g') ''alpha'') = Some [Coords sample, Coords sample] \<and>
      map_of (gw_fleet g') ''bravo'' = None \<and> hub_broadcast (gw_hub g') = [''p'', ''r'']"
    unfolding r
    by (simp add: entry_of_def seen_def ignored_key_def HasPrefix_def forged_def relayed_def bare_gateway_def
        newHub_def track_limit_def)
qed

text \<open>C12. Backhaul: while the spool has room, no packet the gateway takes in is lost on the way to the cloud: each
  is, with its multiplicity, among the publications the router accepted or still in the spool, nothing else is
  published, the spool keeps its bound, and no publication is on a key the gateway would take in again.\<close>

theorem gateway_backhaul:
  assumes "gw_mule g = Some dm" and "dm_upstream dm" and "length (dm_buffer dm) \<le> dm_maxBuffer dm" and "0 < dm_maxBuffer dm"
    and "telemetry_run publish_rest unmarshal L (g, r) ps = (g', r')"
  shows "\<exists>dm' new. gw_mule g' = Some dm' \<and> rs_accepted r' = rs_accepted r @ new \<and>
    set new \<union> set (spooled dm') \<subseteq> set (spooled dm) \<union> set (backhauled unmarshal ps) \<and>
    length (dm_buffer dm') \<le> dm_maxBuffer dm \<and> (\<forall>(k, p) \<in> set new. ignored_key k) \<and>
    (length (dm_buffer dm) + length (relayed unmarshal ps) \<le> dm_maxBuffer dm \<longrightarrow>
       mset (spooled dm) + mset (backhauled unmarshal ps) \<subseteq># mset new + mset (spooled dm'))"
proof -
  obtain dm' where dm': "gw_mule g' = Some dm'"
    "mule_run publish_rest L fs (dm, r) (ingested unmarshal ps) = (dm', r')"
    using telemetry_run_mule [OF assms(5,1)] by blast
  from rest.accounts_run [OF rest_inv [OF assms(2-4)] dm'(2)] obtain new where
    new: "rs_accepted r' = rs_accepted r @ new"
      "set new \<union> set (spooled dm') \<subseteq> set (spooled dm) \<union> set (backhauled unmarshal ps)"
      "length (dm_buffer dm') \<le> dm_maxBuffer dm"
      "length (dm_buffer dm) + length (relayed unmarshal ps) \<le> dm_maxBuffer dm \<longrightarrow>
       mset (spooled dm) + mset (backhauled unmarshal ps) \<subseteq># mset new + mset (spooled dm')"
    by (auto simp: rest.accounts_def rest.mule_inv_def well_formed_iff length_spooled arrivals_ingested length_backhauled)
  moreover have "\<forall>(k, p) \<in> set new. ignored_key k" using new(2) backhauled_ignored by blast
  ultimately show ?thesis using dm'(1) by blast
qed

definition mule_gateway :: "nat \<Rightarrow> unit Gateway" where
  "mule_gateway cap = bare_gateway\<lparr>gw_mule := Some (sample_mule cap)\<rparr>"

theorem gateway_backhaul_witness:
  "\<forall>L. \<exists>g' r' dm'. telemetry_run publish_rest (\<lambda>p. Inr (forged ''alpha'' ''blue'')) L (mule_gateway 2, sample_rest [up, down])
      [(1, 2, ''sec/x'', ''p''), (3, 4, ''cloud/x'', ''q''), (5, 6, ''sec/y'', ''r'')] = (g', r') \<and> gw_mule g' = Some dm' \<and>
    {#sent_as ''sec/x'' ''p'', sent_as ''sec/y'' ''r''#} \<subseteq># mset (rs_accepted r') + mset (spooled dm')"
proof
  fix L
  let ?u = "\<lambda>p :: string. Inr (forged ''alpha'' ''blue'') :: string + SecurityEnvelope"
  let ?ps = "[(1, 2, ''sec/x'', ''p''), (3, 4, ''cloud/x'', ''q''), (5, 6, ''sec/y'', ''r'')]"
  obtain g' r' where r: "telemetry_run publish_rest ?u L (mule_gateway 2, sample_rest [up, down]) ?ps = (g', r')"
    by (rule prod.exhaust)
  have m: "gw_mule (mule_gateway 2) = Some (sample_mule 2)" by (simp add: mule_gateway_def)
  have s: "rs_accepted (sample_rest [up, down]) = []" "spooled (sample_mule 2) = []" "dm_buffer (sample_mule 2) = []"
    "dm_maxBuffer (sample_mule 2) = 2" "dm_upstream (sample_mule 2)"
    by (simp_all add: sample_rest_def sample_mule_def spooled_def)
  have b: "backhauled ?u ?ps = [sent_as ''sec/x'' ''p'', sent_as ''sec/y'' ''r'']" "length (relayed ?u ?ps) = 2"
    by (simp_all add: backhauled_def relayed_def seen_def ignored_key_def HasPrefix_def forged_def)
  from gateway_backhaul [OF m s(5) _ _ r] obtain dm' where "gw_mule g' = Some dm'"
    "{#sent_as ''sec/x'' ''p'', sent_as ''sec/y'' ''r''#} \<subseteq># mset (rs_accepted r') + mset (spooled dm')"
    unfolding s b by auto
  with r show "\<exists>g' r' dm'. telemetry_run publish_rest ?u L (mule_gateway 2, sample_rest [up, down]) ?ps = (g', r') \<and>
    gw_mule g' = Some dm' \<and>
    {#sent_as ''sec/x'' ''p'', sent_as ''sec/y'' ''r''#} \<subseteq># mset (rs_accepted r') + mset (spooled dm')" by blast
qed

text \<open>Who may be commanded is what the last packet claimed: once a packet that decodes to telemetry is
  taken in, the vehicle it names is authorised iff the packet puts it on the blue team, and no other
  vehicle's authorisation changes. The envelope is never validated, so an unsealed one has the same effect.\<close>

theorem authorisation_is_last_claim:
  assumes "handleTelemetry pub unmarshal L n1 n2 g b key payload = (g', b')"
    and "\<not> ignored_key key" and "unmarshal payload = Inr env" and "Telemetry env = Some t"
  shows "authorised g' v \<longleftrightarrow> (if v = VehicleID t then Team t = ''blue'' else authorised g v)"
  using assms by (intro authorised_after [OF assms(1), of t "Header env"]) (simp add: seen_def)

theorem authorisation_is_last_claim_witness:
  "\<forall>L. fst (Validate L (Some (forged ''red-1'' ''blue''))) \<noteq> ok () \<and> \<not> authorised bare_gateway ''red-1'' \<and>
     authorised (fst (handleTelemetry (\<lambda>b k p. (b, None)) (\<lambda>p. Inr (forged ''red-1'' ''blue'')) L 1 2
       bare_gateway () ''sec/x'' ''p'')) ''red-1''"
proof
  fix L
  let ?h = "handleTelemetry (\<lambda>b k p. (b, None)) (\<lambda>p. Inr (forged ''red-1'' ''blue'')) L 1 2 bare_gateway () ''sec/x'' ''p''"
  let ?t = "sample\<lparr>VehicleID := ''red-1'', Team := ''blue''\<rparr>"
  have "authorised (fst ?h) ''red-1'' \<longleftrightarrow>
      (if ''red-1'' = VehicleID ?t then Team ?t = ''blue'' else authorised bare_gateway ''red-1'')"
    by (rule authorisation_is_last_claim [where pub = "\<lambda>b k p. (b, None)" and L = L and ?n1.0 = 1 and ?n2.0 = 2 and
          unmarshal = "\<lambda>p. Inr (forged ''red-1'' ''blue'')" and b = "()" and b' = "snd ?h" and key = "''sec/x''" and
          payload = "''p''" and env = "forged ''red-1'' ''blue''"])
      (simp_all only: prod.collapse, simp_all add: forged_def ignored_key_def HasPrefix_def)
  then have "authorised (fst ?h) ''red-1''" by simp
  then show "fst (Validate L (Some (forged ''red-1'' ''blue''))) \<noteq> ok () \<and> \<not> authorised bare_gateway ''red-1'' \<and>
     authorised (fst ?h) ''red-1''"
    by (simp add: forged_invalid authorised_def bare_gateway_def is_blue_target_def HasPrefix_def)
qed

text \<open>No dashboard connection is leaked or lost: whatever registers, leaves or is written to, in any order
  and with any writes failing, every connection the hub took in is a client or has been closed, no client is
  listed twice, messages only go to connections the hub took in, and stopping closes all of them.\<close>

theorem hub_keeps_connections:
  assumes "(hub_run writable)\<^sup>*\<^sup>* newHub h" and "(hub_run writable)\<^sup>*\<^sup>* h h'"
  shows "distinct (hub_clients h') \<and> length (hub_broadcast h') \<le> broadcast_cap \<and>
    fst ` set (hub_out h') \<subseteq> hub_known h' \<and> hub_known h \<subseteq> hub_known h' \<and>
    hub_clients (hub_stop h') = [] \<and> set (hub_closed (hub_stop h')) = hub_known h'"
proof -
  have "hub_inv newHub" by (simp add: hub_inv_def newHub_def)
  with hub_runs_inv assms(1) have "hub_inv h" by blast
  with hub_runs_inv [OF assms(2)] show ?thesis by (auto simp: hub_inv_def hub_stop_def hub_known_def)
qed

text \<open>Two dashboards, one of which cannot be written to.\<close>

theorem hub_keeps_connections_witness:
  "\<exists>h h'. (hub_run (\<lambda>c m. c \<noteq> 2))\<^sup>*\<^sup>* newHub h \<and> (hub_run (\<lambda>c m. c \<noteq> 2))\<^sup>*\<^sup>* h h' \<and>
     hub_clients h' = [1 :: nat] \<and> hub_closed h' = [2] \<and> hub_out h' = [(1, ''m'')] \<and>
     hub_known h \<subseteq> hub_known h' \<and> set (hub_closed (hub_stop h')) = hub_known h'"
proof -
  let ?w = "\<lambda>c m. c \<noteq> (2::nat)"
  let ?h = "hub_register (2::nat) (hub_register 1 newHub)"
  let ?q = "?h\<lparr>hub_broadcast := hub_broadcast ?h @ [''m'']\<rparr>"
  let ?h' = "hub_deliver ?w ''m'' (?q\<lparr>hub_broadcast := []\<rparr>)"
  have 1: "(hub_run ?w)\<^sup>*\<^sup>* newHub ?h"
    by (blast intro: hub_run.register rtranclp.rtrancl_into_rtrancl)
  have "hub_run ?w ?h ?q" by (rule hub_run.send) (simp add: broadcast_cap_def hub_register_def newHub_def)
  moreover have "hub_run ?w ?q ?h'" by (rule hub_run.broadcast) (simp add: hub_register_def newHub_def)
  ultimately have 2: "(hub_run ?w)\<^sup>*\<^sup>* ?h ?h'" by (blast intro: rtranclp.rtrancl_into_rtrancl)
  from hub_keeps_connections [OF 1 2] 1 2 show ?thesis
    by (intro exI [of _ ?h] exI [of _ ?h']) (simp add: hub_register_def newHub_def hub_deliver_def)
qed

end
