(* ===== verification/Dispatch.thy ===== *)
theory Dispatch
  imports Flight Gateway
begin

text \<open>
  The way of a command from the gateway to whoever executes it: which vehicles a published command acts on,
  one vehicle, a whole swarm, or an autopilot behind a relay.
\<close>

section \<open>From the operator to the vehicle\<close>

text \<open>Names that can stand in a key, none of them a wildcard; and the unit a command of the gateway names.\<close>

definition addressable :: "string \<Rightarrow> string \<Rightarrow> string \<Rightarrow> bool" where
  "addressable ty team unit \<longleftrightarrow> token ty \<and> token team \<and> token unit \<and> {ty, team, unit} \<inter> {''*'', ''**''} = {}"

definition commands_unit :: "string \<Rightarrow> string \<Rightarrow> string \<Rightarrow> string \<Rightarrow> bool" where
  "commands_unit target ty team unit \<longleftrightarrow> map lower_char ty = ''drone'' \<and> map lower_char team = ''blue'' \<and>
     map lower_char unit = map lower_char target"

abbreviation addressable_sim :: "VehicleSim \<Rightarrow> bool" where
  "addressable_sim v \<equiv> addressable (sim_vehicleType v) (sim_team v) (sim_id v)"

abbreviation is_target :: "string \<Rightarrow> VehicleSim \<Rightarrow> bool" where
  "is_target target v \<equiv> commands_unit target (sim_vehicleType v) (sim_team v) (sim_id v)"

lemma lower_star: "map lower_char s = ''*'' \<longleftrightarrow> s = ''*''" "map lower_char s = ''**'' \<longleftrightarrow> s = ''**''"
proof -
  have "lower_char c = CHR ''*'' \<longleftrightarrow> c = CHR ''*''" for c
  proof
    assume "lower_char c = CHR ''*''"
    moreover from this have "of_char (lower_char c) = (42 :: nat)" by simp
    ultimately show "c = CHR ''*''" by (cases "65 \<le> (of_char c :: nat) \<and> of_char c \<le> (90 :: nat)")
        (auto simp: lower_char_def Let_def char_of_eq_iff split: if_splits)
  qed (simp add: lower_char_def)
  then show "map lower_char s = ''*'' \<longleftrightarrow> s = ''*''" "map lower_char s = ''**'' \<longleftrightarrow> s = ''**''"
    by (auto simp: map_eq_Cons_conv)
qed

lemma const_tokens [simp]: "token ''tier1''" "token ''tier2''" "token ''tier3''" "token ''drone''" "token ''blue''"
  "token ''red''" "token ''command''" "token ''telemetry''"
  by (simp_all add: token_def is_ascii_def)

lemma lower_consts [simp]: "map lower_char ''tier2'' = ''tier2''" "map lower_char ''drone'' = ''drone''"
  "map lower_char ''blue'' = ''blue''" "map lower_char ''red'' = ''red''" "map lower_char ''command'' = ''command''"
  by code_simp+

lemma command_topic_matches:
  assumes "addressable ty team unit" and "token target"
  shows "MatchesSelector (BuildKey L ''tier2'' ty team unit ''command'')
      (BuildKey L ''tier2'' ''drone'' ''blue'' target ''command'') \<longleftrightarrow> commands_unit target ty team unit"
proof -
  let ?w = "map lower_char"
  have v: "token ty" "token team" "token unit"
    "?w ty \<notin> {''*'', ''**''}" "?w team \<notin> {''*'', ''**''}" "?w unit \<notin> {''*'', ''**''}"
    using assms(1) by (auto simp: addressable_def lower_star)
  let ?s = "BuildKey L ''tier2'' ty team unit ''command''" and ?k = "BuildKey L ''tier2'' ''drone'' ''blue'' target ''command''"
  have s: "split_on slash ?s = [''sec'', ''tier2'', ?w ty, ?w team, ?w unit, ''command'']"
    using BuildKey_tokens(2) [of "''tier2''" ty team unit "''command''" L] v(1-3)
    by (simp only: lower_consts const_tokens simp_thms)
  have k: "split_on slash ?k = [''sec'', ''tier2'', ''drone'', ''blue'', ?w target, ''command'']"
    using BuildKey_tokens(2) [of "''tier2''" "''drone''" "''blue''" target "''command''" L] assms(2)
    by (simp only: lower_consts const_tokens simp_thms)
  have "?s = ?k \<longleftrightarrow> commands_unit target ty team unit"
    using split_on_inject [of slash ?s ?k] unfolding s k by (auto simp: commands_unit_def)
  moreover have "?s \<noteq> ''**''" by (simp add: BuildKey_def)
  ultimately show ?thesis using v(4-6) by (auto simp: MatchesSelector_def s k commands_unit_def)
qed

lemma obeys_own_name: "addressable_sim v \<Longrightarrow> token target \<Longrightarrow> is_target target v \<Longrightarrow> obeys L v target"
  by (auto simp: obeys_def EqualFold_def addressable_def token_def commands_unit_def)

text \<open>A command on the bus acts on the vehicle it names, and on no other.\<close>

lemma command_acts:
  assumes "addressable_sim v" and "token (cr_TargetVehicle req)" and "unmarshal bs = Inr e"
    and "Command e = Some (command_payload n1 n2 req)"
  shows "on_command unmarshal L (sim_cmdTopic L v) v
      (BuildKey L ''tier2'' ''drone'' ''blue'' (cr_TargetVehicle req) ''command'') bs =
    (if is_target (cr_TargetVehicle req) v then execute (cr_CommandType req) v else v)"
  using assms(3,4) command_topic_matches [OF assms(1,2), of L] obeys_own_name [OF assms(1,2), of L]
  by (simp add: on_command_def sim_cmdTopic_def ParseJSONEnvelope_def HandleCommand_def command_payload_def)

lemma command_relays:
  assumes "addressable ty team unit" and "token (cr_TargetVehicle req)" and "unmarshal bs = Inr e"
    and "Command e = Some (command_payload n1 n2 req)"
  shows "on_relay send unmarshal (BuildKey L ''tier2'' ty team unit ''command'') c
      (BuildKey L ''tier2'' ''drone'' ''blue'' (cr_TargetVehicle req) ''command'') bs =
    relay_all send c (if commands_unit (cr_TargetVehicle req) ty team unit then [cr_CommandType req] else [])"
  using assms(3,4) command_topic_matches [OF assms(1,2), of L]
  by (simp add: on_relay_def ParseJSONEnvelope_def command_payload_def relay_all_def)

section \<open>Call signs\<close>

lemma fmt_nat_range: "c \<in> set (fmt_nat n) \<Longrightarrow> 48 \<le> (of_char c :: nat) \<and> of_char c < (58 :: nat)"
  using dec_digits_range [of "int n" c] by (simp add: fmt_nat_def fmt_d_def)

lemma fmt_nat_inject [simp]: "fmt_nat m = fmt_nat n \<longleftrightarrow> m = n"
  by (simp add: fmt_nat_def fmt_d_def dec_digits_inject)

lemma lower_id: "\<forall>c \<in> set s. \<not> (65 \<le> (of_char c :: nat) \<and> of_char c \<le> (90 :: nat)) \<Longrightarrow> map lower_char s = s"
  by (induction s) (auto simp: lower_char_def Let_def)

text \<open>The characters of a call sign: lower case letters, digits and the dash.\<close>

definition plain :: "char \<Rightarrow> bool" where
  "plain c \<longleftrightarrow> (let n = (of_char c :: nat) in n = 45 \<or> 48 \<le> n \<and> n < 58 \<or> 97 \<le> n \<and> n < 123)"

lemma plain_text:
  assumes "list_all plain s"
  shows "map lower_char s = s" and "token s" and "s \<noteq> ''*''" and "s \<noteq> ''**''"
proof -
  have "\<not> (65 \<le> (of_char c :: nat) \<and> of_char c \<le> (90 :: nat))" "of_char c < (128 :: nat)" "c \<noteq> slash" if "c \<in> set s" for c
    using assms that by (auto simp: list_all_iff plain_def Let_def)
  then show "map lower_char s = s" "token s" by (auto simp: lower_id token_def is_ascii_def list_all_iff)
  show "s \<noteq> ''*''" "s \<noteq> ''**''" using assms by (auto simp: plain_def)
qed

lemma plain_fmt_nat: "list_all plain (fmt_nat n)"
  using fmt_nat_range [of _ n] by (auto simp: list_all_iff plain_def Let_def)

lemma plain_callsigns: "\<forall>s \<in> set blueCallsigns. list_all plain s \<and> \<not> list_all (\<lambda>c. of_char c < (58 :: nat)) s"
  by (simp add: blueCallsigns_def plain_def)

lemma plain_callsign: "list_all plain (blue_callsign i)" "list_all plain (''red-'' @ fmt_nat n)"
  using plain_callsigns nth_mem [of i blueCallsigns] by (auto simp: blue_callsign_def plain_fmt_nat) (simp_all add: plain_def)

lemma blue_callsign_inject: "blue_callsign i = blue_callsign j \<longleftrightarrow> i = j"
proof -
  have d: "distinct blueCallsigns" by (simp add: blueCallsigns_def)
  have f: "blueCallsigns ! i \<noteq> fmt_nat n" "fmt_nat n \<noteq> blueCallsigns ! i" if "i < length blueCallsigns" for i n
    using plain_callsigns nth_mem [OF that] fmt_nat_range [of _ n] by (auto simp: list_all_iff)
  show ?thesis using f nth_eq_iff_index_eq [OF d] by (auto simp: blue_callsign_def)
qed

text \<open>Where the vehicles of a swarm are, and what they are called.\<close>

lemma sim_names [simp]:
  "sim_id (blue_sim M i) = blue_callsign i" "sim_vehicleType (blue_sim M i) = ''drone''" "sim_team (blue_sim M i) = ''blue''"
  "sim_id (red_sim M i) = ''red-'' @ fmt_nat (i + 1)" "sim_vehicleType (red_sim M i) = ''drone''"
  "sim_team (red_sim M i) = ''red''"
  by (simp_all add: blue_sim_def red_sim_def SetBase_def NewVehicleSim_def Let_def)

lemma length_swarm [simp]: "length (swarm M n m) = n + m"
  by (simp add: swarm_def)

lemma swarm_nth: "j < n + m \<Longrightarrow> swarm M n m ! j = (if j < n then blue_sim M j else red_sim M (j - n))"
  by (simp add: swarm_def nth_append)

lemma sim_addressable: "addressable_sim (blue_sim M i)" "addressable_sim (red_sim M i)"
  using plain_text [OF plain_callsign(1) [of i]] plain_text [OF plain_callsign(2) [of "i + 1"]]
  by (simp_all add: addressable_def token_def is_ascii_def)

lemma swarm_addressable: "v \<in> set (swarm M n m) \<Longrightarrow> addressable_sim v"
  using sim_addressable by (auto simp: swarm_def)

lemma sim_target:
  "is_target (blue_callsign i) (blue_sim M j) \<longleftrightarrow> j = i" "\<not> is_target target (red_sim M j)"
proof -
  have "is_target (blue_callsign i) (blue_sim M j) \<longleftrightarrow> map lower_char (blue_callsign j) = map lower_char (blue_callsign i)"
    by (simp only: commands_unit_def sim_names lower_consts simp_thms)
  then show "is_target (blue_callsign i) (blue_sim M j) \<longleftrightarrow> j = i"
    by (simp only: plain_text [OF plain_callsign(1)] blue_callsign_inject)
  show "\<not> is_target target (red_sim M j)" by (simp only: commands_unit_def sim_names lower_consts) simp
qed

lemma swarm_target: "i < n \<Longrightarrow> j < n + m \<Longrightarrow> is_target (blue_callsign i) (swarm M n m ! j) \<longleftrightarrow> j = i"
  by (auto simp: swarm_nth sim_target simp del: sim_names)

lemma flight_names: "flight M L T v w \<Longrightarrow> same_sim w v"
proof (induction rule: flight.induct)
  case (tick w dt)
  then show ?case using Step_same [of M dt w] by (simp add: same_sim_def)
qed (simp_all add: same_sim_def HandleCommand_def execute_def SetBase_def Let_def)

text \<open>A command named for a blue vehicle of the swarm updates that vehicle only.\<close>

lemma swarm_acts:
  assumes "list_all2 (flight M L T) (swarm M n m) vs" and "i < n"
    and "\<And>v. addressable_sim v \<Longrightarrow> f v = (if is_target (blue_callsign i) v then g v else v)"
  shows "map f vs = vs[i := g (vs ! i)]"
proof (rule nth_equalityI)
  fix j
  assume "j < length (map f vs)"
  moreover have l: "length vs = n + m" using list_all2_lengthD [OF assms(1)] by simp
  ultimately have j: "j < n + m" by simp
  then have "same_sim (vs ! j) (swarm M n m ! j)" by (intro flight_names [OF list_all2_nthD [OF assms(1)]]) simp
  then have "addressable_sim (vs ! j)" "is_target (blue_callsign i) (vs ! j) \<longleftrightarrow> j = i"
    using swarm_addressable [OF nth_mem, of j M n m] swarm_target [OF assms(2) j, of M] j by (simp_all add: same_sim_def)
  with assms(3) show "map f vs ! j = vs[i := g (vs ! i)] ! j" using j l by (auto simp: nth_list_update)
qed simp

end
