(* ===== verification/Spec2Isabelle.thy ===== *)
theory Spec2Isabelle
  imports Cds_Guard Bench_Check Dispatch
begin

text \<open>
  Blue Polar Bear: tactical telemetry between unmanned vehicles, a cross-domain guard and an operators'
  gateway.

  \<^bold>\<open>The program.\<close> An edge agent (\<^verbatim>\<open>cmd/edge-agent\<close>) simulates vehicles, or bridges a
  MAVLink autopilot (\<^verbatim>\<open>pkg/mavlink\<close>), and publishes telemetry in security envelopes
  (\<^verbatim>\<open>pkg/schema\<close>) on keys of the form \<^verbatim>\<open>sec/<tier>/<type>/<team>/<unit>/<stream>\<close> of a publish and
  subscribe bus (\<^verbatim>\<open>pkg/zenohutil\<close>). The guard (\<^verbatim>\<open>cmd/cds-guard\<close>) takes every packet,
  decides by policy (\<^verbatim>\<open>pkg/policy\<close>) and republishes what may leave on \<^verbatim>\<open>sec/tier1/\<close>, or puts it
  in the dead-letter queue. The gateway (\<^verbatim>\<open>cmd/c2-gateway\<close>) keeps the fleet picture, spools packets for the
  satellite link in the data mule, shows them to dashboards and dispatches commands back to the vehicles.
  \<^verbatim>\<open>cmd/bench-check\<close> counts packets on a bench.

  \<^bold>\<open>Theories and sources.\<close> A definition has the name of the function it models, with a suffix where two
  packages share one; structs are records with the fields in the order of the source.

    \<^item> Vocabulary: \<^verbatim>\<open>Prelude\<close> (machine words, the outcome of a Go call, little endian),
      \<^verbatim>\<open>Go_Text\<close> (\<^verbatim>\<open>strings\<close>, \<^verbatim>\<open>fmt\<close>), \<^verbatim>\<open>Float64\<close>, \<^verbatim>\<open>Decimal\<close> and
      \<^verbatim>\<open>Float_Bounds\<close> (IEEE binary64, rounding to decimals, ranges), \<^verbatim>\<open>Json\<close> (the encoder),
      \<^verbatim>\<open>Sha256\<close>, \<^verbatim>\<open>Fifo\<close> (the contract of the bounded buffers), \<^verbatim>\<open>Log_File\<close> (a file
      of lines whose writes may fail).
    \<^item> \<^verbatim>\<open>pkg/mavlink\<close>: \<^verbatim>\<open>Mavlink_Crc\<close> (crc.go), \<^verbatim>\<open>Mavlink_Frame\<close> and
      \<^verbatim>\<open>Mavlink_Messages\<close> (messages.go), \<^verbatim>\<open>Mavlink_Stream\<close> (stream.go), \<^verbatim>\<open>Vehicle\<close>
      (bridge.go), \<^verbatim>\<open>Autopilot\<close> (udp.go, stream_client.go), \<^verbatim>\<open>Serial\<close> (serial.go and its systems).
    \<^item> \<^verbatim>\<open>pkg/schema\<close> and \<^verbatim>\<open>pkg/policy\<close>: \<^verbatim>\<open>Schema\<close> (telemetry.go), \<^verbatim>\<open>Policy\<close>
      (policy.go), \<^verbatim>\<open>Dlq\<close> (dlq.go).
    \<^item> \<^verbatim>\<open>pkg/zenohutil\<close>: \<^verbatim>\<open>Topic\<close> (topic.go and the selectors of client.go), \<^verbatim>\<open>Bus\<close>
      (client.go), \<^verbatim>\<open>Data_Mule\<close> (datamule.go).
    \<^item> Programs: \<^verbatim>\<open>Cds_Guard\<close>, \<^verbatim>\<open>Gateway\<close>, \<^verbatim>\<open>Edge_Agent\<close>, \<^verbatim>\<open>Bench_Check\<close> (the
      \<^verbatim>\<open>main.go\<close> of each); \<^verbatim>\<open>Flight\<close> holds what the simulated vehicle does over any ticks and
      commands, \<^verbatim>\<open>Dispatch\<close> whom a published command acts on; this theory composes them.

  \<^bold>\<open>Conventions.\<close> A call that may fail or panic has type \<open>'a go\<close>: \<open>None\<close> is a panic, \<open>Some (Inl err)\<close> an
  error with its text, \<open>Some (Inr v)\<close> a result. Methods pass their object; each method that holds its lock
  throughout is one atomic step. Integers have the width of the source (\<open>byte\<close> to \<open>u64\<close>), lengths and clocks are
  numbers, readings of the clock are arguments. A bus is a state with a function \<open>pub\<close> that answers with an
  error or none; the laws the clients rely on are the locale \<open>message_bus\<close>, interpreted on the
  in-memory bus and on the REST client. The other interfaces are \<open>bounded_fifo\<close> (dead-letter queue, spool,
  breadcrumbs), \<open>payload_codec\<close> (the four messages) and \<open>autopilot_client\<close> (both transports).

  \<^bold>\<open>What is shown.\<close>
    \<^item> MAVLink: the decoder inverts the encoder and never indexes out of range; a corruption of two
      neighbouring bytes of a supported message, its length and id apart, is refused; the buffered framer
      computes what a scan of the whole input computes and recovers every packet from a line whose noise holds
      no magic byte; both transports leave the same vehicle state and put the same
      command packets on the wire.
    \<^item> Envelopes: rounding is idempotent on physical values, so what the constructor seals, when it is named and in
      range, validates, here and after another validation; validation never panics, and accepts only complete
      values in range whose digest matches.
    \<^item> Guard: only valid TIER-1 packets and sanitised TIER-2 packets leave it; each packet is counted and
      published or recorded; a redacted packet comes back at most once. Two defects are proved as such: a TIER-1
      command makes it panic, and a TIER-1 packet on a foreign key is redelivered for ever.
    \<^item> Buffers: the queue and the spool hold exactly the newest items, each record is written to
      the audit log, where a failed write loses its line and no other; while
      the spool has room no packet is lost or invented; what a retried flush sends twice is exhibited.
    \<^item> Gateway: which requests dispatch which command, the fleet picture as a function of the log of packets,
      no packet lost on the way to the cloud while the spool has room, who may be commanded, and the hub's
      bookkeeping of connections.
    \<^item> Vehicle simulation: an instance panics only for a rate without a positive interval, and numbers its
      reports; bounds of state, battery, altitude, speed and reports over any ticks and commands, the altitude
      reported on the orbit within five metres of them; landing; addressing; one well-formed envelope per tick.
    \<^item> Composition (below): a dispatched command moves exactly the vehicle it names, alone or in a swarm, or puts
      exactly its packet on an autopilot's wire, and what a vehicle publishes becomes one sanitised TIER-1
      packet or a dead-letter record.

  \<^bold>\<open>Bounds and loops.\<close> No definition has fuel. Loops over input recurse on what is left of it or on the
  source's list of reads, with a termination proof where that is not structural; goroutines that run until
  cancelled are a step function, folded over the events they receive. Properties about floats carry the range
  in which the rounding lemmas hold (magnitudes below \<open>10\<^sup>6\<close>, at most 12 decimals), which
  contains every physical value.

  \<^bold>\<open>Parameters.\<close> The JSON decoder, the trigonometric functions of \<^verbatim>\<open>math\<close>, the conversion of a float out of
  range to an integer, the file system and how far each write to it gets, sockets, the
  terminal's \<^verbatim>\<open>ioctl\<close>, HTTP round trips, the case tables of Unicode beyond ASCII (the record \<open>golib\<close>), quoting
  and the formatting of times are arguments of the definitions that use them. A property that needs more than their
  type says so: the decoder gives a published envelope back, the sine and cosine lie between -1 and 1 and the
  arctangent between -4 and 4.

  \<^bold>\<open>Not modelled.\<close> Flags, signals, logging, the HTTP servers and websocket transport of the \<^verbatim>\<open>main\<close>
  functions, the bench checker's periodic display, which only print, wait or hand over to a library; goroutine
  schedules inside a method that does not hold its lock throughout (the gateway's read of a fleet entry after
  unlocking); the time a sender waits on the hub's full channel, where the model appends; the bytes a failed
  command write may have sent; the end \<^verbatim>\<open>bufio\<close> puts to a hundred empty reads in a row; what
  survives of a file when the machine crashes; platforms whose compiler fuses multiplication and addition; the browser code under
  \<^verbatim>\<open>web\<close> and the files of \<^verbatim>\<open>configs\<close>, \<^verbatim>\<open>deploy\<close> and \<^verbatim>\<open>docs\<close>.
\<close>

section \<open>From the vehicle through the guard\<close>

definition sim_tokens :: "VehicleSim \<Rightarrow> bool" where
  "sim_tokens v \<longleftrightarrow> token (sim_vehicleType v) \<and> token (sim_team v) \<and> token (sim_id v)"

lemma BuildKey_lower:
  "token vtype \<Longrightarrow> token team \<Longrightarrow> token unit \<Longrightarrow>
     BuildKey L ''tier1'' (map lower_char vtype) (map lower_char team) (map lower_char unit) (map lower_char ''telemetry'')
     = BuildKey L ''tier1'' vtype team unit ''telemetry''"
proof -
  have "map lower_char ''telemetry'' = ''telemetry''" by code_simp
  then show "token vtype \<Longrightarrow> token team \<Longrightarrow> token unit \<Longrightarrow> ?thesis"
    by (simp only:) (simp add: BuildKey_def token_lower)
qed

lemma telemetry_key:
  fixes L :: golib
  assumes "sim_tokens v" and "tier = ''tier2'' \<or> tier = ''tier3''"
  defines "k \<equiv> BuildKey L tier (sim_vehicleType v) (sim_team v) (sim_id v) ''telemetry''"
  shows "\<not> skip_ingress k"
    and "egress_key L k t = BuildKey L ''tier1'' (sim_vehicleType v) (sim_team v) (sim_id v) ''telemetry''"
proof -
  have v: "token (sim_vehicleType v)" "token (sim_team v)" "token (sim_id v)" "token tier"
    using assms(1,2) by (auto simp: sim_tokens_def)
  have c: "map lower_char ''telemetry'' = ''telemetry''" by code_simp
  have tier: "map lower_char tier = tier" using assms(2) by (auto simp: lower_char_def char_of_def)
  have k: "k = ''sec/'' @ tier @ ''/'' @ map lower_char (sim_vehicleType v) @ ''/'' @ map lower_char (sim_team v) @
      ''/'' @ map lower_char (sim_id v) @ ''/telemetry''"
    using BuildKey_tokens(1) [of tier "sim_vehicleType v" "sim_team v" "sim_id v" "''telemetry''" L] v
    unfolding k_def c tier by simp
  have "last k = CHR ''y''" by (simp add: k)
  then have "\<not> suffix ''/command'' k" by (auto simp: suffix_def)
  moreover have "\<not> prefix ''sec/tier1/'' k" using assms(2) by (auto simp: k)
  ultimately show "\<not> skip_ingress k" by (simp add: skip_ingress_def HasPrefix_def HasSuffix_def)
  show "egress_key L k t = BuildKey L ''tier1'' (sim_vehicleType v) (sim_team v) (sim_id v) ''telemetry''"
    using ParseKey_tokens [of tier "sim_vehicleType v" "sim_team v" "sim_id v" "''telemetry''" L] v BuildKey_lower
    by (simp add: egress_key_def k_def ok_def)
qed

lemma guard_refuses:
  assumes "unmarshal raw = Inr e" and "Classification (Header e) = Tier3Critical" and "\<not> skip_ingress key"
  shows "\<exists>reason err. on_ingress pub unmarshal L n1 n2 g b key raw =
    Some (refuse L n1 n2 (count_ingress g) key reason err (OriginEnclave (Header e)) Tier3Critical raw, b)"
proof -
  obtain reason err env where "Evaluate L (Some e) = (Some (ActionQuarantine, reason, Some err), Some env)" "Header env = Header e"
    using assms(2) by (cases rule: Evaluate_cases [of L e]) (auto simp: tier_defs)
  with assms show ?thesis by (simp add: on_ingress_def ProcessPacket_def ParseJSONEnvelope_def Let_def) blast
qed

lemma guard_redacts:
  assumes "unmarshal raw = Inr e" and "fst (Validate L (Some e)) = ok ()" and "Classification (Header e) = Tier2Restricted"
    and "\<not> skip_ingress key" and "Telemetry e = Some t" and "physical t" and "GPSCoarsenDecimals (cg_engine g) \<le> 12"
  obtains s bs where "Validate L (Some s) = (ok (), Some s)" and "Marshal (json_envelope s) = ok bs"
    and "Classification (Header s) = Tier1Public"
    and "Telemetry s = Some (sanitize_telemetry (cg_engine g) (Normalize t))"
    and "on_ingress pub unmarshal L n1 n2 g b key raw =
      Some (count_redacted (count_ingress g), fst (pub b (egress_key L key (Normalize t)) bs))"
proof -
  obtain s where s: "RedactAndSanitize (cg_engine g) (Some (normalized e)) = ok s"
    "Validate L (Some s) = (ok (), Some s)" "Classification (Header s) = Tier1Public"
    "Telemetry s = Some (sanitize_telemetry (cg_engine g) (Normalize t))"
    by (rule redaction_validates [OF assms(2,5,6,7)])
  obtain bs where bs: "Marshal (json_envelope s) = ok bs"
    by (rule RedactAndSanitize_result [OF s(1)])
  have "Evaluate L (Some e) = (Some (ActionRedactPass, ReasonNone, None), Some (normalized e))"
    using Evaluate_accepted [OF assms(2)] assms(3) by (simp add: tier_defs)
  then have "on_ingress pub unmarshal L n1 n2 g b key raw =
      Some (count_redacted (count_ingress g), fst (pub b (egress_key L key (Normalize t)) bs))"
    using assms(1,4,5) s(1) bs
    by (simp add: on_ingress_def ProcessPacket_def ParseJSONEnvelope_def Let_def ok_def)
  with s bs that show ?thesis by blast
qed

text \<open>What the guard does with a tick's packet, by its tier.\<close>

lemma guard_on_tick:
  assumes "unmarshal data = Inr e" and "Validate L (Some e) = (ok (), Some e)" and "Telemetry e = Some (Normalize t)"
    and "Classification (Header e) = tick_tier emit n" and "physical t" and "sim_tokens v"
    and "GPSCoarsenDecimals (cg_engine g) \<le> 12"
  defines "k \<equiv> tick_key L emit n v"
  shows "if tick_tier emit n = Tier3Critical
    then \<exists>reason err. on_ingress pub unmarshal L m1 m2 g b k data =
           Some (refuse L m1 m2 (count_ingress g) k reason err (OriginEnclave (Header e)) Tier3Critical data, b)
    else \<exists>s bs. Validate L (Some s) = (ok (), Some s) \<and> Classification (Header s) = Tier1Public \<and>
           Telemetry s = Some (sanitize_telemetry (cg_engine g) (Normalize t)) \<and> Marshal (json_envelope s) = ok bs \<and>
           on_ingress pub unmarshal L m1 m2 g b k data =
             Some (count_redacted (count_ingress g),
                   fst (pub b (BuildKey L ''tier1'' (sim_vehicleType v) (sim_team v) (sim_id v) ''telemetry'') bs))"
proof -
  have k: "\<not> skip_ingress k"
    "egress_key L k t' = BuildKey L ''tier1'' (sim_vehicleType v) (sim_team v) (sim_id v) ''telemetry''" for t'
    unfolding k_def tick_key_def by (rule telemetry_key [OF assms(6)]; simp)+
  show ?thesis
  proof (cases "tick_tier emit n = Tier3Critical")
    case True
    with assms(4) have "Classification (Header e) = Tier3Critical" by simp
    from guard_refuses [where unmarshal = unmarshal and raw = data and e = e, OF assms(1) this k(1)] True
    show ?thesis by simp
  next
    case False
    then have c: "Classification (Header e) = Tier2Restricted" using assms(4) by (auto simp: tick_tier_def)
    have "fst (Validate L (Some e)) = ok ()" using assms(2) by simp
    then obtain s bs where "Validate L (Some s) = (ok (), Some s)" "Marshal (json_envelope s) = ok bs"
      "Classification (Header s) = Tier1Public"
      "Telemetry s = Some (sanitize_telemetry (cg_engine g) (Normalize (Normalize t)))"
      "on_ingress pub unmarshal L m1 m2 g b k data =
         Some (count_redacted (count_ingress g), fst (pub b (egress_key L k (Normalize (Normalize t))) bs))"
      by (rule guard_redacts [where unmarshal = unmarshal and raw = data and e = e and pub = pub and ?n1.0 = m1 and
            ?n2.0 = m2 and b = b, OF assms(1) _ c k(1) assms(3) Normalize_physical [OF assms(5)] assms(7)])
    then show ?thesis unfolding k(2) Normalize_idem [OF assms(5)] using False by auto
  qed
qed

section \<open>Properties\<close>

text \<open>C1. From the operator to the vehicle: a dispatched command, as the gateway puts it on the bus, makes a
  vehicle that subscribes to its command topic execute it exactly when it is the blue drone named (letter
  case aside); every other vehicle, of either team, ignores it, although the vehicle's own addressing test
  would accept more. The JSON decoder is assumed to give the envelope back.\<close>

theorem dispatch_reaches_vehicle:
  assumes "n2 \<noteq> 0" and "n4 \<noteq> 0" and "dispatchable g verb body = Some req"
    and "addressable_sim v" and "token (cr_TargetVehicle req)"
  shows "\<exists>key bs e reply. handleCommand pub L n1 n2 n3 n4 g b verb body = Some (reply, fst (pub b key bs)) \<and>
    Validate L (Some e) = (ok (), Some e) \<and> Marshal (json_envelope e) = ok bs \<and>
    (\<forall>unmarshal. unmarshal bs = Inr e \<longrightarrow>
       on_command unmarshal L (sim_cmdTopic L v) v key bs =
         (if is_target (cr_TargetVehicle req) v then execute (cr_CommandType req) v else v))"
proof -
  obtain e bs reply where "Validate L (Some e) = (ok (), Some e)" "Marshal (json_envelope e) = ok bs"
    "Command e = Some (command_payload n1 n2 req)"
    "handleCommand pub L n1 n2 n3 n4 g b verb body =
       Some (reply, fst (pub b (BuildKey L ''tier2'' ''drone'' ''blue'' (cr_TargetVehicle req) ''command'') bs))"
    by (rule handleCommand_dispatches [OF assms(1-3), where L = L and pub = pub and b = b and ?n1.0 = n1 and ?n3.0 = n3])
  with command_acts [OF assms(4,5)] show ?thesis by blast
qed

text \<open>An order to hold, for a vehicle the gateway knows by its name only.\<close>

definition hold_alpha :: CommandRequest where
  "hold_alpha = \<lparr>cr_TargetVehicle = ''blue-alpha'', cr_CommandType = ''HOVER'', cr_Parameters = None\<rparr>"

definition record_pub :: "(string \<times> string) list \<Rightarrow> string \<Rightarrow> string \<Rightarrow> (string \<times> string) list \<times> string option" where
  "record_pub b k p = (b @ [(k, p)], None)"

theorem dispatch_reaches_vehicle_witness:
  "\<forall>L. \<exists>key bs e reply. handleCommand record_pub L 1 2 3 4 bare_gateway [] ''POST'' (Inr hold_alpha) =
       Some (reply, [(key, bs)]) \<and>
     sim_state (on_command (\<lambda>_. Inr e) L (sim_cmdTopic L over_base) over_base key bs) = ''HOVER''"
proof
  fix L
  have "dispatchable bare_gateway ''POST'' (Inr hold_alpha) = Some hold_alpha"
    by (simp add: dispatchable_def bare_gateway_def hold_alpha_def authorised_def is_blue_target_def
        payload_finite_def HasPrefix_def)
  moreover have "addressable_sim over_base" "token (cr_TargetVehicle hold_alpha)"
    by (simp_all add: addressable_def over_base_def token_def is_ascii_def hold_alpha_def)
  ultimately obtain key bs e reply where
    h: "handleCommand record_pub L 1 2 3 4 bare_gateway [] ''POST'' (Inr hold_alpha) = Some (reply, fst (record_pub [] key bs))"
    and c: "\<forall>unmarshal. unmarshal bs = Inr e \<longrightarrow>
       on_command unmarshal L (sim_cmdTopic L over_base) over_base key bs =
         (if is_target (cr_TargetVehicle hold_alpha) over_base then execute (cr_CommandType hold_alpha) over_base
          else over_base)"
    using dispatch_reaches_vehicle [where ?n2.0 = 2 and ?n4.0 = 4 and g = bare_gateway and verb = "''POST''" and
        body = "Inr hold_alpha" and req = hold_alpha and v = over_base and pub = record_pub and L = L and ?n1.0 = 1 and
        ?n3.0 = 3 and b = "[]"] by auto
  have "on_command (\<lambda>_. Inr e) L (sim_cmdTopic L over_base) over_base key bs = execute ''HOVER'' over_base"
    using c by (simp add: hold_alpha_def over_base_def commands_unit_def lower_char_def char_of_def)
  with h show "\<exists>key bs e reply. handleCommand record_pub L 1 2 3 4 bare_gateway [] ''POST'' (Inr hold_alpha) =
       Some (reply, [(key, bs)]) \<and>
     sim_state (on_command (\<lambda>_. Inr e) L (sim_cmdTopic L over_base) over_base key bs) = ''HOVER''"
    by (intro exI [of _ key] exI [of _ bs] exI [of _ e] exI [of _ reply]) (simp add: record_pub_def execute_def)
qed

text \<open>C3. In a swarm one vehicle moves: whatever the vehicles of a swarm have flown and been ordered so far, a
  command dispatched for the \<open>i\<close>-th blue call sign makes exactly the \<open>i\<close>-th blue vehicle execute it; every
  other vehicle, blue or red, stays as it is. The JSON decoder is assumed to give the envelope back.\<close>

theorem swarm_dispatch:
  assumes "n2 \<noteq> 0" and "n4 \<noteq> 0" and "dispatchable g verb body = Some req"
    and "cr_TargetVehicle req = blue_callsign i" and "i < blueCount"
    and "list_all2 (flight M L T) (swarm M blueCount redCount) vs"
  shows "\<exists>key bs e reply. handleCommand pub L n1 n2 n3 n4 g b verb body = Some (reply, fst (pub b key bs)) \<and>
    Marshal (json_envelope e) = ok bs \<and>
    (\<forall>unmarshal. unmarshal bs = Inr e \<longrightarrow>
       map (\<lambda>v. on_command unmarshal L (sim_cmdTopic L v) v key bs) vs =
         vs[i := execute (cr_CommandType req) (vs ! i)])"
proof -
  let ?key = "BuildKey L ''tier2'' ''drone'' ''blue'' (cr_TargetVehicle req) ''command''"
  obtain e bs reply where e: "Marshal (json_envelope e) = ok bs" "Command e = Some (command_payload n1 n2 req)"
    "handleCommand pub L n1 n2 n3 n4 g b verb body = Some (reply, fst (pub b ?key bs))"
    by (rule handleCommand_dispatches [OF assms(1-3), where L = L and pub = pub and b = b and ?n1.0 = n1 and ?n3.0 = n3])
  have "token (cr_TargetVehicle req)" using plain_text [OF plain_callsign(1)] assms(4) by simp
  from swarm_acts [OF assms(6,5)] command_acts [OF _ this _ e(2)]
  have "map (\<lambda>v. on_command unmarshal L (sim_cmdTopic L v) v ?key bs) vs = vs[i := execute (cr_CommandType req) (vs ! i)]"
    if "unmarshal bs = Inr e" for unmarshal
    using that by (simp add: assms(4))
  with e(1,3) show ?thesis by blast
qed

text \<open>The default swarm, before its first tick.\<close>

theorem swarm_dispatch_witness:
  "\<forall>L M. \<exists>key bs e reply. handleCommand record_pub L 1 2 3 4 bare_gateway [] ''POST'' (Inr hold_alpha) =
       Some (reply, [(key, bs)]) \<and>
     map (\<lambda>v. on_command (\<lambda>_. Inr e) L (sim_cmdTopic L v) v key bs) (swarm M 5 5) =
       (swarm M 5 5)[0 := execute ''HOVER'' (blue_sim M 0)]"
proof (intro allI)
  fix L M
  have d: "dispatchable bare_gateway ''POST'' (Inr hold_alpha) = Some hold_alpha"
    by (simp add: dispatchable_def bare_gateway_def hold_alpha_def authorised_def is_blue_target_def
        payload_finite_def HasPrefix_def)
  have n: "cr_TargetVehicle hold_alpha = blue_callsign 0" by (simp add: hold_alpha_def blue_callsign_def blueCallsigns_def)
  have s: "list_all2 (flight M L {}) (swarm M 5 5) (swarm M 5 5)"
    by (rule list_all2_refl) (rule flight.start)
  have v: "swarm M 5 5 ! 0 = blue_sim M 0" by (simp add: swarm_nth)
  show "\<exists>key bs e reply. handleCommand record_pub L 1 2 3 4 bare_gateway [] ''POST'' (Inr hold_alpha) =
       Some (reply, [(key, bs)]) \<and>
     map (\<lambda>v. on_command (\<lambda>_. Inr e) L (sim_cmdTopic L v) v key bs) (swarm M 5 5) =
       (swarm M 5 5)[0 := execute ''HOVER'' (blue_sim M 0)]"
    using swarm_dispatch [OF _ _ d n _ s, where ?n2.0 = 2 and ?n4.0 = 4 and pub = record_pub and ?n1.0 = 1 and
        ?n3.0 = 3 and b = "[]"]
    by (fastforce simp: v record_pub_def hold_alpha_def)
qed

text \<open>C4. From the operator to an autopilot: behind a relay, over either transport, a dispatched command puts on
  the wire exactly the \<^verbatim>\<open>COMMAND_LONG\<close> packet it stands for (return to launch, arm, disarm, hold), with the
  next sequence number, when the relay's unit is the blue drone named and the transport does not report a
  failure; any other command puts nothing there. The JSON decoder is assumed to give the envelope back.\<close>

theorem dispatch_reaches_autopilot:
  assumes "n2 \<noteq> 0" and "n4 \<noteq> 0" and "dispatchable g verb body = Some req"
    and "addressable ty team unit" and "token (cr_TargetVehicle req)"
  defines "cs \<equiv> (if commands_unit (cr_TargetVehicle req) ty team unit then requests [cr_CommandType req] else [])"
  shows "\<exists>key bs e reply. handleCommand pub L n1 n2 n3 n4 g b verb body = Some (reply, fst (pub b key bs)) \<and>
    Marshal (json_envelope e) = ok bs \<and>
    (\<forall>unmarshal. unmarshal bs = Inr e \<longrightarrow>
       (let topic = BuildKey L ''tier2'' ty team unit ''command'';
            u' = on_relay SendCommandLong_udp unmarshal topic u key bs;
            s' = on_relay SendCommandLong_stream unmarshal topic s key bs
        in udp_written u' = udp_written u @ command_log (uc_seq u) cs (snd (udp.send_all u cs)) \<and>
           stream_written s' = stream_written s @ command_log (sc_seq s) cs (snd (stream.send_all s cs))))"
proof -
  let ?key = "BuildKey L ''tier2'' ''drone'' ''blue'' (cr_TargetVehicle req) ''command''"
  obtain e bs reply where e: "Marshal (json_envelope e) = ok bs" "Command e = Some (command_payload n1 n2 req)"
    "handleCommand pub L n1 n2 n3 n4 g b verb body = Some (reply, fst (pub b ?key bs))"
    by (rule handleCommand_dispatches [OF assms(1-3), where L = L and pub = pub and b = b and ?n1.0 = n1 and ?n3.0 = n3])
  have c: "cs = requests (if commands_unit (cr_TargetVehicle req) ty team unit then [cr_CommandType req] else [])"
    by (simp add: cs_def)
  have "let topic = BuildKey L ''tier2'' ty team unit ''command'';
            u' = on_relay SendCommandLong_udp unmarshal topic u ?key bs;
            s' = on_relay SendCommandLong_stream unmarshal topic s ?key bs
        in udp_written u' = udp_written u @ command_log (uc_seq u) cs (snd (udp.send_all u cs)) \<and>
           stream_written s' = stream_written s @ command_log (sc_seq s) cs (snd (stream.send_all s cs))"
    if "unmarshal bs = Inr e" for unmarshal
    using udp.relay_written stream.relay_written
    by (simp only: Let_def case_prod_beta c command_relays [where unmarshal = unmarshal, OF assms(4,5) that e(2)])
  with e(1,3) show ?thesis by blast
qed

text \<open>A recall, and an autopilot that has been heard.\<close>

theorem dispatch_reaches_autopilot_witness:
  "\<forall>L. \<exists>key bs e reply. handleCommand record_pub L 1 2 3 4 bare_gateway [] ''POST''
       (Inr (hold_alpha\<lparr>cr_CommandType := ''RETURN_TO_BASE''\<rparr>)) = Some (reply, [(key, bs)]) \<and>
     udp_written (on_relay SendCommandLong_udp (\<lambda>_. Inr e)
         (BuildKey L ''tier2'' ''drone'' ''blue'' ''blue-alpha'' ''command'') (sample_udp (Some ''fc'')) key bs) =
       [command_bytes MavCmdNavReturnToLaunch no_params (uc_seq (sample_udp (Some ''fc'')) + 1)]"
proof
  fix L
  let ?r = "hold_alpha\<lparr>cr_CommandType := ''RETURN_TO_BASE''\<rparr>" and ?u = "sample_udp (Some ''fc'')"
  let ?topic = "BuildKey L ''tier2'' ''drone'' ''blue'' ''blue-alpha'' ''command''"
  have d: "dispatchable bare_gateway ''POST'' (Inr ?r) = Some ?r"
    by (simp add: dispatchable_def bare_gateway_def hold_alpha_def authorised_def is_blue_target_def
        payload_finite_def HasPrefix_def)
  have t: "cr_TargetVehicle ?r = ''blue-alpha''" "cr_CommandType ?r = ''RETURN_TO_BASE''" by (simp_all add: hold_alpha_def)
  have a: "addressable ''drone'' ''blue'' ''blue-alpha''" "token ''blue-alpha''"
    by (simp_all add: addressable_def token_def is_ascii_def)
  have n: "commands_unit ''blue-alpha'' ''drone'' ''blue'' ''blue-alpha''" by (simp only: commands_unit_def lower_consts)
  have q: "requests [''RETURN_TO_BASE''] = [(MavCmdNavReturnToLaunch, no_params)]" by (simp add: relay_request_def)
  have s: "snd (udp.send_all ?u [(MavCmdNavReturnToLaunch, no_params)]) = [None]" "udp_written ?u = []"
    by (simp_all add: sample_udp_def SendCommandLong_udp_def command_packet_ok ok_def write_wire_def udp_written_def Let_def)
  let ?c = "[(MavCmdNavReturnToLaunch, no_params)]"
  note r = dispatch_reaches_autopilot [OF _ _ d a(1), where ?n2.0 = 2 and ?n4.0 = 4 and pub = record_pub and L = L and
      ?n1.0 = 1 and ?n3.0 = 3 and b = "[]" and u = ?u]
  obtain key bs e reply where h: "handleCommand record_pub L 1 2 3 4 bare_gateway [] ''POST'' (Inr ?r) =
      Some (reply, fst (record_pub [] key bs))"
    and w: "\<forall>unmarshal. unmarshal bs = Inr e \<longrightarrow>
       udp_written (on_relay SendCommandLong_udp unmarshal ?topic ?u key bs) =
         udp_written ?u @ command_log (uc_seq ?u) ?c (snd (udp.send_all ?u ?c))"
    using r a(2) unfolding t if_P [OF n] q Let_def by force
  have "udp_written (on_relay SendCommandLong_udp (\<lambda>_. Inr e) ?topic ?u key bs) =
      [command_bytes MavCmdNavReturnToLaunch no_params (uc_seq ?u + 1)]"
    using w [rule_format, of "\<lambda>_. Inr e"] by (simp add: s del: udp.send_all.simps)
  moreover have "fst (record_pub [] key bs) = [(key, bs)]" by (simp add: record_pub_def)
  ultimately have "handleCommand record_pub L 1 2 3 4 bare_gateway [] ''POST'' (Inr ?r) = Some (reply, [(key, bs)]) \<and>
     udp_written (on_relay SendCommandLong_udp (\<lambda>_. Inr e) ?topic ?u key bs) =
      [command_bytes MavCmdNavReturnToLaunch no_params (uc_seq ?u + 1)]" using h by simp
  then show "\<exists>key bs e reply. handleCommand record_pub L 1 2 3 4 bare_gateway [] ''POST'' (Inr ?r) =
       Some (reply, [(key, bs)]) \<and>
     udp_written (on_relay SendCommandLong_udp (\<lambda>_. Inr e) ?topic ?u key bs) =
       [command_bytes MavCmdNavReturnToLaunch no_params (uc_seq ?u + 1)]" by blast
qed

text \<open>C2. From the vehicle through the guard: what a tick publishes and the guard receives ends in one of two
  ways. A TIER-2 report becomes one publication, on the vehicle's \<^verbatim>\<open>sec/tier1/\<close> key, of an
  envelope that validates, is TIER-1 and carries the sanitised report; a TIER-3 report is quarantined
  and nothing is published. The JSON decoder is assumed to give the envelope back.\<close>

theorem report_crosses_guard:
  assumes "trig_ok M" and "airworthy (10 ^ 6) v" and "in_sector v" and "named v" and "sim_tokens v"
    and "dt \<in> subsecond" and "n2 \<noteq> 0"
    and "sized 90 (Latitude (Coords (snd (Step M dt v))))" "sized 180 (Longitude (Coords (snd (Step M dt v))))"
    and "GPSCoarsenDecimals (cg_engine gd) \<le> 12"
  shows "\<exists>e data. drone_tick pub L M n1 n2 emit dt (n, v, b) =
      Some (n + 1, fst (Step M dt v), fst (pub b (tick_key L emit (n + 1) v) data)) \<and>
    Marshal (json_envelope e) = ok data \<and>
    (\<forall>unmarshal. unmarshal data = Inr e \<longrightarrow>
      (if tick_tier emit (n + 1) = Tier3Critical
       then \<exists>reason err. on_ingress pub' unmarshal L m1 m2 gd b' (tick_key L emit (n + 1) v) data =
              Some (refuse L m1 m2 (count_ingress gd) (tick_key L emit (n + 1) v) reason err
                      (OriginEnclave (Header e)) Tier3Critical data, b')
       else \<exists>s bs. Validate L (Some s) = (ok (), Some s) \<and> Classification (Header s) = Tier1Public \<and>
              Telemetry s = Some (sanitize_telemetry (cg_engine gd) (Normalize (snd (Step M dt v)))) \<and>
              Marshal (json_envelope s) = ok bs \<and>
              on_ingress pub' unmarshal L m1 m2 gd b' (tick_key L emit (n + 1) v) data =
                Some (count_redacted (count_ingress gd),
                      fst (pub' b' (BuildKey L ''tier1'' (sim_vehicleType v) (sim_team v) (sim_id v) ''telemetry'') bs))))"
proof -
  let ?t = "snd (Step M dt v)" and ?k = "tick_key L emit (n + 1) v"
  obtain e data where e: "Validate L (Some e) = (ok (), Some e)" "Marshal (json_envelope e) = ok data"
    "Telemetry e = Some (Normalize ?t)" "Classification (Header e) = tick_tier emit (n + 1)"
    "drone_tick pub L M n1 n2 emit dt (n, v, b) = Some (n + 1, fst (Step M dt v), fst (pub b ?k data))"
    by (rule drone_tick_packet [OF assms(1-4,6-9), where L = L and emit = emit and n = n and pub = pub and ?n1.0 = n1 and b = b])
  have p: "physical ?t" by (rule Step_physical [OF assms(1-3,6)])
  note guard_on_tick [where unmarshal = unmarshal and data = data and e = e and pub = pub' and b = b' for unmarshal,
      OF _ e(1,3,4) p assms(5,10), where ?m1.0 = m1 and ?m2.0 = m2]
  with e(2,5) show ?thesis by blast
qed

theorem report_crosses_guard_witness:
  "\<forall>L. \<exists>data v' e s bs g'. drone_tick record_pub L level_trig 5 6 True 1 (0, over_base\<lparr>sim_state := ''HOVER''\<rparr>, []) =
       Some (1, v', [(BuildKey L ''tier2'' ''drone'' ''blue'' ''blue-alpha'' ''telemetry'', data)]) \<and>
     Validate L (Some s) = (ok (), Some s) \<and> Marshal (json_envelope s) = ok bs \<and>
     on_ingress record_pub (\<lambda>_. Inr e) L 7 8 sample_guard []
         (BuildKey L ''tier2'' ''drone'' ''blue'' ''blue-alpha'' ''telemetry'') data =
       Some (g', [(BuildKey L ''tier1'' ''drone'' ''blue'' ''blue-alpha'' ''telemetry'', bs)])"
proof
  fix L
  let ?v = "over_base\<lparr>sim_state := ''HOVER''\<rparr>"
  let ?k = "tick_key L True (0 + 1) ?v"
  have a: "trig_ok level_trig" by (simp add: trig_ok_def level_trig_def sized_def zero_f64_def one_f64_def)
  have v: "airworthy (10 ^ 6) ?v" "in_sector ?v" "named ?v" "sim_tokens ?v"
    by (simp_all add: airworthy_def over_base_def flight_states_def between_def full_battery_exact sized_def
        in_sector_def named_def sim_tokens_def token_def is_ascii_def)
  have o: "1 \<in> subsecond" "(6 :: int) \<noteq> 0" by (simp_all add: subsecond_def one_f64_def)
  have p: "sized 90 (Latitude (Coords (snd (Step level_trig 1 ?v))))"
    "sized 180 (Longitude (Coords (snd (Step level_trig 1 ?v))))"
    by (simp_all add: Step_def step_hover_def over_base_def sized_def Let_def)
  have c: "GPSCoarsenDecimals (cg_engine sample_guard) \<le> 12"
    by (simp add: sample_guard_def NewCDSGuard_def NewPolicyEngine_def)
  obtain e data where d: "drone_tick record_pub L level_trig 5 6 True 1 (0, ?v, []) =
      Some (0 + 1, fst (Step level_trig 1 ?v), fst (record_pub [] ?k data))"
    and u: "\<forall>unmarshal. unmarshal data = Inr e \<longrightarrow>
      (if tick_tier True (0 + 1) = Tier3Critical
       then \<exists>reason err. on_ingress record_pub unmarshal L 7 8 sample_guard [] ?k data =
              Some (refuse L 7 8 (count_ingress sample_guard) ?k reason err (OriginEnclave (Header e)) Tier3Critical data, [])
       else \<exists>s bs. Validate L (Some s) = (ok (), Some s) \<and> Classification (Header s) = Tier1Public \<and>
              Telemetry s = Some (sanitize_telemetry (cg_engine sample_guard) (Normalize (snd (Step level_trig 1 ?v)))) \<and>
              Marshal (json_envelope s) = ok bs \<and>
              on_ingress record_pub unmarshal L 7 8 sample_guard [] ?k data =
                Some (count_redacted (count_ingress sample_guard),
                      fst (record_pub [] (BuildKey L ''tier1'' (sim_vehicleType ?v) (sim_team ?v) (sim_id ?v) ''telemetry'') bs)))"
    using report_crosses_guard [OF a v o p c, where L = L and emit = True and n = 0 and pub = record_pub and ?n1.0 = 5 and
        b = "[]" and pub' = record_pub and ?m1.0 = 7 and ?m2.0 = 8 and b' = "[]"] by blast
  have t: "tick_tier True (0 + 1) \<noteq> Tier3Critical" by (simp add: tick_tier_def tier_defs)
  have k: "?k = BuildKey L ''tier2'' ''drone'' ''blue'' ''blue-alpha'' ''telemetry''"
    by (simp add: tick_key_def over_base_def)
  obtain s bs where "Validate L (Some s) = (ok (), Some s)" "Marshal (json_envelope s) = ok bs"
    "on_ingress record_pub (\<lambda>_. Inr e) L 7 8 sample_guard [] ?k data = Some (count_redacted (count_ingress sample_guard),
       [(BuildKey L ''tier1'' ''drone'' ''blue'' ''blue-alpha'' ''telemetry'', bs)])"
    using spec [OF u, of "\<lambda>_. Inr e"] t by (auto simp: record_pub_def over_base_def)
  with d show "\<exists>data v' e s bs g'. drone_tick record_pub L level_trig 5 6 True 1 (0, ?v, []) =
       Some (1, v', [(BuildKey L ''tier2'' ''drone'' ''blue'' ''blue-alpha'' ''telemetry'', data)]) \<and>
     Validate L (Some s) = (ok (), Some s) \<and> Marshal (json_envelope s) = ok bs \<and>
     on_ingress record_pub (\<lambda>_. Inr e) L 7 8 sample_guard []
         (BuildKey L ''tier2'' ''drone'' ''blue'' ''blue-alpha'' ''telemetry'') data =
       Some (g', [(BuildKey L ''tier1'' ''drone'' ''blue'' ''blue-alpha'' ''telemetry'', bs)])"
    unfolding k record_pub_def by auto
qed

end
